(* ===== verification/Prelude.thy ===== *)
theory Prelude
  imports
    Main
    "HOL-Library.Word"
    "HOL-Library.List_Lexorder"
    "HOL-Library.Char_ord"
    "HOL-Library.Product_Lexorder"
    "HOL-Library.Option_ord"
    "HOL-Library.Code_Target_Nat"
begin

unbundle bit_operations_syntax

text \<open>
  Shared vocabulary of the development: the machine integers and the clock type
  of the Rust code, \<open>Result\<close> values, the ordered containers \<open>BTreeMap\<close> and
  \<open>BTreeSet\<close> of the Rust standard library, and the locale of state machines
  whose operations keep an invariant. No definition here models a file of
  \<open>src/\<close>; the theories of the components do.
\<close>

section \<open>Machine integers, clock readings, results\<close>

type_synonym u8 = "8 word"
type_synonym u16 = "16 word"
type_synonym u32 = "32 word"
type_synonym u64 = "64 word"
type_synonym i32 = "32 word"
type_synonym bytes = "u8 list"

text \<open>
  A \<open>SystemTime\<close> is only stored and copied by the modelled code; it is the number
  of nanoseconds before or after the Unix epoch.
\<close>

type_synonym SystemTime = int

text \<open>\<open>Result<T, E>\<close> is the sum \<open>E + T\<close>.\<close>

abbreviation Err :: "'e \<Rightarrow> 'e + 'a" where
  "Err \<equiv> Inl"

abbreviation Ok :: "'a \<Rightarrow> 'e + 'a" where
  "Ok \<equiv> Inr"

text \<open>The \<open>?\<close> operator on a pure result, and \<open>Result::map_err\<close>.\<close>

definition bind_result :: "'e + 'a \<Rightarrow> ('a \<Rightarrow> 'e + 'b) \<Rightarrow> 'e + 'b" where
  "bind_result r f = (case r of Inl e \<Rightarrow> Inl e | Inr a \<Rightarrow> f a)"

definition map_err :: "('e \<Rightarrow> 'f) \<Rightarrow> 'e + 'a \<Rightarrow> 'f + 'a" where
  "map_err f r = (case r of Inl e \<Rightarrow> Inl (f e) | Inr a \<Rightarrow> Inr a)"

definition is_ok :: "'e + 'a \<Rightarrow> bool" where
  "is_ok r = (case r of Inl _ \<Rightarrow> False | Inr _ \<Rightarrow> True)"

lemma bind_result_simps [simp]:
  "bind_result (Inl e) f = Inl e"
  "bind_result (Inr a) f = f a"
  by (simp_all add: bind_result_def)

lemma map_err_simps [simp]:
  "map_err f (Inl e) = Inl (f e)"
  "map_err f (Inr a) = Inr a"
  by (simp_all add: map_err_def)

lemma is_ok_simps [simp]:
  "\<not> is_ok (Inl e)"
  "is_ok (Inr a)"
  by (simp_all add: is_ok_def)

lemma bind_result_eq_Ok [simp]:
  "bind_result r f = Inr b \<longleftrightarrow> (\<exists>a. r = Inr a \<and> f a = Inr b)"
  by (cases r) auto

lemma map_err_eq_Ok [simp]: "map_err f r = Inr a \<longleftrightarrow> r = Inr a"
  by (cases r) auto

lemma is_ok_map_err [simp]: "is_ok (map_err f r) = is_ok r"
  by (cases r) auto

text \<open>The checked and saturating additions of \<open>u64\<close>.\<close>

definition checked_add_u64 :: "u64 \<Rightarrow> u64 \<Rightarrow> u64 option" where
  "checked_add_u64 a b = (if unat a + unat b < 2 ^ 64 then Some (a + b) else None)"

definition saturating_add_u64 :: "u64 \<Rightarrow> u64 \<Rightarrow> u64" where
  "saturating_add_u64 a b = (if unat a + unat b < 2 ^ 64 then a + b else - 1)"

lemma unat_u64_bound: "unat (a :: u64) < 2 ^ 64"
  using unsigned_less [of a, where 'a = nat] by simp

text \<open>The carry test of the hardware, which evaluates at any magnitude.\<close>

lemma no_carry_u64: "unat a + unat b < 2 ^ 64 \<longleftrightarrow> a \<le> a + b" for a b :: u64
  using no_olen_add_nat [of a b] by simp

lemma checked_add_u64_code [code]:
  "checked_add_u64 a b = (if a \<le> a + b then Some (a + b) else None)"
  by (simp only: checked_add_u64_def no_carry_u64)

lemma saturating_add_u64_code [code]:
  "saturating_add_u64 a b = (if a \<le> a + b then a + b else - 1)"
  by (simp only: saturating_add_u64_def no_carry_u64)

lemma checked_add_u64_Some:
  "checked_add_u64 a b = Some c \<Longrightarrow> unat c = unat a + unat b"
  by (auto simp: checked_add_u64_def unat_word_ariths split: if_splits)

lemma unat_saturating_add_u64:
  "unat (saturating_add_u64 a b) = min (unat a + unat b) (2 ^ 64 - 1)"
proof (cases "unat a + unat b < 2 ^ 64")
  case True
  then show ?thesis by (simp add: saturating_add_u64_def unat_word_ariths)
next
  case False
  have "unat (- 1 :: u64) = 2 ^ 64 - 1"
    by (simp add: unsigned_minus_1_eq_mask mask_eq_exp_minus_1)
  with False show ?thesis by (simp add: saturating_add_u64_def)
qed

section \<open>Ordered maps\<close>

text \<open>
  \<open>BTreeMap<K, V>\<close>: a finite map iterated in ascending key order. Its values are the
  association lists with strictly ascending keys, so two maps with the same entries
  are equal, as in Rust.
\<close>

fun upd_assoc :: "'k::linorder \<Rightarrow> 'v \<Rightarrow> ('k \<times> 'v) list \<Rightarrow> ('k \<times> 'v) list" where
  "upd_assoc k v [] = [(k, v)]"
| "upd_assoc k v ((k', v') # xs) =
     (if k < k' then (k, v) # (k', v') # xs
      else if k = k' then (k, v) # xs
      else (k', v') # upd_assoc k v xs)"

definition del_assoc :: "'k \<Rightarrow> ('k \<times> 'v) list \<Rightarrow> ('k \<times> 'v) list" where
  "del_assoc k xs = filter (\<lambda>(k', _). k' \<noteq> k) xs"

definition ascending :: "('k::linorder \<times> 'v) list \<Rightarrow> bool" where
  "ascending xs = sorted_wrt (<) (map fst xs)"

lemma set_keys_upd_assoc [simp]:
  "set (map fst (upd_assoc k v xs)) = insert k (set (map fst xs))"
  by (induction k v xs rule: upd_assoc.induct) auto

lemma ascending_upd_assoc: "ascending xs \<Longrightarrow> ascending (upd_assoc k v xs)"
  unfolding ascending_def
proof (induction k v xs rule: upd_assoc.induct)
  case (2 k v k' v' xs)
  consider "k < k'" | "k = k'" | "k' < k" by force
  then show ?case
  proof cases
    case 3
    then have "k \<noteq> k'" and "\<not> k < k'" by auto
    with 2 3 show ?thesis
      by (simp del: set_map add: set_keys_upd_assoc)
  qed (use 2 in auto)
qed simp

lemma ascending_del_assoc: "ascending xs \<Longrightarrow> ascending (del_assoc k xs)"
  unfolding ascending_def del_assoc_def
  by (induction xs) (auto simp: image_iff)

lemma map_of_upd_assoc: "map_of (upd_assoc k v xs) k' = (if k' = k then Some v else map_of xs k')"
  by (induction xs) auto

lemma map_of_del_assoc: "map_of (del_assoc k xs) k' = (if k' = k then None else map_of xs k')"
  by (induction xs) (auto simp: del_assoc_def)

typedef (overloaded) ('k::linorder, 'v) btree_map = "{xs :: ('k \<times> 'v) list. ascending xs}"
  morphisms bm_entries Btree_map
  by (rule exI [of _ "[]"]) (simp add: ascending_def)

setup_lifting type_definition_btree_map

lift_definition bm_empty :: "('k::linorder, 'v) btree_map" is "[]"
  by (simp add: ascending_def)

lift_definition bm_insert :: "'k::linorder \<Rightarrow> 'v \<Rightarrow> ('k, 'v) btree_map \<Rightarrow> ('k, 'v) btree_map"
  is upd_assoc
  by (rule ascending_upd_assoc)

lift_definition bm_remove :: "'k::linorder \<Rightarrow> ('k, 'v) btree_map \<Rightarrow> ('k, 'v) btree_map"
  is del_assoc
  by (rule ascending_del_assoc)

lift_definition bm_get :: "('k::linorder, 'v) btree_map \<Rightarrow> 'k \<Rightarrow> 'v option"
  is map_of .

lift_definition bm_map_values :: "('v \<Rightarrow> 'w) \<Rightarrow> ('k::linorder, 'v) btree_map \<Rightarrow> ('k, 'w) btree_map"
  is "\<lambda>f. map (\<lambda>(k, v). (k, f v))"
  by (simp add: ascending_def comp_def case_prod_unfold)

text \<open>Iteration is in ascending key order.\<close>

definition bm_keys :: "('k::linorder, 'v) btree_map \<Rightarrow> 'k list" where
  "bm_keys m = map fst (bm_entries m)"

definition bm_values :: "('k::linorder, 'v) btree_map \<Rightarrow> 'v list" where
  "bm_values m = map snd (bm_entries m)"

instantiation btree_map :: (linorder, equal) equal
begin

definition equal_btree_map :: "('a, 'b) btree_map \<Rightarrow> ('a, 'b) btree_map \<Rightarrow> bool" where
  "equal_btree_map m n = (bm_entries m = bm_entries n)"

instance
  by standard (simp add: equal_btree_map_def bm_entries_inject)

end

lemma bm_get_empty [simp]: "bm_get bm_empty k = None"
  by transfer simp

lemma bm_get_insert [simp]:
  "bm_get (bm_insert k v m) k' = (if k' = k then Some v else bm_get m k')"
  by transfer (simp add: map_of_upd_assoc)

lemma bm_get_remove [simp]:
  "bm_get (bm_remove k m) k' = (if k' = k then None else bm_get m k')"
  by transfer (simp add: map_of_del_assoc)

lemma map_of_map_snd: "map_of (map (\<lambda>(k, v). (k, f v)) xs) k = map_option f (map_of xs k)"
  by (induction xs) auto

lemma bm_get_map_values [simp]: "bm_get (bm_map_values f m) k = map_option f (bm_get m k)"
  by transfer (rule map_of_map_snd)

lemma ascending_distinct: "ascending xs \<Longrightarrow> distinct (map fst xs)"
  by (induction xs) (auto simp: ascending_def)

lemma bm_entries_ascending [simp]: "ascending (bm_entries m)"
  using bm_entries [of m] by simp

lemma distinct_bm_keys [simp]: "distinct (bm_keys m)"
  by (simp add: bm_keys_def ascending_distinct)

lemma sorted_bm_keys: "sorted_wrt (<) (bm_keys m)"
  using bm_entries_ascending [of m] by (simp add: bm_keys_def ascending_def)

lemma bm_entries_iff: "(k, v) \<in> set (bm_entries m) \<longleftrightarrow> bm_get m k = Some v"
  by (simp add: bm_get.rep_eq ascending_distinct)

lemma bm_values_iff: "v \<in> set (bm_values m) \<longleftrightarrow> (\<exists>k. bm_get m k = Some v)"
  by (force simp: bm_values_def bm_entries_iff [symmetric])

lemma bm_keys_iff: "k \<in> set (bm_keys m) \<longleftrightarrow> bm_get m k \<noteq> None"
  by (force simp: bm_keys_def bm_entries_iff [symmetric])

lemma assoc_of_keys:
  "distinct (map fst xs) \<Longrightarrow> map (\<lambda>k. (k, the (map_of xs k))) (map fst xs) = xs"
  by (auto simp: comp_def intro!: map_idI)

lemma ascending_ext:
  assumes "ascending xs" and "ascending ys" and "map_of xs = map_of ys"
  shows "xs = ys"
proof -
  have "set (map fst xs) = set (map fst ys)"
    using assms(3) by (metis dom_map_of_conv_image_fst list.set_map)
  then have keys: "map fst xs = map fst ys"
    using assms(1,2) by (auto simp: ascending_def intro: strict_sorted_equal)
  have "map (\<lambda>k. (k, the (map_of xs k))) (map fst xs) = xs"
    and "map (\<lambda>k. (k, the (map_of ys k))) (map fst ys) = ys"
    using assms(1,2) by (simp_all only: assoc_of_keys ascending_distinct)
  then show ?thesis using keys assms(3) by metis
qed

lemma bm_ext: "(\<And>k. bm_get m k = bm_get n k) \<Longrightarrow> m = n"
  by transfer (auto intro: ascending_ext)

lemma bm_map_values_id: "(\<And>k v. bm_get m k = Some v \<Longrightarrow> f v = v) \<Longrightarrow> bm_map_values f m = m"
proof (rule bm_ext)
  fix k
  assume "\<And>k v. bm_get m k = Some v \<Longrightarrow> f v = v"
  then show "bm_get (bm_map_values f m) k = bm_get m k"
    by (cases "bm_get m k") auto
qed

lemma find_in_entries:
  "List.find P (bm_entries m) = Some (k, v) \<Longrightarrow> bm_get m k = Some v \<and> P (k, v)"
  by (auto simp: find_Some_iff bm_entries_iff [symmetric])

subsection \<open>The map interface\<close>

text \<open>
  What clients of a keyed store rely on: a lookup after an insert or a removal.
  The derived laws are used by every component that keeps its entries in a \<open>BTreeMap\<close>.
\<close>

locale keyed_store =
  fixes get :: "'m \<Rightarrow> 'k \<Rightarrow> 'v option"
    and insert :: "'k \<Rightarrow> 'v \<Rightarrow> 'm \<Rightarrow> 'm"
    and remove :: "'k \<Rightarrow> 'm \<Rightarrow> 'm"
  assumes get_insert: "get (insert k v m) k' = (if k' = k then Some v else get m k')"
    and get_remove: "get (remove k m) k' = (if k' = k then None else get m k')"
    and get_ext: "(\<And>k. get m k = get n k) \<Longrightarrow> m = n"
begin

lemma insert_same: "get m k = Some v \<Longrightarrow> insert k v m = m"
  by (rule get_ext) (simp add: get_insert)

lemma insert_insert: "insert k w (insert k v m) = insert k w m"
  by (rule get_ext) (simp add: get_insert)

lemma insert_commute: "k \<noteq> k' \<Longrightarrow> insert k v (insert k' v' m) = insert k' v' (insert k v m)"
  by (rule get_ext) (simp add: get_insert)

lemma remove_absent: "get m k = None \<Longrightarrow> remove k m = m"
  by (rule get_ext) (simp add: get_remove)

lemma remove_insert: "remove k (insert k v m) = remove k m"
  by (rule get_ext) (simp add: get_insert get_remove)

lemma fold_insert_other:
  "k \<notin> key ` set xs \<Longrightarrow> get (fold (\<lambda>x. insert (key x) (val x)) xs m) k = get m k"
  by (induction xs arbitrary: m) (auto simp: get_insert)

lemma fold_insert_dom:
  "get (fold (\<lambda>x. insert (key x) (val x)) xs m) k \<noteq> None
     \<longleftrightarrow> get m k \<noteq> None \<or> k \<in> key ` set xs"
  by (induction xs arbitrary: m) (auto simp: get_insert)

lemma fold_insert_cases:
  "get (fold (\<lambda>x. insert (key x) (val x)) xs m) k = Some v
     \<Longrightarrow> get m k = Some v \<or> (\<exists>x\<in>set xs. key x = k \<and> val x = v)"
  by (induction xs arbitrary: m) (fastforce simp: get_insert split: if_splits)+

end

interpretation bm: keyed_store bm_get bm_insert bm_remove
  by unfold_locales (simp_all add: bm_ext)

section \<open>Ordered sets\<close>

text \<open>\<open>BTreeSet<T>\<close> is, as in the Rust standard library, a \<open>BTreeMap\<close> to the unit type.\<close>

type_synonym 'a btree_set = "('a, unit) btree_map"

definition bs_insert :: "'a::linorder \<Rightarrow> 'a btree_set \<Rightarrow> 'a btree_set" where
  "bs_insert x s = bm_insert x () s"

definition bs_contains :: "'a::linorder btree_set \<Rightarrow> 'a \<Rightarrow> bool" where
  "bs_contains s x = (bm_get s x \<noteq> None)"

definition bs_to_list :: "'a::linorder btree_set \<Rightarrow> 'a list" where
  "bs_to_list s = bm_keys s"

definition bs_first :: "'a::linorder btree_set \<Rightarrow> 'a option" where
  "bs_first s = (case bs_to_list s of [] \<Rightarrow> None | x # _ \<Rightarrow> Some x)"

definition bs_len :: "'a::linorder btree_set \<Rightarrow> nat" where
  "bs_len s = length (bs_to_list s)"

definition bs_of_list :: "'a::linorder list \<Rightarrow> 'a btree_set" where
  "bs_of_list xs = fold bs_insert xs bm_empty"

lemma bs_contains_empty [simp]: "\<not> bs_contains bm_empty x"
  by (simp add: bs_contains_def)

lemma bs_contains_insert [simp]: "bs_contains (bs_insert x s) y \<longleftrightarrow> y = x \<or> bs_contains s y"
  by (simp add: bs_contains_def bs_insert_def)

lemma set_bs_to_list [simp]: "set (bs_to_list s) = {x. bs_contains s x}"
  by (auto simp: bs_to_list_def bs_contains_def bm_keys_iff)

lemma distinct_bs_to_list [simp]: "distinct (bs_to_list s)"
  by (simp add: bs_to_list_def)

lemma bs_contains_fold [simp]: "bs_contains (fold bs_insert xs s) y \<longleftrightarrow> y \<in> set xs \<or> bs_contains s y"
  by (induction xs arbitrary: s) auto

lemma bs_contains_of_list [simp]: "bs_contains (bs_of_list xs) y \<longleftrightarrow> y \<in> set xs"
  by (simp add: bs_of_list_def)

lemma bs_ext: "(\<And>x. bs_contains s x = bs_contains t x) \<Longrightarrow> s = t"
  by (rule bm_ext) (metis bs_contains_def option.exhaust unit.exhaust)

lemma bs_insert_present [simp]: "bs_contains s x \<Longrightarrow> bs_insert x s = s"
  by (rule bs_ext) auto

lemma bs_first_None: "bs_first s = None \<longleftrightarrow> s = bm_empty"
proof
  assume "bs_first s = None"
  then have "bs_to_list s = []" by (simp add: bs_first_def split: list.splits)
  then have "bs_contains s x = bs_contains bm_empty x" for x
    using set_bs_to_list [of s] by auto
  then show "s = bm_empty" by (rule bs_ext)
qed (simp add: bs_first_def bs_to_list_def bm_keys_def bm_empty.rep_eq)

lemma bs_first_empty [simp]: "bs_first bm_empty = None"
  by (simp add: bs_first_None)

lemma bs_len_empty [simp]: "bs_len bm_empty = 0"
  by (simp add: bs_len_def bs_to_list_def bm_keys_def bm_empty.rep_eq)

lemma bs_first_Some: "bs_first s = Some x \<Longrightarrow> bs_contains s x"
proof -
  assume "bs_first s = Some x"
  then obtain ys where "bs_to_list s = x # ys" by (auto simp: bs_first_def split: list.splits)
  then have "x \<in> set (bs_to_list s)" by (metis list.set_intros(1))
  then show ?thesis by simp
qed

lemma bs_first_single:
  assumes "bs_first s = Some x" and "\<not> bs_len s > 1"
  shows "bs_contains s y \<longleftrightarrow> y = x"
proof -
  from assms obtain ys where "bs_to_list s = x # ys" and "ys = []"
    by (auto simp: bs_first_def bs_len_def split: list.splits)
  then have "set (bs_to_list s) = {x}" by (metis list.set(1) list.simps(15))
  then show ?thesis by auto
qed

lemma bs_singleton:
  assumes "\<And>y. bs_contains s y \<longleftrightarrow> y = x"
  shows "bs_to_list s = [x]"
proof -
  have "s = bs_insert x bm_empty" by (rule bs_ext) (simp add: assms)
  then show ?thesis
    by (simp add: bs_to_list_def bm_keys_def bs_insert_def bm_insert.rep_eq bm_empty.rep_eq)
qed

section \<open>Systems of operations and their invariants\<close>

inductive reachable :: "('s \<Rightarrow> bool) \<Rightarrow> ('s \<Rightarrow> 's \<Rightarrow> bool) \<Rightarrow> 's \<Rightarrow> bool"
  for start :: "'s \<Rightarrow> bool" and step :: "'s \<Rightarrow> 's \<Rightarrow> bool"
where
  reachable_start: "start s \<Longrightarrow> reachable start step s"
| reachable_step: "reachable start step s \<Longrightarrow> step s t \<Longrightarrow> reachable start step t"

text \<open>
  A component is a set of start states and a step relation with one rule for each
  operation. An invariant that holds at the start and is kept by every operation
  holds after any sequence of calls.
\<close>

locale guarded_system =
  fixes start :: "'s \<Rightarrow> bool"
    and step :: "'s \<Rightarrow> 's \<Rightarrow> bool"
    and inv :: "'s \<Rightarrow> bool"
  assumes start_inv: "start s \<Longrightarrow> inv s"
    and step_inv: "inv s \<Longrightarrow> step s t \<Longrightarrow> inv t"
begin

lemma reachable_inv: "reachable start step s \<Longrightarrow> inv s"
  by (induction rule: reachable.induct) (auto intro: start_inv step_inv)

lemma steps_inv: "step\<^sup>*\<^sup>* s t \<Longrightarrow> inv s \<Longrightarrow> inv t"
  by (induction rule: rtranclp_induct) (auto intro: step_inv)

end

text \<open>
  Some components also promise that states only move forward in a preorder: what was
  recorded stays recorded, what has ended stays ended.
\<close>

locale forward_system = guarded_system +
  fixes fwd :: "'s \<Rightarrow> 's \<Rightarrow> bool"
  assumes fwd_refl: "fwd s s"
    and fwd_trans: "fwd s t \<Longrightarrow> fwd t u \<Longrightarrow> fwd s u"
    and step_fwd: "inv s \<Longrightarrow> step s t \<Longrightarrow> fwd s t"
begin

lemma steps_fwd: "step\<^sup>*\<^sup>* s t \<Longrightarrow> inv s \<Longrightarrow> fwd s t"
proof (induction rule: rtranclp_induct)
  case base
  show ?case by (rule fwd_refl)
next
  case (step t u)
  then have "inv t" by (blast intro: steps_inv)
  with step show ?case by (blast intro: fwd_trans step_fwd)
qed

end

end
