(* ===== verification/Identity.thy ===== *)
theory Identity
  imports Prelude
begin

text \<open>
  The process identity manager of \<open>crates/core/process_identity\<close>: logical process
  identities, the operating-system coordinates they are observed with, and the
  indexes that resolve an observation to an identity. \<open>contract.rs\<close> gives the data,
  \<open>manager.rs\<close> the operations, in the order of the source.
\<close>

section \<open>Data\<close>

type_synonym ProcessIdentity = u64
type_synonym NamespaceIdentity = string

record HostProcessCoordinates =
  hp_pid :: u32
  hp_task_id :: "u32 option"
  hp_start_time_ticks :: u64
  hp_start_boottime_ns :: "u64 option"

record NamespaceProcessCoordinates =
  np_pid_namespace :: NamespaceIdentity
  np_pid :: u32
  np_start_time_ticks :: u64

record ProcessObservation =
  po_host :: "HostProcessCoordinates option"
  po_namespace :: "NamespaceProcessCoordinates option"

text \<open>The derived \<open>Ord\<close> instances compare the fields lexicographically.\<close>

instantiation HostProcessCoordinates_ext :: (linorder) linorder
begin

definition less_eq_HostProcessCoordinates_ext ::
    "'a HostProcessCoordinates_scheme \<Rightarrow> 'a HostProcessCoordinates_scheme \<Rightarrow> bool" where
  "less_eq_HostProcessCoordinates_ext a b \<longleftrightarrow>
     (hp_pid a, hp_task_id a, hp_start_time_ticks a, hp_start_boottime_ns a,
        HostProcessCoordinates.more a)
     \<le> (hp_pid b, hp_task_id b, hp_start_time_ticks b, hp_start_boottime_ns b,
        HostProcessCoordinates.more b)"

definition less_HostProcessCoordinates_ext ::
    "'a HostProcessCoordinates_scheme \<Rightarrow> 'a HostProcessCoordinates_scheme \<Rightarrow> bool" where
  "less_HostProcessCoordinates_ext a b \<longleftrightarrow> a \<le> b \<and> \<not> b \<le> a"

instance
proof
  fix a b c :: "'a HostProcessCoordinates_scheme"
  show "a \<le> a" by (simp add: less_eq_HostProcessCoordinates_ext_def)
  show "a \<le> b \<Longrightarrow> b \<le> c \<Longrightarrow> a \<le> c"
    unfolding less_eq_HostProcessCoordinates_ext_def by (rule order.trans)
  show "a \<le> b \<Longrightarrow> b \<le> a \<Longrightarrow> a = b"
    unfolding less_eq_HostProcessCoordinates_ext_def
    by (drule (1) order.antisym) (cases a; cases b; simp)
  show "a \<le> b \<or> b \<le> a"
    unfolding less_eq_HostProcessCoordinates_ext_def by (rule linear)
qed (simp add: less_HostProcessCoordinates_ext_def)

end

instantiation NamespaceProcessCoordinates_ext :: (linorder) linorder
begin

definition less_eq_NamespaceProcessCoordinates_ext ::
    "'a NamespaceProcessCoordinates_scheme \<Rightarrow> 'a NamespaceProcessCoordinates_scheme \<Rightarrow> bool" where
  "less_eq_NamespaceProcessCoordinates_ext a b \<longleftrightarrow>
     (np_pid_namespace a, np_pid a, np_start_time_ticks a, NamespaceProcessCoordinates.more a)
     \<le> (np_pid_namespace b, np_pid b, np_start_time_ticks b, NamespaceProcessCoordinates.more b)"

definition less_NamespaceProcessCoordinates_ext ::
    "'a NamespaceProcessCoordinates_scheme \<Rightarrow> 'a NamespaceProcessCoordinates_scheme \<Rightarrow> bool" where
  "less_NamespaceProcessCoordinates_ext a b \<longleftrightarrow> a \<le> b \<and> \<not> b \<le> a"

instance
proof
  fix a b c :: "'a NamespaceProcessCoordinates_scheme"
  show "a \<le> a" by (simp add: less_eq_NamespaceProcessCoordinates_ext_def)
  show "a \<le> b \<Longrightarrow> b \<le> c \<Longrightarrow> a \<le> c"
    unfolding less_eq_NamespaceProcessCoordinates_ext_def by (rule order.trans)
  show "a \<le> b \<Longrightarrow> b \<le> a \<Longrightarrow> a = b"
    unfolding less_eq_NamespaceProcessCoordinates_ext_def
    by (drule (1) order.antisym) (cases a; cases b; simp)
  show "a \<le> b \<or> b \<le> a"
    unfolding less_eq_NamespaceProcessCoordinates_ext_def by (rule linear)
qed (simp add: less_NamespaceProcessCoordinates_ext_def)

end

instantiation ProcessObservation_ext :: (linorder) linorder
begin

definition less_eq_ProcessObservation_ext ::
    "'a ProcessObservation_scheme \<Rightarrow> 'a ProcessObservation_scheme \<Rightarrow> bool" where
  "less_eq_ProcessObservation_ext a b \<longleftrightarrow>
     (po_host a, po_namespace a, ProcessObservation.more a)
     \<le> (po_host b, po_namespace b, ProcessObservation.more b)"

definition less_ProcessObservation_ext ::
    "'a ProcessObservation_scheme \<Rightarrow> 'a ProcessObservation_scheme \<Rightarrow> bool" where
  "less_ProcessObservation_ext a b \<longleftrightarrow> a \<le> b \<and> \<not> b \<le> a"

instance
proof
  fix a b c :: "'a ProcessObservation_scheme"
  show "a \<le> a" by (simp add: less_eq_ProcessObservation_ext_def)
  show "a \<le> b \<Longrightarrow> b \<le> c \<Longrightarrow> a \<le> c"
    unfolding less_eq_ProcessObservation_ext_def by (rule order.trans)
  show "a \<le> b \<Longrightarrow> b \<le> a \<Longrightarrow> a = b"
    unfolding less_eq_ProcessObservation_ext_def
    by (drule (1) order.antisym) (cases a; cases b; simp)
  show "a \<le> b \<or> b \<le> a"
    unfolding less_eq_ProcessObservation_ext_def by (rule linear)
qed (simp add: less_ProcessObservation_ext_def)

end

datatype ProcessResolutionState = Provisional | Resolved | Conflicted

record ProcessRecord =
  pr_identity :: ProcessIdentity
  pr_host :: "HostProcessCoordinates option"
  pr_namespaces :: "NamespaceProcessCoordinates btree_set"
  pr_resolution_state :: ProcessResolutionState

text \<open>The contract's constructors.\<close>

definition host_coordinates_new :: "u32 \<Rightarrow> u64 \<Rightarrow> HostProcessCoordinates" where
  "host_coordinates_new pid ticks =
     \<lparr>hp_pid = pid, hp_task_id = None, hp_start_time_ticks = ticks, hp_start_boottime_ns = None\<rparr>"

definition with_task_id :: "HostProcessCoordinates \<Rightarrow> u32 \<Rightarrow> HostProcessCoordinates" where
  "with_task_id h task = h\<lparr>hp_task_id := Some task\<rparr>"

definition with_start_boottime_ns :: "HostProcessCoordinates \<Rightarrow> u64 \<Rightarrow> HostProcessCoordinates" where
  "with_start_boottime_ns h ns = h\<lparr>hp_start_boottime_ns := Some ns\<rparr>"

definition namespace_coordinates_new ::
    "NamespaceIdentity \<Rightarrow> u32 \<Rightarrow> u64 \<Rightarrow> NamespaceProcessCoordinates" where
  "namespace_coordinates_new ns pid ticks =
     \<lparr>np_pid_namespace = ns, np_pid = pid, np_start_time_ticks = ticks\<rparr>"

definition host_observation :: "HostProcessCoordinates \<Rightarrow> ProcessObservation" where
  "host_observation h = \<lparr>po_host = Some h, po_namespace = None\<rparr>"

definition namespace_observation :: "NamespaceProcessCoordinates \<Rightarrow> ProcessObservation" where
  "namespace_observation n = \<lparr>po_host = None, po_namespace = Some n\<rparr>"

definition with_namespace ::
    "ProcessObservation \<Rightarrow> NamespaceProcessCoordinates \<Rightarrow> ProcessObservation" where
  "with_namespace obs n = obs\<lparr>po_namespace := Some n\<rparr>"

definition process_record_new :: "ProcessIdentity \<Rightarrow> ProcessObservation \<Rightarrow> ProcessRecord" where
  "process_record_new identity obs =
     \<lparr>pr_identity = identity,
      pr_host = po_host obs,
      pr_namespaces = (case po_namespace obs of None \<Rightarrow> bm_empty | Some n \<Rightarrow> bs_insert n bm_empty),
      pr_resolution_state = (if po_host obs \<noteq> None then Resolved else Provisional)\<rparr>"

definition record_observation :: "ProcessRecord \<Rightarrow> ProcessObservation" where
  "record_observation r = \<lparr>po_host = pr_host r, po_namespace = bs_first (pr_namespaces r)\<rparr>"

section \<open>The manager\<close>

datatype ProcessIdentityError =
    IdOverflow
  | IdBlockExhausted
  | ConflictingObservations "ProcessIdentity list" ProcessObservation
  | HostCoordinatesConflict ProcessIdentity HostProcessCoordinates HostProcessCoordinates

record ProcessResolution =
  rs_identity :: ProcessIdentity
  rs_created :: bool
  rs_enriched :: bool
  rs_displaced_active :: "ProcessIdentity list"

record ProcessIdentityManager =
  next_identity :: u64
  identity_block_end :: u64
  id_records :: "(ProcessIdentity, ProcessRecord) btree_map"
  by_host_start_ticks :: "(u32 \<times> u64, ProcessIdentity) btree_map"
  by_host_start_boottime :: "(u32 \<times> u64, ProcessIdentity) btree_map"
  by_namespace :: "(NamespaceProcessCoordinates, ProcessIdentity) btree_map"
  active_by_host_pid :: "(u32, ProcessIdentity) btree_map"
  active_by_namespace_pid :: "(NamespaceIdentity \<times> u32, ProcessIdentity) btree_map"

definition manager_new :: "u64 \<Rightarrow> ProcessIdentityManager" where
  "manager_new first =
     \<lparr>next_identity = first, identity_block_end = - 1, id_records = bm_empty,
      by_host_start_ticks = bm_empty, by_host_start_boottime = bm_empty,
      by_namespace = bm_empty, active_by_host_pid = bm_empty,
      active_by_namespace_pid = bm_empty\<rparr>"

definition host_coordinates_match ::
    "HostProcessCoordinates \<Rightarrow> HostProcessCoordinates \<Rightarrow> bool" where
  "host_coordinates_match l r \<longleftrightarrow>
     hp_pid l = hp_pid r
     \<and> (hp_start_time_ticks l = 0 \<or> hp_start_time_ticks r = 0
        \<or> hp_start_time_ticks l = hp_start_time_ticks r)
     \<and> (case (hp_start_boottime_ns l, hp_start_boottime_ns r) of
          (Some a, Some b) \<Rightarrow> a = b
        | _ \<Rightarrow> True)"

definition namespace_coordinates_match ::
    "NamespaceProcessCoordinates \<Rightarrow> NamespaceProcessCoordinates \<Rightarrow> bool" where
  "namespace_coordinates_match l r \<longleftrightarrow>
     np_pid_namespace l = np_pid_namespace r
     \<and> np_pid l = np_pid r
     \<and> (np_start_time_ticks l = 0 \<or> np_start_time_ticks r = 0
        \<or> np_start_time_ticks l = np_start_time_ticks r)"

definition index_host_coordinates ::
    "ProcessIdentityManager \<Rightarrow> ProcessIdentity \<Rightarrow> HostProcessCoordinates \<Rightarrow> ProcessIdentityManager" where
  "index_host_coordinates m identity host =
     (let m1 = (if hp_start_time_ticks host \<noteq> 0
                then m\<lparr>by_host_start_ticks :=
                       bm_insert (hp_pid host, hp_start_time_ticks host) identity
                         (by_host_start_ticks m)\<rparr>
                else m)
      in case hp_start_boottime_ns host of
           None \<Rightarrow> m1
         | Some ns \<Rightarrow> m1\<lparr>by_host_start_boottime :=
                       bm_insert (hp_pid host, ns) identity (by_host_start_boottime m1)\<rparr>)"

definition index_namespace_coordinates ::
    "ProcessIdentityManager \<Rightarrow> ProcessIdentity \<Rightarrow> NamespaceProcessCoordinates \<Rightarrow> ProcessIdentityManager" where
  "index_namespace_coordinates m identity n =
     (if np_start_time_ticks n \<noteq> 0
      then m\<lparr>by_namespace := bm_insert n identity (by_namespace m)\<rparr>
      else m)"

definition index_record_coordinates ::
    "ProcessIdentityManager \<Rightarrow> ProcessRecord \<Rightarrow> ProcessIdentityManager" where
  "index_record_coordinates m r =
     (let m1 = (case pr_host r of
                  None \<Rightarrow> m
                | Some host \<Rightarrow> index_host_coordinates m (pr_identity r) host)
      in fold (\<lambda>n m. index_namespace_coordinates m (pr_identity r) n)
           (bs_to_list (pr_namespaces r)) m1)"

definition load_record ::
    "ProcessIdentityManager \<Rightarrow> ProcessRecord \<Rightarrow> ProcessIdentityManager \<times> (ProcessIdentityError + unit)" where
  "load_record m r =
     (let identity = pr_identity r
      in case bm_get (id_records m) identity of
           Some existing \<Rightarrow>
             if existing = r then (m, Ok ())
             else (m, Err (ConflictingObservations [identity]
                     \<lparr>po_host = pr_host r, po_namespace = bs_first (pr_namespaces r)\<rparr>))
         | None \<Rightarrow>
             let m1 = (case pr_host r of
                         None \<Rightarrow> m
                       | Some host \<Rightarrow> index_host_coordinates m identity host);
                 m2 = fold (\<lambda>n m. index_namespace_coordinates m identity n)
                        (bs_to_list (pr_namespaces r)) m1
             in (m2\<lparr>id_records := bm_insert identity r (id_records m2)\<rparr>, Ok ()))"

fun load_records ::
    "ProcessIdentityManager \<Rightarrow> ProcessRecord list \<Rightarrow> ProcessIdentityError + ProcessIdentityManager" where
  "load_records m [] = Ok m"
| "load_records m (r # rs) =
     (case load_record m r of
        (_, Inl e) \<Rightarrow> Err e
      | (m1, Inr _) \<Rightarrow> load_records m1 rs)"

definition with_reserved_block ::
    "u64 \<Rightarrow> u64 \<Rightarrow> ProcessRecord list \<Rightarrow> ProcessIdentityError + ProcessIdentityManager" where
  "with_reserved_block block_start block_end rs =
     (if block_start = 0 \<or> block_start \<ge> block_end then Err IdBlockExhausted
      else load_records
        \<lparr>next_identity = block_start, identity_block_end = block_end, id_records = bm_empty,
         by_host_start_ticks = bm_empty, by_host_start_boottime = bm_empty,
         by_namespace = bm_empty, active_by_host_pid = bm_empty,
         active_by_namespace_pid = bm_empty\<rparr> rs)"

definition install_reserved_block ::
    "ProcessIdentityManager \<Rightarrow> u64 \<Rightarrow> u64 \<Rightarrow> ProcessIdentityManager \<times> (ProcessIdentityError + unit)" where
  "install_reserved_block m block_start block_end =
     (if next_identity m \<noteq> identity_block_end m
         \<or> block_start \<noteq> identity_block_end m
         \<or> block_start \<ge> block_end
      then (m, Err IdBlockExhausted)
      else (m\<lparr>next_identity := block_start, identity_block_end := block_end\<rparr>, Ok ()))"

definition allocate_identity ::
    "ProcessIdentityManager \<Rightarrow> ProcessIdentityManager \<times> (ProcessIdentityError + ProcessIdentity)" where
  "allocate_identity m =
     (if next_identity m \<ge> identity_block_end m then (m, Err IdBlockExhausted)
      else case checked_add_u64 (next_identity m) 1 of
             None \<Rightarrow> (m, Err IdOverflow)
           | Some n \<Rightarrow> (m\<lparr>next_identity := n\<rparr>, Ok (next_identity m)))"

definition insert_candidate :: "ProcessIdentity option \<Rightarrow> ProcessIdentity btree_set \<Rightarrow> ProcessIdentity btree_set" where
  "insert_candidate c s = (case c of None \<Rightarrow> s | Some i \<Rightarrow> bs_insert i s)"

definition host_candidates ::
    "ProcessIdentityManager \<Rightarrow> HostProcessCoordinates \<Rightarrow> ProcessIdentity btree_set \<Rightarrow> ProcessIdentity btree_set" where
  "host_candidates m host s0 =
     (let s1 = (if hp_start_time_ticks host \<noteq> 0
                then insert_candidate
                       (bm_get (by_host_start_ticks m) (hp_pid host, hp_start_time_ticks host)) s0
                else s0);
          s2 = (case hp_start_boottime_ns host of
                  None \<Rightarrow> s1
                | Some ns \<Rightarrow> insert_candidate (bm_get (by_host_start_boottime m) (hp_pid host, ns)) s1)
      in case bm_get (active_by_host_pid m) (hp_pid host) of
           None \<Rightarrow> s2
         | Some i \<Rightarrow>
             (case Option.bind (bm_get (id_records m) i) pr_host of
                None \<Rightarrow> s2
              | Some existing \<Rightarrow>
                  if host_coordinates_match existing host then bs_insert i s2 else s2))"

definition namespace_candidates ::
    "ProcessIdentityManager \<Rightarrow> NamespaceProcessCoordinates \<Rightarrow> ProcessIdentity btree_set \<Rightarrow> ProcessIdentity btree_set" where
  "namespace_candidates m n s0 =
     (let s1 = (if np_start_time_ticks n \<noteq> 0
                then insert_candidate (bm_get (by_namespace m) n) s0
                else s0)
      in case bm_get (active_by_namespace_pid m) (np_pid_namespace n, np_pid n) of
           None \<Rightarrow> s1
         | Some i \<Rightarrow>
             (case bm_get (id_records m) i of
                None \<Rightarrow> s1
              | Some r \<Rightarrow>
                  if list_ex (\<lambda>existing. namespace_coordinates_match existing n)
                       (bs_to_list (pr_namespaces r))
                  then bs_insert i s1 else s1))"

definition candidates ::
    "ProcessIdentityManager \<Rightarrow> ProcessObservation \<Rightarrow> ProcessIdentity btree_set" where
  "candidates m obs =
     (let s1 = (case po_host obs of None \<Rightarrow> bm_empty | Some host \<Rightarrow> host_candidates m host bm_empty)
      in case po_namespace obs of None \<Rightarrow> s1 | Some n \<Rightarrow> namespace_candidates m n s1)"

text \<open>The coordinates an observation adds to a record that already has host coordinates.\<close>

definition enrich_host ::
    "HostProcessCoordinates \<Rightarrow> HostProcessCoordinates \<Rightarrow> HostProcessCoordinates \<times> bool" where
  "enrich_host existing observed =
     (let (e1, c1) = (if hp_start_time_ticks existing = 0 \<and> hp_start_time_ticks observed \<noteq> 0
                      then (existing\<lparr>hp_start_time_ticks := hp_start_time_ticks observed\<rparr>, True)
                      else (existing, False));
          (e2, c2) = (if hp_start_boottime_ns e1 = None \<and> hp_start_boottime_ns observed \<noteq> None
                      then (e1\<lparr>hp_start_boottime_ns := hp_start_boottime_ns observed\<rparr>, True)
                      else (e1, c1));
          (e3, c3) = (if hp_task_id e2 = None \<and> hp_task_id observed \<noteq> None
                      then (e2\<lparr>hp_task_id := hp_task_id observed\<rparr>, True)
                      else (e2, c2))
      in (e3, c3))"

definition enrich_record_host ::
    "ProcessIdentity \<Rightarrow> ProcessRecord \<Rightarrow> ProcessObservation
      \<Rightarrow> ProcessIdentityError + ProcessRecord \<times> bool" where
  "enrich_record_host identity r obs =
     (case po_host obs of
        None \<Rightarrow> Ok (r, False)
      | Some observed \<Rightarrow>
          (case pr_host r of
             Some existing \<Rightarrow>
               if \<not> host_coordinates_match existing observed
               then Err (HostCoordinatesConflict identity existing observed)
               else (case enrich_host existing observed of
                       (existing', c) \<Rightarrow> Ok (r\<lparr>pr_host := Some existing'\<rparr>, c))
           | None \<Rightarrow> Ok (r\<lparr>pr_host := Some observed\<rparr>, True)))"

definition enrich_record_namespace ::
    "ProcessRecord \<Rightarrow> bool \<Rightarrow> ProcessObservation \<Rightarrow> ProcessRecord \<times> bool" where
  "enrich_record_namespace r enriched obs =
     (case po_namespace obs of
        None \<Rightarrow> (r, enriched)
      | Some n \<Rightarrow>
          if bs_contains (pr_namespaces r) n then (r, enriched)
          else (r\<lparr>pr_namespaces := bs_insert n (pr_namespaces r)\<rparr>, True))"

text \<open>
  \<open>enrich\<close> panics when the resolved identity has no record (\<open>expect\<close>): the
  result is then \<open>None\<close>.
\<close>

definition enrich ::
    "ProcessIdentityManager \<Rightarrow> ProcessIdentity \<Rightarrow> ProcessObservation
      \<Rightarrow> (ProcessIdentityManager \<times> (ProcessIdentityError + bool)) option" where
  "enrich m identity obs =
     (case bm_get (id_records m) identity of
        None \<Rightarrow> None
      | Some r \<Rightarrow>
          (case enrich_record_host identity r obs of
             Inl e \<Rightarrow>
               Some (m\<lparr>id_records := bm_insert identity (r\<lparr>pr_resolution_state := Conflicted\<rparr>)
                          (id_records m)\<rparr>, Err e)
           | Inr (r1, enriched1) \<Rightarrow>
               (let (r2, enriched) = enrich_record_namespace r1 enriched1 obs;
                    r3 = (if pr_host r2 \<noteq> None then r2\<lparr>pr_resolution_state := Resolved\<rparr> else r2);
                    m1 = m\<lparr>id_records := bm_insert identity r3 (id_records m)\<rparr>
                in Some (if enriched then index_record_coordinates m1 r3 else m1, Ok enriched))))"

definition index_observation ::
    "ProcessIdentityManager \<Rightarrow> ProcessIdentity \<Rightarrow> ProcessObservation
      \<Rightarrow> ProcessIdentityManager \<times> ProcessIdentity list" where
  "index_observation m identity obs =
     (let (m1, d1) = (case po_host obs of
            None \<Rightarrow> (m, bm_empty)
          | Some host \<Rightarrow>
              (let m' = index_host_coordinates m identity host;
                   previous = bm_get (active_by_host_pid m') (hp_pid host);
                   m'' = m'\<lparr>active_by_host_pid :=
                            bm_insert (hp_pid host) identity (active_by_host_pid m')\<rparr>
               in (m'', (case previous of
                           None \<Rightarrow> bm_empty
                         | Some p \<Rightarrow> if p \<noteq> identity then bs_insert p bm_empty else bm_empty))));
          (m2, d2) = (case po_namespace obs of
            None \<Rightarrow> (m1, d1)
          | Some n \<Rightarrow>
              (let m' = index_namespace_coordinates m1 identity n;
                   key = (np_pid_namespace n, np_pid n);
                   previous = bm_get (active_by_namespace_pid m') key;
                   m'' = m'\<lparr>active_by_namespace_pid :=
                            bm_insert key identity (active_by_namespace_pid m')\<rparr>
               in (m'', (case previous of
                           None \<Rightarrow> d1
                         | Some p \<Rightarrow> if p \<noteq> identity then bs_insert p d1 else d1))))
      in (m2, bs_to_list d2))"

definition resolve_or_create ::
    "ProcessIdentityManager \<Rightarrow> ProcessObservation
      \<Rightarrow> (ProcessIdentityManager \<times> (ProcessIdentityError + ProcessResolution)) option" where
  "resolve_or_create m obs =
     (let cands = candidates m obs
      in if bs_len cands > 1
         then Some (m, Err (ConflictingObservations (bs_to_list cands) obs))
         else case bs_first cands of
           Some identity \<Rightarrow>
             (case enrich m identity obs of
                None \<Rightarrow> None
              | Some (m1, Inl e) \<Rightarrow> Some (m1, Err e)
              | Some (m1, Inr enriched) \<Rightarrow>
                  (let (m2, displaced) = index_observation m1 identity obs
                   in Some (m2, Ok \<lparr>rs_identity = identity, rs_created = False,
                                     rs_enriched = enriched, rs_displaced_active = displaced\<rparr>)))
         | None \<Rightarrow>
             (case allocate_identity m of
                (m1, Inl e) \<Rightarrow> Some (m1, Err e)
              | (m1, Inr identity) \<Rightarrow>
                  (let m2 = m1\<lparr>id_records :=
                          bm_insert identity (process_record_new identity obs) (id_records m1)\<rparr>;
                       (m3, displaced) = index_observation m2 identity obs
                   in Some (m3, Ok \<lparr>rs_identity = identity, rs_created = True,
                                     rs_enriched = False, rs_displaced_active = displaced\<rparr>))))"

definition lookup_observation ::
    "ProcessIdentityManager \<Rightarrow> ProcessObservation \<Rightarrow> ProcessIdentityError + ProcessIdentity option" where
  "lookup_observation m obs =
     (let cands = candidates m obs
      in if bs_len cands > 1 then Err (ConflictingObservations (bs_to_list cands) obs)
         else Ok (bs_first cands))"

definition record_of :: "ProcessIdentityManager \<Rightarrow> ProcessIdentity \<Rightarrow> ProcessRecord option" where
  "record_of m identity = bm_get (id_records m) identity"

definition active_host_pid :: "ProcessIdentityManager \<Rightarrow> u32 \<Rightarrow> ProcessIdentity option" where
  "active_host_pid m pid = bm_get (active_by_host_pid m) pid"

definition active_namespace_pid ::
    "ProcessIdentityManager \<Rightarrow> NamespaceIdentity \<Rightarrow> u32 \<Rightarrow> ProcessIdentity option" where
  "active_namespace_pid m ns pid = bm_get (active_by_namespace_pid m) (ns, pid)"

definition exit_namespace ::
    "ProcessIdentity \<Rightarrow> NamespaceProcessCoordinates \<Rightarrow> ProcessIdentityManager \<Rightarrow> ProcessIdentityManager" where
  "exit_namespace identity n m =
     (let key = (np_pid_namespace n, np_pid n)
      in if bm_get (active_by_namespace_pid m) key = Some identity
         then m\<lparr>active_by_namespace_pid := bm_remove key (active_by_namespace_pid m)\<rparr>
         else m)"

definition mark_identity_exited ::
    "ProcessIdentityManager \<Rightarrow> ProcessIdentity \<Rightarrow> ProcessIdentityManager" where
  "mark_identity_exited m identity =
     (case bm_get (id_records m) identity of
        None \<Rightarrow> m
      | Some r \<Rightarrow>
          (let m1 = (case pr_host r of
                 None \<Rightarrow> m
               | Some host \<Rightarrow>
                   if bm_get (active_by_host_pid m) (hp_pid host) = Some identity
                   then m\<lparr>active_by_host_pid := bm_remove (hp_pid host) (active_by_host_pid m)\<rparr>
                   else m)
           in fold (exit_namespace identity) (bs_to_list (pr_namespaces r)) m1))"

section \<open>Exact and sound indexes\<close>

text \<open>
  An index is exact when it maps a coordinate to an identity precisely when the record of
  that identity has the coordinate; it is sound when every entry is backed by a record.
  Exactness makes a coordinate belong to one record at most.
\<close>

definition index_exact ::
    "('k::linorder, 'i) btree_map \<Rightarrow> ('r \<Rightarrow> 'k set) \<Rightarrow> ('i::linorder, 'r) btree_map \<Rightarrow> bool" where
  "index_exact ix coords recs \<longleftrightarrow>
     (\<forall>k j. bm_get ix k = Some j \<longleftrightarrow> (\<exists>r. bm_get recs j = Some r \<and> k \<in> coords r))"

definition index_sound ::
    "('k::linorder, 'i) btree_map \<Rightarrow> ('r \<Rightarrow> 'k set) \<Rightarrow> ('i::linorder, 'r) btree_map \<Rightarrow> bool" where
  "index_sound ix coords recs \<longleftrightarrow>
     (\<forall>k j. bm_get ix k = Some j \<longrightarrow> (\<exists>r. bm_get recs j = Some r \<and> k \<in> coords r))"

lemma index_exactD:
  "index_exact ix coords recs \<Longrightarrow> bm_get ix k = Some j
     \<Longrightarrow> \<exists>r. bm_get recs j = Some r \<and> k \<in> coords r"
  by (simp add: index_exact_def)

lemma index_exactI:
  "index_exact ix coords recs \<Longrightarrow> bm_get recs j = Some r \<Longrightarrow> k \<in> coords r
     \<Longrightarrow> bm_get ix k = Some j"
  by (auto simp: index_exact_def)

lemma index_soundD:
  "index_sound ix coords recs \<Longrightarrow> bm_get ix k = Some j
     \<Longrightarrow> \<exists>r. bm_get recs j = Some r \<and> k \<in> coords r"
  by (simp add: index_sound_def)

lemma index_exact_empty [simp]: "index_exact bm_empty coords bm_empty"
  by (simp add: index_exact_def)

lemma index_sound_empty [simp]: "index_sound bm_empty coords recs"
  by (simp add: index_sound_def)

lemma index_exact_update:
  assumes "index_exact ix coords recs"
    and "\<And>k. bm_get ix' k = (if k \<in> coords r' then Some i else bm_get ix k)"
    and "\<And>r. bm_get recs i = Some r \<Longrightarrow> coords r \<subseteq> coords r'"
    and "\<And>k j. k \<in> coords r' \<Longrightarrow> bm_get ix k = Some j \<Longrightarrow> j = i"
  shows "index_exact ix' coords (bm_insert i r' recs)"
  unfolding index_exact_def
proof (intro allI)
  fix k j
  have old: "bm_get ix k = Some j \<longleftrightarrow> (\<exists>r. bm_get recs j = Some r \<and> k \<in> coords r)"
    using assms(1) by (simp add: index_exact_def)
  show "bm_get ix' k = Some j
    \<longleftrightarrow> (\<exists>r. bm_get (bm_insert i r' recs) j = Some r \<and> k \<in> coords r)"
  proof (cases "j = i")
    case True
    then show ?thesis using old assms(2,3) by auto
  next
    case False
    then show ?thesis using old assms(2,4) by auto
  qed
qed

lemma index_exact_same_coords:
  assumes "index_exact ix coords recs" and "bm_get recs i = Some r" and "coords r' = coords r"
  shows "index_exact ix coords (bm_insert i r' recs)"
  using assms by (auto simp: index_exact_def)

lemma index_sound_same_coords:
  assumes "index_sound ix coords recs" and "bm_get recs i = Some r" and "coords r' = coords r"
  shows "index_sound ix coords (bm_insert i r' recs)"
  using assms by (fastforce simp: index_sound_def)

lemma index_sound_update:
  assumes "index_sound ix coords recs"
    and "\<And>k j. bm_get ix' k = Some j \<Longrightarrow> j = i \<and> k \<in> coords r' \<or> bm_get ix k = Some j"
    and "\<And>r. bm_get recs i = Some r \<Longrightarrow> coords r \<subseteq> coords r'"
  shows "index_sound ix' coords (bm_insert i r' recs)"
  unfolding index_sound_def
proof (intro allI impI)
  fix k j
  assume "bm_get ix' k = Some j"
  then consider "j = i" "k \<in> coords r'" | "bm_get ix k = Some j" using assms(2) by blast
  then show "\<exists>r. bm_get (bm_insert i r' recs) j = Some r \<and> k \<in> coords r"
  proof cases
    case 2
    with assms(1) obtain r where "bm_get recs j = Some r" "k \<in> coords r"
      using index_soundD by blast
    with assms(3) show ?thesis by auto
  qed simp
qed

lemma index_exact_unique:
  assumes "index_exact ix coords recs"
    and "bm_get recs i = Some r" and "bm_get recs j = Some r'"
    and "k \<in> coords r" and "k \<in> coords r'"
  shows "i = j"
  using index_exactI [OF assms(1,2,4)] index_exactI [OF assms(1,3,5)] by simp

section \<open>The invariant of the manager\<close>

definition ticks_coords :: "ProcessRecord \<Rightarrow> (u32 \<times> u64) set" where
  "ticks_coords r = {(hp_pid h, hp_start_time_ticks h) |h.
     pr_host r = Some h \<and> hp_start_time_ticks h \<noteq> 0}"

definition boottime_coords :: "ProcessRecord \<Rightarrow> (u32 \<times> u64) set" where
  "boottime_coords r = {(hp_pid h, ns) |h ns.
     pr_host r = Some h \<and> hp_start_boottime_ns h = Some ns}"

definition namespace_coords :: "ProcessRecord \<Rightarrow> NamespaceProcessCoordinates set" where
  "namespace_coords r = {n. bs_contains (pr_namespaces r) n \<and> np_start_time_ticks n \<noteq> 0}"

definition host_pid_coords :: "ProcessRecord \<Rightarrow> u32 set" where
  "host_pid_coords r = {hp_pid h |h. pr_host r = Some h}"

definition namespace_pid_coords :: "ProcessRecord \<Rightarrow> (NamespaceIdentity \<times> u32) set" where
  "namespace_pid_coords r =
     {(np_pid_namespace n, np_pid n) |n. bs_contains (pr_namespaces r) n}"

lemmas coords_defs = ticks_coords_def boottime_coords_def namespace_coords_def
  host_pid_coords_def namespace_pid_coords_def

definition allocation_ok :: "ProcessIdentityManager \<Rightarrow> bool" where
  "allocation_ok m \<longleftrightarrow>
     next_identity m \<le> identity_block_end m
     \<and> (\<forall>i r. bm_get (id_records m) i = Some r \<longrightarrow> pr_identity r = i \<and> i < next_identity m)"

definition manager_inv :: "ProcessIdentityManager \<Rightarrow> bool" where
  "manager_inv m \<longleftrightarrow>
     allocation_ok m
     \<and> index_exact (by_host_start_ticks m) ticks_coords (id_records m)
     \<and> index_exact (by_host_start_boottime m) boottime_coords (id_records m)
     \<and> index_exact (by_namespace m) namespace_coords (id_records m)
     \<and> index_sound (active_by_host_pid m) host_pid_coords (id_records m)
     \<and> index_sound (active_by_namespace_pid m) namespace_pid_coords (id_records m)"

lemma manager_invD:
  assumes "manager_inv m"
  shows "allocation_ok m"
    and "index_exact (by_host_start_ticks m) ticks_coords (id_records m)"
    and "index_exact (by_host_start_boottime m) boottime_coords (id_records m)"
    and "index_exact (by_namespace m) namespace_coords (id_records m)"
    and "index_sound (active_by_host_pid m) host_pid_coords (id_records m)"
    and "index_sound (active_by_namespace_pid m) namespace_pid_coords (id_records m)"
  using assms by (simp_all add: manager_inv_def)

lemma manager_inv_new: "manager_inv (manager_new first)"
  by (simp add: manager_inv_def manager_new_def allocation_ok_def)

subsection \<open>What each indexing step writes\<close>

lemma index_host_coordinates_frame [simp]:
  "next_identity (index_host_coordinates m i h) = next_identity m"
  "identity_block_end (index_host_coordinates m i h) = identity_block_end m"
  "id_records (index_host_coordinates m i h) = id_records m"
  "by_namespace (index_host_coordinates m i h) = by_namespace m"
  "active_by_host_pid (index_host_coordinates m i h) = active_by_host_pid m"
  "active_by_namespace_pid (index_host_coordinates m i h) = active_by_namespace_pid m"
  by (simp_all add: index_host_coordinates_def Let_def split: option.splits)

lemma index_host_coordinates_ticks [simp]:
  "bm_get (by_host_start_ticks (index_host_coordinates m i h)) k =
     (if hp_start_time_ticks h \<noteq> 0 \<and> k = (hp_pid h, hp_start_time_ticks h) then Some i
      else bm_get (by_host_start_ticks m) k)"
  by (auto simp: index_host_coordinates_def Let_def split: option.splits)

lemma index_host_coordinates_boottime [simp]:
  "bm_get (by_host_start_boottime (index_host_coordinates m i h)) k =
     (if fst k = hp_pid h \<and> hp_start_boottime_ns h = Some (snd k) then Some i
      else bm_get (by_host_start_boottime m) k)"
  by (cases k) (auto simp: index_host_coordinates_def Let_def split: option.splits)

lemma index_namespace_coordinates_frame [simp]:
  "next_identity (index_namespace_coordinates m i n) = next_identity m"
  "identity_block_end (index_namespace_coordinates m i n) = identity_block_end m"
  "id_records (index_namespace_coordinates m i n) = id_records m"
  "by_host_start_ticks (index_namespace_coordinates m i n) = by_host_start_ticks m"
  "by_host_start_boottime (index_namespace_coordinates m i n) = by_host_start_boottime m"
  "active_by_host_pid (index_namespace_coordinates m i n) = active_by_host_pid m"
  "active_by_namespace_pid (index_namespace_coordinates m i n) = active_by_namespace_pid m"
  by (simp_all add: index_namespace_coordinates_def)

lemma index_namespace_coordinates_get [simp]:
  "bm_get (by_namespace (index_namespace_coordinates m i n)) k =
     (if np_start_time_ticks n \<noteq> 0 \<and> k = n then Some i else bm_get (by_namespace m) k)"
  by (simp add: index_namespace_coordinates_def)

lemma fold_index_namespace_frame [simp]:
  "next_identity (fold (\<lambda>n m. index_namespace_coordinates m i n) ns m) = next_identity m"
  "identity_block_end (fold (\<lambda>n m. index_namespace_coordinates m i n) ns m) = identity_block_end m"
  "id_records (fold (\<lambda>n m. index_namespace_coordinates m i n) ns m) = id_records m"
  "by_host_start_ticks (fold (\<lambda>n m. index_namespace_coordinates m i n) ns m) = by_host_start_ticks m"
  "by_host_start_boottime (fold (\<lambda>n m. index_namespace_coordinates m i n) ns m)
     = by_host_start_boottime m"
  "active_by_host_pid (fold (\<lambda>n m. index_namespace_coordinates m i n) ns m) = active_by_host_pid m"
  "active_by_namespace_pid (fold (\<lambda>n m. index_namespace_coordinates m i n) ns m)
     = active_by_namespace_pid m"
  by (induction ns arbitrary: m) simp_all

lemma fold_index_namespace_get [simp]:
  "bm_get (by_namespace (fold (\<lambda>n m. index_namespace_coordinates m i n) ns m)) k =
     (if k \<in> set ns \<and> np_start_time_ticks k \<noteq> 0 then Some i else bm_get (by_namespace m) k)"
  by (induction ns arbitrary: m) auto

subsection \<open>Candidates\<close>

lemma bs_contains_insert_candidate [simp]:
  "bs_contains (insert_candidate c s) j \<longleftrightarrow> c = Some j \<or> bs_contains s j"
  by (auto simp: insert_candidate_def split: option.splits)

lemma host_candidates_iff:
  "bs_contains (host_candidates m h s) j \<longleftrightarrow>
     bs_contains s j
     \<or> (hp_start_time_ticks h \<noteq> 0
         \<and> bm_get (by_host_start_ticks m) (hp_pid h, hp_start_time_ticks h) = Some j)
     \<or> (\<exists>ns. hp_start_boottime_ns h = Some ns
         \<and> bm_get (by_host_start_boottime m) (hp_pid h, ns) = Some j)
     \<or> (bm_get (active_by_host_pid m) (hp_pid h) = Some j
         \<and> (\<exists>r e. bm_get (id_records m) j = Some r \<and> pr_host r = Some e
               \<and> host_coordinates_match e h))"
  by (auto simp: host_candidates_def Let_def bind_eq_Some_conv split: option.splits if_splits)

lemma namespace_candidates_iff:
  "bs_contains (namespace_candidates m n s) j \<longleftrightarrow>
     bs_contains s j
     \<or> (np_start_time_ticks n \<noteq> 0 \<and> bm_get (by_namespace m) n = Some j)
     \<or> (bm_get (active_by_namespace_pid m) (np_pid_namespace n, np_pid n) = Some j
         \<and> (\<exists>r e. bm_get (id_records m) j = Some r \<and> bs_contains (pr_namespaces r) e
               \<and> namespace_coordinates_match e n))"
  by (auto simp: namespace_candidates_def Let_def list_ex_iff split: option.splits if_splits)

lemma candidates_iff:
  "bs_contains (candidates m obs) j \<longleftrightarrow>
     (\<exists>h. po_host obs = Some h \<and> bs_contains (host_candidates m h bm_empty) j)
     \<or> (\<exists>n. po_namespace obs = Some n \<and> bs_contains (namespace_candidates m n bm_empty) j)"
  by (auto simp: candidates_def Let_def namespace_candidates_iff split: option.splits)

lemma candidates_host_ticks:
  "po_host obs = Some h \<Longrightarrow> hp_start_time_ticks h \<noteq> 0
     \<Longrightarrow> bm_get (by_host_start_ticks m) (hp_pid h, hp_start_time_ticks h) = Some j
     \<Longrightarrow> bs_contains (candidates m obs) j"
  by (simp add: candidates_iff host_candidates_iff)

lemma candidates_host_boottime:
  "po_host obs = Some h \<Longrightarrow> hp_start_boottime_ns h = Some ns
     \<Longrightarrow> bm_get (by_host_start_boottime m) (hp_pid h, ns) = Some j
     \<Longrightarrow> bs_contains (candidates m obs) j"
  by (simp add: candidates_iff host_candidates_iff)

lemma candidates_namespace:
  "po_namespace obs = Some n \<Longrightarrow> np_start_time_ticks n \<noteq> 0
     \<Longrightarrow> bm_get (by_namespace m) n = Some j \<Longrightarrow> bs_contains (candidates m obs) j"
  by (simp add: candidates_iff namespace_candidates_iff)

lemma candidates_recorded:
  assumes "manager_inv m" and "bs_contains (candidates m obs) j"
  shows "bm_get (id_records m) j \<noteq> None"
  using assms(2) manager_invD [OF assms(1)]
  by (auto simp: candidates_iff host_candidates_iff namespace_candidates_iff
      dest: index_exactD index_soundD)

subsection \<open>What a resolution writes\<close>

text \<open>A record covers an observation when it agrees with every coordinate observed.\<close>

definition host_covers :: "HostProcessCoordinates \<Rightarrow> HostProcessCoordinates \<Rightarrow> bool" where
  "host_covers e h \<longleftrightarrow>
     hp_pid e = hp_pid h
     \<and> (hp_start_time_ticks h \<noteq> 0 \<longrightarrow> hp_start_time_ticks e = hp_start_time_ticks h)
     \<and> (hp_start_boottime_ns h \<noteq> None \<longrightarrow> hp_start_boottime_ns e = hp_start_boottime_ns h)
     \<and> (hp_task_id h \<noteq> None \<longrightarrow> hp_task_id e \<noteq> None)"

definition record_covers :: "ProcessRecord \<Rightarrow> ProcessObservation \<Rightarrow> bool" where
  "record_covers r obs \<longleftrightarrow>
     (\<forall>h. po_host obs = Some h \<longrightarrow> (\<exists>e. pr_host r = Some e \<and> host_covers e h))
     \<and> (\<forall>n. po_namespace obs = Some n \<longrightarrow> bs_contains (pr_namespaces r) n)"

text \<open>A record extends another when it keeps all coordinates the other has.\<close>

definition record_extends :: "ProcessRecord \<Rightarrow> ProcessRecord \<Rightarrow> bool" where
  "record_extends r r' \<longleftrightarrow>
     pr_identity r' = pr_identity r
     \<and> (\<forall>h. pr_host r = Some h \<longrightarrow> (\<exists>h'. pr_host r' = Some h' \<and> host_covers h' h
            \<and> (hp_task_id h \<noteq> None \<longrightarrow> hp_task_id h' = hp_task_id h)))
     \<and> (\<forall>n. bs_contains (pr_namespaces r) n \<longrightarrow> bs_contains (pr_namespaces r') n)"

lemma host_covers_refl [simp]: "host_covers h h"
  by (simp add: host_covers_def)

lemma host_covers_match: "host_covers e h \<Longrightarrow> host_coordinates_match e h"
  by (auto simp: host_covers_def host_coordinates_match_def split: option.splits)

lemma record_extends_refl [simp]: "record_extends r r"
  by (simp add: record_extends_def)

lemma record_extends_trans: "record_extends a b \<Longrightarrow> record_extends b c \<Longrightarrow> record_extends a c"
  unfolding record_extends_def host_covers_def by fastforce

lemma record_extends_coords:
  assumes "record_extends r r'"
  shows "ticks_coords r \<subseteq> ticks_coords r'"
    and "boottime_coords r \<subseteq> boottime_coords r'"
    and "namespace_coords r \<subseteq> namespace_coords r'"
    and "host_pid_coords r \<subseteq> host_pid_coords r'"
    and "namespace_pid_coords r \<subseteq> namespace_pid_coords r'"
  using assms by (fastforce simp: record_extends_def host_covers_def coords_defs)+

lemma enrich_host_spec:
  assumes "enrich_host e h = (e', c)" and "host_coordinates_match e h"
  shows "host_covers e' h" and "host_covers e' e"
    and "hp_task_id e \<noteq> None \<longrightarrow> hp_task_id e' = hp_task_id e"
    and "\<not> c \<longrightarrow> e' = e"
    and "hp_start_time_ticks e' \<in> {hp_start_time_ticks e, hp_start_time_ticks h}"
    and "hp_start_boottime_ns e' \<in> {hp_start_boottime_ns e, hp_start_boottime_ns h}"
  using assms
  by (auto simp: enrich_host_def host_coordinates_match_def host_covers_def Let_def
      split: if_splits option.splits)

text \<open>Coordinates that a resolved record has come from the old record or from the observation.\<close>

definition coords_from :: "ProcessRecord option \<Rightarrow> ProcessObservation \<Rightarrow> ProcessRecord \<Rightarrow> bool" where
  "coords_from old obs r' \<longleftrightarrow>
     (\<forall>k\<in>ticks_coords r'. (\<exists>r. old = Some r \<and> k \<in> ticks_coords r)
        \<or> (\<exists>h. po_host obs = Some h \<and> k = (hp_pid h, hp_start_time_ticks h)))
     \<and> (\<forall>k\<in>boottime_coords r'. (\<exists>r. old = Some r \<and> k \<in> boottime_coords r)
        \<or> (\<exists>h ns. po_host obs = Some h \<and> hp_start_boottime_ns h = Some ns \<and> k = (hp_pid h, ns)))
     \<and> (\<forall>k\<in>namespace_coords r'. (\<exists>r. old = Some r \<and> k \<in> namespace_coords r)
        \<or> po_namespace obs = Some k)"

lemma enrich_record_host_spec:
  assumes "enrich_record_host i r obs = Inr (r1, c)"
  shows "record_extends r r1" and "pr_namespaces r1 = pr_namespaces r"
    and "\<not> c \<longrightarrow> pr_host r1 = pr_host r"
    and "\<forall>h. po_host obs = Some h \<longrightarrow> (\<exists>e. pr_host r1 = Some e \<and> host_covers e h)"
    and "coords_from (Some r) obs r1"
proof -
  have "record_extends r r1 \<and> pr_namespaces r1 = pr_namespaces r
      \<and> (\<not> c \<longrightarrow> pr_host r1 = pr_host r)
      \<and> (\<forall>h. po_host obs = Some h \<longrightarrow> (\<exists>e. pr_host r1 = Some e \<and> host_covers e h))
      \<and> coords_from (Some r) obs r1"
  proof (cases "po_host obs = None \<or> pr_host r = None")
    case True
    with assms show ?thesis
      by (auto simp: enrich_record_host_def record_extends_def coords_from_def coords_defs
          split: option.splits)
  next
    case False
    then obtain h e where h: "po_host obs = Some h" and e: "pr_host r = Some e" by auto
    from assms h e have match: "host_coordinates_match e h"
      by (auto simp: enrich_record_host_def split: if_splits)
    obtain e' where e': "enrich_host e h = (e', c)" and r1: "r1 = r\<lparr>pr_host := Some e'\<rparr>"
      using assms h e match by (auto simp: enrich_record_host_def split: prod.splits)
    note spec = enrich_host_spec [OF e' match]
    have "coords_from (Some r) obs r1"
      using spec(1,2,5,6) h e r1
      by (auto simp: coords_from_def coords_defs host_covers_def)
    with spec h e r1 show ?thesis
      by (auto simp: record_extends_def)
  qed
  then show "record_extends r r1" and "pr_namespaces r1 = pr_namespaces r"
    and "\<not> c \<longrightarrow> pr_host r1 = pr_host r"
    and "\<forall>h. po_host obs = Some h \<longrightarrow> (\<exists>e. pr_host r1 = Some e \<and> host_covers e h)"
    and "coords_from (Some r) obs r1"
    by blast+
qed

lemma enrich_record_namespace_spec:
  assumes "enrich_record_namespace r1 c1 obs = (r2, c)"
  shows "pr_identity r2 = pr_identity r1" and "pr_host r2 = pr_host r1"
    and "bs_contains (pr_namespaces r2) n
      \<longleftrightarrow> bs_contains (pr_namespaces r1) n \<or> po_namespace obs = Some n"
    and "\<not> c \<longrightarrow> \<not> c1 \<and> pr_namespaces r2 = pr_namespaces r1"
  using assms by (auto simp: enrich_record_namespace_def split: option.splits if_splits)

lemma enrich_Ok:
  assumes "enrich m i obs = Some (m1, Inr c)"
  obtains r r' where "bm_get (id_records m) i = Some r"
    and "record_extends r r'" and "record_covers r' obs" and "coords_from (Some r) obs r'"
    and "\<not> c \<longrightarrow> pr_host r' = pr_host r \<and> pr_namespaces r' = pr_namespaces r"
    and "pr_host r' \<noteq> None \<longrightarrow> pr_resolution_state r' = Resolved"
    and "m1 = (let m0 = m\<lparr>id_records := bm_insert i r' (id_records m)\<rparr>
               in if c then index_record_coordinates m0 r' else m0)"
proof -
  from assms obtain r r1 c1 r2 where r: "bm_get (id_records m) i = Some r"
    and r1: "enrich_record_host i r obs = Inr (r1, c1)"
    and r2: "enrich_record_namespace r1 c1 obs = (r2, c)"
    and m1: "m1 = (let r3 = (if pr_host r2 \<noteq> None then r2\<lparr>pr_resolution_state := Resolved\<rparr> else r2);
                       m0 = m\<lparr>id_records := bm_insert i r3 (id_records m)\<rparr>
                   in if c then index_record_coordinates m0 r3 else m0)"
    by (auto simp: enrich_def Let_def split: option.splits sum.splits prod.splits)
  let ?r' = "if pr_host r2 \<noteq> None then r2\<lparr>pr_resolution_state := Resolved\<rparr> else r2"
  note s1 = enrich_record_host_spec [OF r1]
  note s2 = enrich_record_namespace_spec [OF r2]
  have "record_extends r ?r'"
    using s1(1) s2(1,2,3) by (auto simp: record_extends_def)
  moreover have "record_covers ?r' obs"
    using s1(4) s2(2,3) by (auto simp: record_covers_def)
  moreover have "coords_from (Some r) obs ?r'"
    using s1(2,5) s2(2,3) by (auto simp: coords_from_def coords_defs)
  moreover have "\<not> c \<longrightarrow> pr_host ?r' = pr_host r \<and> pr_namespaces ?r' = pr_namespaces r"
    using s1(2,3) s2(2,4) by auto
  moreover have "pr_host ?r' \<noteq> None \<longrightarrow> pr_resolution_state ?r' = Resolved" by simp
  ultimately show ?thesis
    using that [OF r] m1 by (simp add: Let_def)
qed

lemma index_record_coordinates_frame [simp]:
  "next_identity (index_record_coordinates m r) = next_identity m"
  "identity_block_end (index_record_coordinates m r) = identity_block_end m"
  "id_records (index_record_coordinates m r) = id_records m"
  "active_by_host_pid (index_record_coordinates m r) = active_by_host_pid m"
  "active_by_namespace_pid (index_record_coordinates m r) = active_by_namespace_pid m"
  by (simp_all add: index_record_coordinates_def split: option.splits)

lemma index_record_coordinates_get:
  "bm_get (by_host_start_ticks (index_record_coordinates m r)) k1 =
     (if k1 \<in> ticks_coords r then Some (pr_identity r) else bm_get (by_host_start_ticks m) k1)"
  "bm_get (by_host_start_boottime (index_record_coordinates m r)) k2 =
     (if k2 \<in> boottime_coords r then Some (pr_identity r) else bm_get (by_host_start_boottime m) k2)"
  "bm_get (by_namespace (index_record_coordinates m r)) k3 =
     (if k3 \<in> namespace_coords r then Some (pr_identity r) else bm_get (by_namespace m) k3)"
  by (cases k2; auto simp: index_record_coordinates_def coords_defs split: option.splits)+

lemma index_observation_frame [simp]:
  "next_identity (fst (index_observation m i obs)) = next_identity m"
  "identity_block_end (fst (index_observation m i obs)) = identity_block_end m"
  "id_records (fst (index_observation m i obs)) = id_records m"
  by (simp_all add: index_observation_def Let_def case_prod_beta split: option.splits)

lemma index_observation_get:
  "bm_get (by_host_start_ticks (fst (index_observation m i obs))) k1 =
     (if \<exists>h. po_host obs = Some h \<and> hp_start_time_ticks h \<noteq> 0
           \<and> k1 = (hp_pid h, hp_start_time_ticks h)
      then Some i else bm_get (by_host_start_ticks m) k1)"
  "bm_get (by_host_start_boottime (fst (index_observation m i obs))) k2 =
     (if \<exists>h ns. po_host obs = Some h \<and> hp_start_boottime_ns h = Some ns \<and> k2 = (hp_pid h, ns)
      then Some i else bm_get (by_host_start_boottime m) k2)"
  "bm_get (by_namespace (fst (index_observation m i obs))) k3 =
     (if po_namespace obs = Some k3 \<and> np_start_time_ticks k3 \<noteq> 0
      then Some i else bm_get (by_namespace m) k3)"
  "bm_get (active_by_host_pid (fst (index_observation m i obs))) k4 =
     (if \<exists>h. po_host obs = Some h \<and> k4 = hp_pid h
      then Some i else bm_get (active_by_host_pid m) k4)"
  "bm_get (active_by_namespace_pid (fst (index_observation m i obs))) k5 =
     (if \<exists>n. po_namespace obs = Some n \<and> k5 = (np_pid_namespace n, np_pid n)
      then Some i else bm_get (active_by_namespace_pid m) k5)"
  by (cases k2; auto simp: index_observation_def Let_def case_prod_beta split: option.splits)+

text \<open>
  A successful resolution inserts one record and points exactly its coordinates at it,
  whether the record was created, enriched and re-indexed, or found complete.
\<close>

definition writes_record ::
    "ProcessIdentityManager \<Rightarrow> ProcessIdentityManager \<Rightarrow> ProcessIdentity \<Rightarrow> ProcessRecord \<Rightarrow> bool" where
  "writes_record m m1 i r' \<longleftrightarrow>
     id_records m1 = bm_insert i r' (id_records m)
     \<and> active_by_host_pid m1 = active_by_host_pid m
     \<and> active_by_namespace_pid m1 = active_by_namespace_pid m
     \<and> (\<forall>k. bm_get (by_host_start_ticks m1) k = bm_get (by_host_start_ticks m) k
            \<or> k \<in> ticks_coords r' \<and> bm_get (by_host_start_ticks m1) k = Some i)
     \<and> (\<forall>k. bm_get (by_host_start_boottime m1) k = bm_get (by_host_start_boottime m) k
            \<or> k \<in> boottime_coords r' \<and> bm_get (by_host_start_boottime m1) k = Some i)
     \<and> (\<forall>k. bm_get (by_namespace m1) k = bm_get (by_namespace m) k
            \<or> k \<in> namespace_coords r' \<and> bm_get (by_namespace m1) k = Some i)"

lemma writes_record_keeps:
  assumes "writes_record m m1 i r'"
  shows "bm_get (by_host_start_ticks m) k1 = Some i \<Longrightarrow> bm_get (by_host_start_ticks m1) k1 = Some i"
    and "bm_get (by_host_start_boottime m) k2 = Some i
      \<Longrightarrow> bm_get (by_host_start_boottime m1) k2 = Some i"
    and "bm_get (by_namespace m) k3 = Some i \<Longrightarrow> bm_get (by_namespace m1) k3 = Some i"
    and "k1 \<notin> ticks_coords r'
      \<Longrightarrow> bm_get (by_host_start_ticks m1) k1 = bm_get (by_host_start_ticks m) k1"
    and "k2 \<notin> boottime_coords r'
      \<Longrightarrow> bm_get (by_host_start_boottime m1) k2 = bm_get (by_host_start_boottime m) k2"
    and "k3 \<notin> namespace_coords r' \<Longrightarrow> bm_get (by_namespace m1) k3 = bm_get (by_namespace m) k3"
  using assms unfolding writes_record_def by metis+

lemma record_covers_coords:
  assumes "record_covers r' obs"
  shows "po_host obs = Some h \<Longrightarrow> hp_start_time_ticks h \<noteq> 0
      \<Longrightarrow> (hp_pid h, hp_start_time_ticks h) \<in> ticks_coords r'"
    and "po_host obs = Some h \<Longrightarrow> hp_start_boottime_ns h = Some ns
      \<Longrightarrow> (hp_pid h, ns) \<in> boottime_coords r'"
    and "po_namespace obs = Some n \<Longrightarrow> np_start_time_ticks n \<noteq> 0 \<Longrightarrow> n \<in> namespace_coords r'"
    and "po_host obs = Some h \<Longrightarrow> hp_pid h \<in> host_pid_coords r'"
    and "po_namespace obs = Some n
      \<Longrightarrow> (np_pid_namespace n, np_pid n) \<in> namespace_pid_coords r'"
  using assms by (fastforce simp: record_covers_def host_covers_def coords_defs)+

lemma ticks_coords_nonzero: "(p, t) \<in> ticks_coords r \<Longrightarrow> t \<noteq> 0"
  by (auto simp: ticks_coords_def)

lemma namespace_coords_nonzero: "n \<in> namespace_coords r \<Longrightarrow> np_start_time_ticks n \<noteq> 0"
  by (simp add: namespace_coords_def)

lemma resolved_indexes:
  assumes inv: "manager_inv m" and wr: "writes_record m m1 i r'"
    and cov: "record_covers r' obs" and from_: "coords_from (bm_get (id_records m) i) obs r'"
  defines "m2 \<equiv> fst (index_observation m1 i obs)"
  shows "bm_get (by_host_start_ticks m2) k1 =
      (if k1 \<in> ticks_coords r' then Some i else bm_get (by_host_start_ticks m) k1)"
    and "bm_get (by_host_start_boottime m2) k2 =
      (if k2 \<in> boottime_coords r' then Some i else bm_get (by_host_start_boottime m) k2)"
    and "bm_get (by_namespace m2) k3 =
      (if k3 \<in> namespace_coords r' then Some i else bm_get (by_namespace m) k3)"
proof -
  note ex = manager_invD [OF inv]
  show "bm_get (by_host_start_ticks m2) k1 =
      (if k1 \<in> ticks_coords r' then Some i else bm_get (by_host_start_ticks m) k1)"
  proof (cases "k1 \<in> ticks_coords r'")
    case True
    then consider r where "bm_get (id_records m) i = Some r" "k1 \<in> ticks_coords r"
      | h where "po_host obs = Some h" "k1 = (hp_pid h, hp_start_time_ticks h)"
      using from_ by (auto simp: coords_from_def)
    then show ?thesis
    proof cases
      case 1
      then have "bm_get (by_host_start_ticks m) k1 = Some i" by (rule index_exactI [OF ex(2)])
      then have "bm_get (by_host_start_ticks m1) k1 = Some i" by (rule writes_record_keeps [OF wr])
      with True show ?thesis unfolding m2_def index_observation_get by simp
    next
      case 2
      with True show ?thesis
        unfolding m2_def index_observation_get by (simp add: ticks_coords_nonzero)
    qed
  next
    case False
    with record_covers_coords(1) [OF cov] show ?thesis
      unfolding m2_def index_observation_get by (auto simp: writes_record_keeps [OF wr])
  qed
  show "bm_get (by_host_start_boottime m2) k2 =
      (if k2 \<in> boottime_coords r' then Some i else bm_get (by_host_start_boottime m) k2)"
  proof (cases "k2 \<in> boottime_coords r'")
    case True
    then consider r where "bm_get (id_records m) i = Some r" "k2 \<in> boottime_coords r"
      | h ns where "po_host obs = Some h" "hp_start_boottime_ns h = Some ns" "k2 = (hp_pid h, ns)"
      using from_ by (auto simp: coords_from_def)
    then show ?thesis
    proof cases
      case 1
      then have "bm_get (by_host_start_boottime m) k2 = Some i" by (rule index_exactI [OF ex(3)])
      then have "bm_get (by_host_start_boottime m1) k2 = Some i" by (rule writes_record_keeps [OF wr])
      with True show ?thesis unfolding m2_def index_observation_get by simp
    next
      case 2
      with True show ?thesis unfolding m2_def index_observation_get by auto
    qed
  next
    case False
    with record_covers_coords(2) [OF cov] show ?thesis
      unfolding m2_def index_observation_get by (auto simp: writes_record_keeps [OF wr])
  qed
  show "bm_get (by_namespace m2) k3 =
      (if k3 \<in> namespace_coords r' then Some i else bm_get (by_namespace m) k3)"
  proof (cases "k3 \<in> namespace_coords r'")
    case True
    then consider r where "bm_get (id_records m) i = Some r" "k3 \<in> namespace_coords r"
      | "po_namespace obs = Some k3"
      using from_ by (auto simp: coords_from_def)
    then show ?thesis
    proof cases
      case 1
      then have "bm_get (by_namespace m) k3 = Some i" by (rule index_exactI [OF ex(4)])
      then have "bm_get (by_namespace m1) k3 = Some i" by (rule writes_record_keeps [OF wr])
      with True show ?thesis unfolding m2_def index_observation_get by simp
    next
      case 2
      with True show ?thesis
        unfolding m2_def index_observation_get by (simp add: namespace_coords_nonzero)
    qed
  next
    case False
    with record_covers_coords(3) [OF cov] show ?thesis
      unfolding m2_def index_observation_get by (auto simp: writes_record_keeps [OF wr])
  qed
qed

lemma resolved_inv:
  assumes inv: "manager_inv m" and wr: "writes_record m m1 i r'"
    and cov: "record_covers r' obs" and from_: "coords_from (bm_get (id_records m) i) obs r'"
    and ext: "\<And>r. bm_get (id_records m) i = Some r \<Longrightarrow> record_extends r r'"
    and sole: "\<And>j. bs_contains (candidates m obs) j \<Longrightarrow> j = i"
    and alloc: "allocation_ok m1"
  shows "manager_inv (fst (index_observation m1 i obs))"
proof -
  let ?m2 = "fst (index_observation m1 i obs)"
  note ex = manager_invD [OF inv]
  note get = resolved_indexes [OF inv wr cov from_]
  have recs: "id_records ?m2 = bm_insert i r' (id_records m)"
    using wr by (simp add: writes_record_def)
  have "allocation_ok ?m2" using alloc by (simp add: allocation_ok_def)
  moreover have "index_exact (by_host_start_ticks ?m2) ticks_coords (id_records ?m2)"
    unfolding recs
  proof (rule index_exact_update [OF ex(2) get(1)])
    fix k j
    assume new: "k \<in> ticks_coords r'" and old: "bm_get (by_host_start_ticks m) k = Some j"
    then consider r where "bm_get (id_records m) i = Some r" "k \<in> ticks_coords r"
      | h where "po_host obs = Some h" "k = (hp_pid h, hp_start_time_ticks h)"
      using from_ by (auto simp: coords_from_def)
    then show "j = i"
    proof cases
      case 1
      from index_exactI [OF ex(2) this] old show ?thesis by simp
    next
      case 2
      with new old ticks_coords_nonzero show ?thesis by (blast intro: sole candidates_host_ticks)
    qed
  qed (use ext record_extends_coords(1) in blast)
  moreover have "index_exact (by_host_start_boottime ?m2) boottime_coords (id_records ?m2)"
    unfolding recs
  proof (rule index_exact_update [OF ex(3) get(2)])
    fix k j
    assume new: "k \<in> boottime_coords r'" and old: "bm_get (by_host_start_boottime m) k = Some j"
    then consider r where "bm_get (id_records m) i = Some r" "k \<in> boottime_coords r"
      | h ns where "po_host obs = Some h" "hp_start_boottime_ns h = Some ns" "k = (hp_pid h, ns)"
      using from_ by (auto simp: coords_from_def)
    then show "j = i"
    proof cases
      case 1
      from index_exactI [OF ex(3) this] old show ?thesis by simp
    next
      case 2
      with old show ?thesis by (blast intro: sole candidates_host_boottime)
    qed
  qed (use ext record_extends_coords(2) in blast)
  moreover have "index_exact (by_namespace ?m2) namespace_coords (id_records ?m2)"
    unfolding recs
  proof (rule index_exact_update [OF ex(4) get(3)])
    fix k j
    assume new: "k \<in> namespace_coords r'" and old: "bm_get (by_namespace m) k = Some j"
    then consider r where "bm_get (id_records m) i = Some r" "k \<in> namespace_coords r"
      | "po_namespace obs = Some k"
      using from_ by (auto simp: coords_from_def)
    then show "j = i"
    proof cases
      case 1
      from index_exactI [OF ex(4) this] old show ?thesis by simp
    next
      case 2
      with new old namespace_coords_nonzero show ?thesis
        by (blast intro: sole candidates_namespace)
    qed
  qed (use ext record_extends_coords(3) in blast)
  moreover have "index_sound (active_by_host_pid ?m2) host_pid_coords (id_records ?m2)"
    unfolding recs
    by (rule index_sound_update [OF ex(5)])
      (use wr record_covers_coords(4) [OF cov] ext record_extends_coords(4) in
        \<open>auto simp: index_observation_get writes_record_def split: if_splits\<close>)
  moreover have "index_sound (active_by_namespace_pid ?m2) namespace_pid_coords (id_records ?m2)"
    unfolding recs
    by (rule index_sound_update [OF ex(6)])
      (use wr record_covers_coords(5) [OF cov] ext record_extends_coords(5) in
        \<open>auto simp: index_observation_get writes_record_def split: if_splits\<close>)
  ultimately show ?thesis by (simp add: manager_inv_def)
qed


subsection \<open>The outcomes of a resolution\<close>

lemma checked_add_below:
  assumes "a < (b :: u64)"
  shows "checked_add_u64 a 1 = Some (a + 1)" and "unat (a + 1) = unat a + 1"
proof -
  have "unat a + 1 < 2 ^ 64"
    using assms unat_u64_bound [of b] by (simp add: word_less_nat_alt)
  then show "checked_add_u64 a 1 = Some (a + 1)" and "unat (a + 1) = unat a + 1"
    by (simp_all add: checked_add_u64_def unat_word_ariths)
qed

lemma allocate_identity_cases:
  "allocate_identity m =
     (if next_identity m \<ge> identity_block_end m then (m, Err IdBlockExhausted)
      else (m\<lparr>next_identity := next_identity m + 1\<rparr>, Ok (next_identity m)))"
  by (auto simp: allocate_identity_def not_le checked_add_below(1))

lemma allocation_ok_fresh: "allocation_ok m \<Longrightarrow> bm_get (id_records m) (next_identity m) = None"
  unfolding allocation_ok_def by (metis not_None_eq order_less_irrefl)

lemma allocation_ok_create:
  assumes "allocation_ok m" and "next_identity m < identity_block_end m"
    and "pr_identity r = next_identity m"
  shows "allocation_ok (m\<lparr>next_identity := next_identity m + 1,
           id_records := bm_insert (next_identity m) r (id_records m)\<rparr>)"
proof -
  have "next_identity m < next_identity m + 1"
    using checked_add_below(2) [OF assms(2)] by (simp add: word_less_nat_alt)
  moreover have "next_identity m + 1 \<le> identity_block_end m"
    using checked_add_below(2) [OF assms(2)] assms(2)
    by (simp add: word_less_nat_alt word_le_nat_alt)
  ultimately show ?thesis
    using assms unfolding allocation_ok_def
    by (auto intro: order.strict_trans [where b = "next_identity m"])
qed

lemma allocation_ok_update:
  assumes "allocation_ok m" and "bm_get (id_records m) i = Some r" and "pr_identity r' = pr_identity r"
  shows "allocation_ok (m\<lparr>id_records := bm_insert i r' (id_records m)\<rparr>)"
  using assms by (auto simp: allocation_ok_def)

lemma allocation_ok_index [simp]:
  "allocation_ok (index_record_coordinates m r) = allocation_ok m"
  "allocation_ok (fst (index_observation m i obs)) = allocation_ok m"
  by (simp_all add: allocation_ok_def)

lemma process_record_new_props:
  "pr_identity (process_record_new i obs) = i"
  "record_covers (process_record_new i obs) obs"
  "coords_from None obs (process_record_new i obs)"
  "pr_host (process_record_new i obs) \<noteq> None
     \<longrightarrow> pr_resolution_state (process_record_new i obs) = Resolved"
  by (auto simp: process_record_new_def record_covers_def coords_from_def coords_defs
      split: option.splits)

text \<open>A state written by a successful resolution, with the facts every property uses.\<close>

definition resolves_to ::
    "ProcessIdentityManager \<Rightarrow> ProcessObservation \<Rightarrow> ProcessIdentityManager \<Rightarrow> ProcessIdentity
      \<Rightarrow> ProcessRecord \<Rightarrow> ProcessIdentityManager \<Rightarrow> bool" where
  "resolves_to m obs m1 i r' m' \<longleftrightarrow>
     writes_record m m1 i r' \<and> record_covers r' obs
     \<and> coords_from (bm_get (id_records m) i) obs r'
     \<and> (\<forall>r. bm_get (id_records m) i = Some r \<longrightarrow> record_extends r r')
     \<and> (\<forall>j. bs_contains (candidates m obs) j \<longrightarrow> j = i)
     \<and> (pr_host r' \<noteq> None \<longrightarrow> pr_resolution_state r' = Resolved)
     \<and> allocation_ok m1 \<and> m' = fst (index_observation m1 i obs)"

lemma resolve_created:
  assumes inv: "manager_inv m" and none: "bs_first (candidates m obs) = None"
    and room: "next_identity m < identity_block_end m"
  obtains m1 where "resolves_to m obs m1 (next_identity m)
      (process_record_new (next_identity m) obs) (fst (index_observation m1 (next_identity m) obs))"
    and "resolve_or_create m obs =
      Some (fst (index_observation m1 (next_identity m) obs),
        Ok \<lparr>rs_identity = next_identity m, rs_created = True, rs_enriched = False,
            rs_displaced_active = snd (index_observation m1 (next_identity m) obs)\<rparr>)"
    and "next_identity m1 = next_identity m + 1" and "identity_block_end m1 = identity_block_end m"
proof
  let ?i = "next_identity m"
  let ?r = "process_record_new ?i obs"
  let ?m1 = "m\<lparr>next_identity := ?i + 1, id_records := bm_insert ?i ?r (id_records m)\<rparr>"
  have fresh: "bm_get (id_records m) ?i = None"
    using manager_invD(1) [OF inv] by (rule allocation_ok_fresh)
  have empty: "candidates m obs = bm_empty" using none by (simp add: bs_first_None)
  show "resolves_to m obs ?m1 ?i ?r (fst (index_observation ?m1 ?i obs))"
    using fresh empty allocation_ok_create [OF manager_invD(1) [OF inv] room]
    by (simp add: resolves_to_def writes_record_def process_record_new_props)
  show "resolve_or_create m obs =
      Some (fst (index_observation ?m1 ?i obs),
        Ok \<lparr>rs_identity = ?i, rs_created = True, rs_enriched = False,
            rs_displaced_active = snd (index_observation ?m1 ?i obs)\<rparr>)"
    using room
    by (simp add: empty resolve_or_create_def allocate_identity_cases Let_def case_prod_beta)
qed simp_all

lemma resolve_enriched:
  assumes inv: "manager_inv m" and some: "bs_first (candidates m obs) = Some i"
    and one: "\<not> bs_len (candidates m obs) > 1"
    and enr: "enrich m i obs = Some (m1, Inr c)"
  obtains r' where "resolves_to m obs m1 i r' (fst (index_observation m1 i obs))"
    and "next_identity m1 = next_identity m" and "identity_block_end m1 = identity_block_end m"
proof -
  from enr obtain r r' where r: "bm_get (id_records m) i = Some r"
    and ext: "record_extends r r'" and cov: "record_covers r' obs"
    and from_: "coords_from (Some r) obs r'"
    and state: "pr_host r' \<noteq> None \<longrightarrow> pr_resolution_state r' = Resolved"
    and m1: "m1 = (let m0 = m\<lparr>id_records := bm_insert i r' (id_records m)\<rparr>
                   in if c then index_record_coordinates m0 r' else m0)"
    by (rule enrich_Ok)
  have id: "pr_identity r' = i" and id': "pr_identity r' = pr_identity r"
    using manager_invD(1) [OF inv] r ext by (auto simp: allocation_ok_def record_extends_def)
  have "writes_record m m1 i r'"
    by (simp add: m1 writes_record_def Let_def index_record_coordinates_get id)
  moreover have "allocation_ok m1"
    using allocation_ok_update [OF manager_invD(1) [OF inv] r id']
    by (simp add: m1 Let_def)
  ultimately show ?thesis
    using that r ext cov from_ state bs_first_single [OF some one]
    by (simp add: resolves_to_def m1 Let_def)
qed

lemma enrich_defined: "bm_get (id_records m) i \<noteq> None \<Longrightarrow> enrich m i obs \<noteq> None"
  by (auto simp: enrich_def Let_def case_prod_beta split: sum.splits)

lemma enrich_Err:
  assumes "enrich m i obs = Some (m1, Inl e)"
  obtains r h h' where "bm_get (id_records m) i = Some r" and "pr_host r = Some h"
    and "po_host obs = Some h'" and "\<not> host_coordinates_match h h'"
    and "e = HostCoordinatesConflict i h h'"
    and "m1 = m\<lparr>id_records :=
           bm_insert i (r\<lparr>pr_resolution_state := Conflicted\<rparr>) (id_records m)\<rparr>"
  using assms that
  by (auto simp: enrich_def enrich_record_host_def Let_def case_prod_beta
      split: option.splits sum.splits if_splits)

lemma manager_inv_conflicted:
  assumes "manager_inv m" and "bm_get (id_records m) i = Some r"
  shows "manager_inv (m\<lparr>id_records :=
           bm_insert i (r\<lparr>pr_resolution_state := s\<rparr>) (id_records m)\<rparr>)"
proof -
  note ex = manager_invD [OF assms(1)]
  have "allocation_ok (m\<lparr>id_records :=
          bm_insert i (r\<lparr>pr_resolution_state := s\<rparr>) (id_records m)\<rparr>)"
    by (rule allocation_ok_update [OF ex(1) assms(2)]) simp
  moreover have "ticks_coords (r\<lparr>pr_resolution_state := s\<rparr>) = ticks_coords r"
    "boottime_coords (r\<lparr>pr_resolution_state := s\<rparr>) = boottime_coords r"
    "namespace_coords (r\<lparr>pr_resolution_state := s\<rparr>) = namespace_coords r"
    "host_pid_coords (r\<lparr>pr_resolution_state := s\<rparr>) = host_pid_coords r"
    "namespace_pid_coords (r\<lparr>pr_resolution_state := s\<rparr>) = namespace_pid_coords r"
    by (simp_all add: coords_defs)
  ultimately show ?thesis
    unfolding manager_inv_def
    using index_exact_same_coords [OF ex(2) assms(2)] index_exact_same_coords [OF ex(3) assms(2)]
      index_exact_same_coords [OF ex(4) assms(2)] index_sound_same_coords [OF ex(5) assms(2)]
      index_sound_same_coords [OF ex(6) assms(2)]
    by simp
qed

text \<open>Every call of \<open>resolve_or_create\<close> has one of five outcomes.\<close>

lemma resolve_cases [consumes 1, case_names conflict host_conflict enriched exhausted created]:
  assumes inv: "manager_inv m"
  obtains
    (conflict) "bs_len (candidates m obs) > 1"
      "resolve_or_create m obs = Some (m, Err (ConflictingObservations (bs_to_list (candidates m obs)) obs))"
  | (host_conflict) i r h h' where "bs_first (candidates m obs) = Some i"
      "bm_get (id_records m) i = Some r" "pr_host r = Some h" "po_host obs = Some h'"
      "\<not> host_coordinates_match h h'"
      "resolve_or_create m obs = Some (m\<lparr>id_records :=
           bm_insert i (r\<lparr>pr_resolution_state := Conflicted\<rparr>) (id_records m)\<rparr>,
         Err (HostCoordinatesConflict i h h'))"
  | (enriched) i r' m1 m' c d where "bs_first (candidates m obs) = Some i"
      "resolves_to m obs m1 i r' m'" "next_identity m' = next_identity m"
      "identity_block_end m' = identity_block_end m"
      "bm_get (id_records m) i \<noteq> None"
      "enrich m i obs = Some (m1, Inr c)"
      "d = snd (index_observation m1 i obs)"
      "resolve_or_create m obs = Some (m', Ok \<lparr>rs_identity = i, rs_created = False,
         rs_enriched = c, rs_displaced_active = d\<rparr>)"
  | (exhausted) "candidates m obs = bm_empty" "next_identity m = identity_block_end m"
      "resolve_or_create m obs = Some (m, Err IdBlockExhausted)"
  | (created) m1 m' d where "candidates m obs = bm_empty"
      "next_identity m < identity_block_end m"
      "resolves_to m obs m1 (next_identity m) (process_record_new (next_identity m) obs) m'"
      "next_identity m' = next_identity m + 1" "identity_block_end m' = identity_block_end m"
      "d = snd (index_observation m1 (next_identity m) obs)"
      "resolve_or_create m obs = Some (m', Ok \<lparr>rs_identity = next_identity m,
         rs_created = True, rs_enriched = False, rs_displaced_active = d\<rparr>)"
proof (cases "bs_len (candidates m obs) > 1")
  case True
  then show ?thesis using conflict by (simp add: resolve_or_create_def)
next
  case one: False
  show ?thesis
  proof (cases "bs_first (candidates m obs)")
    case None
    show ?thesis
    proof (cases "next_identity m < identity_block_end m")
      case True
      from inv None True show ?thesis
      proof (rule resolve_created)
        fix m1
        let ?i = "next_identity m"
        let ?m' = "fst (index_observation m1 ?i obs)"
        assume "resolves_to m obs m1 ?i (process_record_new ?i obs) ?m'"
          and "resolve_or_create m obs = Some (?m',
            Ok \<lparr>rs_identity = ?i, rs_created = True, rs_enriched = False,
                rs_displaced_active = snd (index_observation m1 ?i obs)\<rparr>)"
          and "next_identity m1 = ?i + 1" and "identity_block_end m1 = identity_block_end m"
        with True None show ?thesis
          by (intro created [of m1 ?m' "snd (index_observation m1 ?i obs)"])
            (simp_all add: bs_first_None)
      qed
    next
      case False
      moreover have "next_identity m \<le> identity_block_end m"
        using manager_invD(1) [OF inv] by (simp add: allocation_ok_def)
      ultimately have "next_identity m = identity_block_end m" by simp
      moreover from this have "resolve_or_create m obs = Some (m, Err IdBlockExhausted)"
        using None one by (simp add: resolve_or_create_def allocate_identity_cases)
      moreover have "candidates m obs = bm_empty" using None by (simp add: bs_first_None)
      ultimately show ?thesis by (rule exhausted [rotated 1])
    qed
  next
    case (Some i)
    then have rec: "bm_get (id_records m) i \<noteq> None"
      using candidates_recorded [OF inv] bs_first_Some by blast
    then obtain m1 out where enr: "enrich m i obs = Some (m1, out)"
      using enrich_defined by fastforce
    show ?thesis
    proof (cases out)
      case (Inl e)
      from enr [unfolded Inl] obtain r h h' where "bm_get (id_records m) i = Some r"
        "pr_host r = Some h" "po_host obs = Some h'" "\<not> host_coordinates_match h h'"
        "e = HostCoordinatesConflict i h h'"
        "m1 = m\<lparr>id_records :=
           bm_insert i (r\<lparr>pr_resolution_state := Conflicted\<rparr>) (id_records m)\<rparr>"
        by (rule enrich_Err)
      with Some one enr Inl show ?thesis
        by (intro host_conflict [of i r h h']) (simp_all add: resolve_or_create_def)
    next
      case (Inr c)
      with enr obtain r' where "resolves_to m obs m1 i r' (fst (index_observation m1 i obs))"
        "next_identity m1 = next_identity m" "identity_block_end m1 = identity_block_end m"
        using inv Some one by (blast elim: resolve_enriched)
      with Some one enr Inr rec show ?thesis
        by (intro enriched [of i m1 r' "fst (index_observation m1 i obs)" c
              "snd (index_observation m1 i obs)"])
          (simp_all add: resolve_or_create_def Let_def case_prod_beta)
    qed
  qed
qed


subsection \<open>Every operation keeps the invariant\<close>

lemma resolves_to_inv: "manager_inv m \<Longrightarrow> resolves_to m obs m1 i r' m' \<Longrightarrow> manager_inv m'"
  unfolding resolves_to_def using resolved_inv by blast

lemma resolves_to_records:
  "resolves_to m obs m1 i r' m' \<Longrightarrow> id_records m' = bm_insert i r' (id_records m)"
  by (auto simp: resolves_to_def writes_record_def)

lemma resolve_inv:
  assumes "manager_inv m" and "resolve_or_create m obs = Some (m', out)"
  shows "manager_inv m'"
  using assms(1)
proof (cases rule: resolve_cases [of m obs])
  case host_conflict
  with assms show ?thesis by (auto intro: manager_inv_conflicted)
qed (use assms in \<open>auto intro: resolves_to_inv\<close>)

lemma exit_namespace_frame [simp]:
  "active_by_host_pid (exit_namespace i n m) = active_by_host_pid m"
  "id_records (exit_namespace i n m) = id_records m"
  "next_identity (exit_namespace i n m) = next_identity m"
  "identity_block_end (exit_namespace i n m) = identity_block_end m"
  "by_host_start_ticks (exit_namespace i n m) = by_host_start_ticks m"
  "by_host_start_boottime (exit_namespace i n m) = by_host_start_boottime m"
  "by_namespace (exit_namespace i n m) = by_namespace m"
  by (simp_all add: exit_namespace_def Let_def)

lemma exit_namespace_get [simp]:
  "bm_get (active_by_namespace_pid (exit_namespace i n m)) k =
     (if bm_get (active_by_namespace_pid m) k = Some i \<and> k = (np_pid_namespace n, np_pid n)
      then None else bm_get (active_by_namespace_pid m) k)"
  by (auto simp: exit_namespace_def Let_def)

lemma exit_namespaces_frame [simp]:
  "active_by_host_pid (fold (exit_namespace i) ns m) = active_by_host_pid m"
  "id_records (fold (exit_namespace i) ns m) = id_records m"
  "next_identity (fold (exit_namespace i) ns m) = next_identity m"
  "identity_block_end (fold (exit_namespace i) ns m) = identity_block_end m"
  "by_host_start_ticks (fold (exit_namespace i) ns m) = by_host_start_ticks m"
  "by_host_start_boottime (fold (exit_namespace i) ns m) = by_host_start_boottime m"
  "by_namespace (fold (exit_namespace i) ns m) = by_namespace m"
  by (induction ns arbitrary: m) simp_all

lemma exit_namespaces_get [simp]:
  "bm_get (active_by_namespace_pid (fold (exit_namespace i) ns m)) k =
     (if bm_get (active_by_namespace_pid m) k = Some i
         \<and> k \<in> (\<lambda>n. (np_pid_namespace n, np_pid n)) ` set ns
      then None else bm_get (active_by_namespace_pid m) k)"
  by (induction ns arbitrary: m) auto

lemma exit_frame [simp]:
  "id_records (mark_identity_exited m i) = id_records m"
  "next_identity (mark_identity_exited m i) = next_identity m"
  "identity_block_end (mark_identity_exited m i) = identity_block_end m"
  "by_host_start_ticks (mark_identity_exited m i) = by_host_start_ticks m"
  "by_host_start_boottime (mark_identity_exited m i) = by_host_start_boottime m"
  "by_namespace (mark_identity_exited m i) = by_namespace m"
  by (simp_all add: mark_identity_exited_def Let_def split: option.splits)

lemma exit_active_host:
  "bm_get (active_by_host_pid (mark_identity_exited m i)) p =
     (if bm_get (active_by_host_pid m) p = Some i
         \<and> (\<exists>r. bm_get (id_records m) i = Some r \<and> p \<in> host_pid_coords r)
      then None else bm_get (active_by_host_pid m) p)"
  by (auto simp: mark_identity_exited_def Let_def coords_defs split: option.splits)

lemma exit_active_namespace:
  "bm_get (active_by_namespace_pid (mark_identity_exited m i)) k =
     (if bm_get (active_by_namespace_pid m) k = Some i
         \<and> (\<exists>r. bm_get (id_records m) i = Some r \<and> k \<in> namespace_pid_coords r)
      then None else bm_get (active_by_namespace_pid m) k)"
  by (auto simp: mark_identity_exited_def Let_def coords_defs image_iff
      split: option.splits)

lemma exit_inv:
  assumes "manager_inv m"
  shows "manager_inv (mark_identity_exited m i)"
  using assms
  by (auto simp: manager_inv_def allocation_ok_def index_sound_def exit_active_host
      exit_active_namespace split: if_splits)

lemma install_inv:
  assumes "manager_inv m" and "install_reserved_block m a b = (m', out)"
  shows "manager_inv m'"
  using assms
  by (auto simp: install_reserved_block_def manager_inv_def allocation_ok_def split: if_splits)

subsection \<open>Loading the persisted records\<close>

text \<open>
  Records that can be loaded: their identities were allocated below the reserved block and no two of
  them share a coordinate. Records that a manager itself has written have both properties (\<open>stored_loadable\<close> in
  \<open>Identity_System\<close>).
\<close>

definition loadable :: "u64 \<Rightarrow> ProcessRecord list \<Rightarrow> bool" where
  "loadable block_start rs \<longleftrightarrow>
     (\<forall>r\<in>set rs. pr_identity r < block_start)
     \<and> (\<forall>r\<in>set rs. \<forall>r'\<in>set rs. pr_identity r \<noteq> pr_identity r'
          \<longrightarrow> ticks_coords r \<inter> ticks_coords r' = {}
            \<and> boottime_coords r \<inter> boottime_coords r' = {}
            \<and> namespace_coords r \<inter> namespace_coords r' = {})"

lemma load_record_new:
  assumes "bm_get (id_records m) (pr_identity r) = None"
  shows "load_record m r =
    ((index_record_coordinates m r)\<lparr>id_records := bm_insert (pr_identity r) r (id_records m)\<rparr>, Ok ())"
  using assms
  by (simp add: load_record_def index_record_coordinates_def Let_def split: option.splits)

lemma index_exact_load:
  assumes ex: "index_exact ix coords recs" and none: "bm_get recs i = None"
    and get: "\<And>k. bm_get ix' k = (if k \<in> coords r then Some i else bm_get ix k)"
    and apart: "\<And>j r'. bm_get recs j = Some r' \<Longrightarrow> j \<noteq> i \<Longrightarrow> coords r \<inter> coords r' = {}"
  shows "index_exact ix' coords (bm_insert i r recs)"
proof (rule index_exact_update [OF ex get])
  fix k j
  assume "k \<in> coords r" and "bm_get ix k = Some j"
  moreover from this(2) obtain r' where "bm_get recs j = Some r'" and "k \<in> coords r'"
    using index_exactD [OF ex] by blast
  ultimately show "j = i" using apart [of j r'] by blast
qed (simp add: none)

lemma load_record_inv:
  assumes inv: "manager_inv m" and ok: "load_record m r = (m', Inr u)"
    and below: "pr_identity r < next_identity m"
    and apart: "\<And>j r'. bm_get (id_records m) j = Some r' \<Longrightarrow> j \<noteq> pr_identity r
      \<Longrightarrow> ticks_coords r \<inter> ticks_coords r' = {} \<and> boottime_coords r \<inter> boottime_coords r' = {}
        \<and> namespace_coords r \<inter> namespace_coords r' = {}"
  shows "manager_inv m'"
proof (cases "bm_get (id_records m) (pr_identity r)")
  case None
  note ex = manager_invD [OF inv]
  let ?m' = "(index_record_coordinates m r)\<lparr>id_records := bm_insert (pr_identity r) r (id_records m)\<rparr>"
  have "index_exact (by_host_start_ticks ?m') ticks_coords (id_records ?m')"
    using apart
    by (simp, intro index_exact_load [OF ex(2) None]) (simp add: index_record_coordinates_get, blast)
  moreover have "index_exact (by_host_start_boottime ?m') boottime_coords (id_records ?m')"
    using apart
    by (simp, intro index_exact_load [OF ex(3) None]) (simp add: index_record_coordinates_get, blast)
  moreover have "index_exact (by_namespace ?m') namespace_coords (id_records ?m')"
    using apart
    by (simp, intro index_exact_load [OF ex(4) None]) (simp add: index_record_coordinates_get, blast)
  moreover have "index_sound (active_by_host_pid ?m') host_pid_coords (id_records ?m')"
    using None by (auto intro!: index_sound_update [OF ex(5)])
  moreover have "index_sound (active_by_namespace_pid ?m') namespace_pid_coords (id_records ?m')"
    using None by (auto intro!: index_sound_update [OF ex(6)])
  moreover have "allocation_ok ?m'"
    using ex(1) below by (auto simp: allocation_ok_def)
  ultimately have "manager_inv ?m'" by (simp add: manager_inv_def)
  then show ?thesis using ok None by (simp add: load_record_new)
next
  case (Some existing)
  then show ?thesis using ok inv by (auto simp: load_record_def split: if_splits)
qed


end
