(* ===== verification/Identity_System.thy ===== *)
theory Identity_System
  imports Identity
begin

text \<open>
  The identity manager as a system of operations: start states (a new manager, or one
  restored from the persisted records), one step for each call that changes state, and
  the properties that hold after any sequence of calls.
\<close>

section \<open>Start states and steps\<close>

lemma loadable_mono: "loadable n xs \<Longrightarrow> set ys \<subseteq> set xs \<Longrightarrow> loadable n ys"
  unfolding loadable_def by (meson subsetD)

lemma load_records_inv:
  assumes "manager_inv m" and "load_records m rs = Inr m'"
    and "loadable (next_identity m) (rs @ bm_values (id_records m))"
  shows "manager_inv m' \<and> next_identity m' = next_identity m
    \<and> identity_block_end m' = identity_block_end m"
  using assms
proof (induction rs arbitrary: m)
  case (Cons r rs)
  from Cons.prems(2) obtain m1 u where ok: "load_record m r = (m1, Inr u)"
    and rest: "load_records m1 rs = Inr m'"
    by (auto split: prod.splits sum.splits)
  have id: "pr_identity r' = j" if "bm_get (id_records m) j = Some r'" for j r'
    using manager_invD(1) [OF Cons.prems(1)] that by (simp add: allocation_ok_def)
  have m1: "next_identity m1 = next_identity m" "identity_block_end m1 = identity_block_end m"
    "set (bm_values (id_records m1)) \<subseteq> insert r (set (bm_values (id_records m)))"
    using ok
    by (auto simp: load_record_def bm_values_iff Let_def split: option.splits if_splits)
  have "manager_inv m1"
  proof (rule load_record_inv [OF Cons.prems(1) ok])
    show "pr_identity r < next_identity m"
      using Cons.prems(3) by (simp add: loadable_def)
  next
    fix j r'
    assume "bm_get (id_records m) j = Some r'" and "j \<noteq> pr_identity r"
    moreover from this have "r' \<in> set (bm_values (id_records m))" and "pr_identity r' \<noteq> pr_identity r"
      using id by (auto simp: bm_values_iff)
    ultimately show "ticks_coords r \<inter> ticks_coords r' = {}
        \<and> boottime_coords r \<inter> boottime_coords r' = {}
        \<and> namespace_coords r \<inter> namespace_coords r' = {}"
      using Cons.prems(3) by (simp add: loadable_def)
  qed
  moreover have "loadable (next_identity m1) (rs @ bm_values (id_records m1))"
    using Cons.prems(3) m1 by (auto elim!: loadable_mono)
  ultimately show ?case using Cons.IH [OF _ rest] m1 by simp
qed simp

lemma with_reserved_block_inv:
  assumes "with_reserved_block a b rs = Inr m" and "loadable a rs"
  shows "manager_inv m"
proof -
  let ?m0 = "\<lparr>next_identity = a, identity_block_end = b, id_records = bm_empty,
         by_host_start_ticks = bm_empty, by_host_start_boottime = bm_empty,
         by_namespace = bm_empty, active_by_host_pid = bm_empty,
         active_by_namespace_pid = bm_empty\<rparr>"
  have "a < b" and load: "load_records ?m0 rs = Inr m"
    using assms(1) by (auto simp: with_reserved_block_def split: if_splits)
  then have "manager_inv ?m0" by (simp add: manager_inv_def allocation_ok_def)
  from load_records_inv [OF this load] assms(2) show ?thesis
    by (simp add: bm_values_def bm_empty.rep_eq)
qed

definition manager_start :: "ProcessIdentityManager \<Rightarrow> bool" where
  "manager_start m \<longleftrightarrow>
     (\<exists>first. m = manager_new first)
     \<or> (\<exists>a b rs. loadable a rs \<and> with_reserved_block a b rs = Inr m)"

inductive manager_step :: "ProcessIdentityManager \<Rightarrow> ProcessIdentityManager \<Rightarrow> bool" where
  step_resolve: "resolve_or_create m obs = Some (m', out) \<Longrightarrow> manager_step m m'"
| step_exit: "manager_step m (mark_identity_exited m i)"
| step_install: "install_reserved_block m a b = (m', out) \<Longrightarrow> manager_step m m'"

text \<open>No operation forgets an identity or drops a coordinate of its record.\<close>

definition manager_fwd :: "ProcessIdentityManager \<Rightarrow> ProcessIdentityManager \<Rightarrow> bool" where
  "manager_fwd m m' \<longleftrightarrow>
     next_identity m \<le> next_identity m'
     \<and> (\<forall>i r. bm_get (id_records m) i = Some r
          \<longrightarrow> (\<exists>r'. bm_get (id_records m') i = Some r' \<and> record_extends r r'))"

lemma manager_fwd_insert:
  assumes "next_identity m \<le> next_identity m'" and "id_records m' = bm_insert i r' (id_records m)"
    and "\<And>r. bm_get (id_records m) i = Some r \<Longrightarrow> record_extends r r'"
  shows "manager_fwd m m'"
  using assms by (auto simp: manager_fwd_def)

lemma resolve_fwd:
  assumes "manager_inv m" and "resolve_or_create m obs = Some (m', out)"
  shows "manager_fwd m m'"
  using assms(1)
proof (cases rule: resolve_cases [of m obs])
  case (host_conflict i r h h')
  with assms(2) show ?thesis
    by (auto intro!: manager_fwd_insert simp: record_extends_def)
next
  case (enriched i r' m1 m'' c d)
  with assms(2) show ?thesis
    by (auto intro!: manager_fwd_insert resolves_to_records simp: resolves_to_def [of _ _ _ i])
next
  case (created m1 m'' d)
  have "next_identity m \<le> next_identity m + 1"
    using checked_add_below(2) [OF created(2)] by (simp add: word_le_nat_alt)
  moreover have "bm_get (id_records m) (next_identity m) = None"
    using manager_invD(1) [OF assms(1)] by (rule allocation_ok_fresh)
  ultimately show ?thesis
    using created assms(2) resolves_to_records [OF created(3)]
    by (auto intro!: manager_fwd_insert)
qed (use assms(2) in \<open>auto simp: manager_fwd_def\<close>)

lemma exit_fwd: "manager_fwd m (mark_identity_exited m i)"
  by (auto simp: manager_fwd_def)

lemma install_fwd: "install_reserved_block m a b = (m', out) \<Longrightarrow> manager_fwd m m'"
  by (auto simp: manager_fwd_def install_reserved_block_def split: if_splits)

interpretation ids: forward_system manager_start manager_step manager_inv manager_fwd
proof
  fix s t u :: ProcessIdentityManager
  show "manager_start s \<Longrightarrow> manager_inv s"
    by (auto simp: manager_start_def intro: manager_inv_new with_reserved_block_inv)
  show "manager_inv s \<Longrightarrow> manager_step s t \<Longrightarrow> manager_inv t"
    by (erule manager_step.cases) (auto intro: resolve_inv exit_inv install_inv)
  show "manager_fwd s s" by (auto simp: manager_fwd_def)
  show "manager_fwd s t \<Longrightarrow> manager_fwd t u \<Longrightarrow> manager_fwd s u"
    unfolding manager_fwd_def by (meson order.trans record_extends_trans)
  show "manager_inv s \<Longrightarrow> manager_step s t \<Longrightarrow> manager_fwd s t"
    by (erule manager_step.cases) (auto intro: resolve_fwd exit_fwd install_fwd)
qed

abbreviation manager_reachable :: "ProcessIdentityManager \<Rightarrow> bool" where
  "manager_reachable \<equiv> reachable manager_start manager_step"

text \<open>
  The life of an installation, across restarts of the daemon. It begins with a new manager. The store keeps
  records as the manager had them at some time since the last restart; a restart loads all or some of
  them into a manager with a block that begins behind every identity that was handed out. Nothing is
  assumed of the coordinates of the records.
\<close>

definition stored_records :: "ProcessIdentityManager \<Rightarrow> ProcessRecord list \<Rightarrow> bool" where
  "stored_records m rs \<longleftrightarrow>
     (\<forall>r \<in> set rs. \<exists>r'. bm_get (id_records m) (pr_identity r) = Some r' \<and> record_extends r r')"

inductive life_step :: "ProcessIdentityManager \<Rightarrow> ProcessIdentityManager \<Rightarrow> bool" where
  life_call: "manager_step m m' \<Longrightarrow> life_step m m'"
| life_restart: "stored_records m rs \<Longrightarrow> next_identity m \<le> a \<Longrightarrow> with_reserved_block a b rs = Inr m' \<Longrightarrow> life_step m m'"

lemma records_apart:
  assumes "manager_inv m" and "bm_get (id_records m) i = Some r" and "bm_get (id_records m) j = Some r'" and "i \<noteq> j"
  shows "ticks_coords r \<inter> ticks_coords r' = {}" and "boottime_coords r \<inter> boottime_coords r' = {}"
    and "namespace_coords r \<inter> namespace_coords r' = {}"
  using index_exact_unique [OF manager_invD(2) [OF assms(1)]] index_exact_unique [OF manager_invD(3) [OF assms(1)]]
    index_exact_unique [OF manager_invD(4) [OF assms(1)]] assms(2-4) by blast+

lemma stored_loadable:
  assumes inv: "manager_inv m" and st: "stored_records m rs" and a: "next_identity m \<le> a"
  shows "loadable a rs"
  unfolding loadable_def
proof (intro conjI ballI impI)
  fix r assume "r \<in> set rs"
  with st obtain r1 where r1: "bm_get (id_records m) (pr_identity r) = Some r1" by (auto simp: stored_records_def)
  then have "pr_identity r < next_identity m"
    using manager_invD(1) [OF inv] by (auto simp: allocation_ok_def)
  then show "pr_identity r < a" using a by (rule less_le_trans)
next
  fix r r' assume "r \<in> set rs" "r' \<in> set rs" and ne: "pr_identity r \<noteq> pr_identity r'"
  with st obtain r1 r2 where r1: "bm_get (id_records m) (pr_identity r) = Some r1" "record_extends r r1"
    and r2: "bm_get (id_records m) (pr_identity r') = Some r2" "record_extends r' r2"
    unfolding stored_records_def by blast
  note apart = records_apart [OF inv r1(1) r2(1) ne]
  note sub = record_extends_coords [OF r1(2)] record_extends_coords [OF r2(2)]
  show "ticks_coords r \<inter> ticks_coords r' = {}" using apart(1) sub(1,6) by blast
  show "boottime_coords r \<inter> boottime_coords r' = {}" using apart(2) sub(2,7) by blast
  show "namespace_coords r \<inter> namespace_coords r' = {}" using apart(3) sub(3,8) by blast
qed

interpretation life: guarded_system "\<lambda>m. \<exists>first. m = manager_new first" life_step manager_inv
proof
  show "\<exists>first. m = manager_new first \<Longrightarrow> manager_inv m" for m by (auto intro: manager_inv_new)
  show "manager_inv m \<Longrightarrow> life_step m m' \<Longrightarrow> manager_inv m'" for m m'
    by (erule life_step.cases) (auto intro: ids.step_inv with_reserved_block_inv stored_loadable)
qed

abbreviation life_reachable :: "ProcessIdentityManager \<Rightarrow> bool" where
  "life_reachable \<equiv> reachable (\<lambda>m. \<exists>first. m = manager_new first) life_step"

section \<open>A resolved observation\<close>

lemma resolves_to_active:
  assumes "resolves_to m obs m1 i r' m'"
  shows "po_host obs = Some h \<Longrightarrow> bm_get (active_by_host_pid m') (hp_pid h) = Some i"
    and "po_namespace obs = Some n
      \<Longrightarrow> bm_get (active_by_namespace_pid m') (np_pid_namespace n, np_pid n) = Some i"
  using assms by (auto simp: resolves_to_def index_observation_get)

lemma resolves_to_record:
  assumes "resolves_to m obs m1 i r' m'"
  shows "bm_get (id_records m') i = Some r'" and "record_covers r' obs"
  using assms resolves_to_records [OF assms] by (auto simp: resolves_to_def)

lemma covered_indexed:
  assumes "manager_inv m" and "bm_get (id_records m) i = Some r" and "record_covers r obs"
  shows "po_host obs = Some h \<Longrightarrow> hp_start_time_ticks h \<noteq> 0
      \<Longrightarrow> bm_get (by_host_start_ticks m) (hp_pid h, hp_start_time_ticks h) = Some i"
    and "po_host obs = Some h \<Longrightarrow> hp_start_boottime_ns h = Some ns
      \<Longrightarrow> bm_get (by_host_start_boottime m) (hp_pid h, ns) = Some i"
    and "po_namespace obs = Some n \<Longrightarrow> np_start_time_ticks n \<noteq> 0
      \<Longrightarrow> bm_get (by_namespace m) n = Some i"
proof -
  note ex = manager_invD [OF assms(1)] and cov = record_covers_coords [OF assms(3)]
  show "po_host obs = Some h \<Longrightarrow> hp_start_time_ticks h \<noteq> 0
      \<Longrightarrow> bm_get (by_host_start_ticks m) (hp_pid h, hp_start_time_ticks h) = Some i"
    using index_exactI [OF ex(2) assms(2)] cov(1) by blast
  show "po_host obs = Some h \<Longrightarrow> hp_start_boottime_ns h = Some ns
      \<Longrightarrow> bm_get (by_host_start_boottime m) (hp_pid h, ns) = Some i"
    using index_exactI [OF ex(3) assms(2)] cov(2) by blast
  show "po_namespace obs = Some n \<Longrightarrow> np_start_time_ticks n \<noteq> 0
      \<Longrightarrow> bm_get (by_namespace m) n = Some i"
    using index_exactI [OF ex(4) assms(2)] cov(3) by blast
qed

lemma resolves_to_candidates:
  assumes inv: "manager_inv m" and res: "resolves_to m obs m1 i r' m'"
    and seen: "po_host obs \<noteq> None \<or> po_namespace obs \<noteq> None"
  shows "bs_contains (candidates m' obs) j \<longleftrightarrow> j = i"
proof -
  note rec = resolves_to_record [OF res] and act = resolves_to_active [OF res]
  show ?thesis
  proof
    assume "bs_contains (candidates m' obs) j"
    then show "j = i"
      using act covered_indexed [OF resolves_to_inv [OF inv res] rec]
      by (auto simp: candidates_iff host_candidates_iff namespace_candidates_iff)
  next
    assume ji: "j = i"
    from seen consider h where "po_host obs = Some h" | n where "po_namespace obs = Some n" by auto
    then show "bs_contains (candidates m' obs) j"
    proof cases
      case 1
      then obtain e where "pr_host r' = Some e" and "host_coordinates_match e h"
        using rec(2) host_covers_match by (auto simp: record_covers_def)
      with 1 act(1) rec(1) ji show ?thesis by (auto simp: candidates_iff host_candidates_iff)
    next
      case 2
      then have "bs_contains (pr_namespaces r') n" using rec(2) by (simp add: record_covers_def)
      with 2 act(2) rec(1) ji show ?thesis
        by (auto simp: candidates_iff namespace_candidates_iff namespace_coordinates_match_def)
    qed
  qed
qed

lemma enrich_host_covered:
  assumes "host_covers e h"
  shows "enrich_host e h = (e, False)"
proof -
  have "\<not> (hp_start_time_ticks e = 0 \<and> hp_start_time_ticks h \<noteq> 0)"
    "\<not> (hp_start_boottime_ns e = None \<and> hp_start_boottime_ns h \<noteq> None)"
    "\<not> (hp_task_id e = None \<and> hp_task_id h \<noteq> None)"
    using assms by (auto simp: host_covers_def)
  then show ?thesis by (simp only: enrich_host_def Let_def if_False prod.case)
qed

lemma enrich_covered:
  assumes "bm_get (id_records m) i = Some r" and "record_covers r obs"
    and "pr_host r \<noteq> None \<longrightarrow> pr_resolution_state r = Resolved"
  shows "enrich m i obs = Some (m, Ok False)"
proof -
  have "enrich_record_host i r obs = Inr (r, False)"
    using assms(2) host_covers_match
    by (auto simp: enrich_record_host_def record_covers_def enrich_host_covered
        split: option.splits)
  moreover have "enrich_record_namespace r False obs = (r, False)"
    using assms(2) by (auto simp: enrich_record_namespace_def record_covers_def split: option.splits)
  moreover have "(if pr_host r \<noteq> None then r\<lparr>pr_resolution_state := Resolved\<rparr> else r) = r"
    using assms(3) by auto
  ultimately show ?thesis
    using assms(1) by (simp add: enrich_def Let_def bm.insert_same)
qed

lemma index_host_coordinates_same:
  assumes "hp_start_time_ticks h \<noteq> 0
      \<Longrightarrow> bm_get (by_host_start_ticks m) (hp_pid h, hp_start_time_ticks h) = Some i"
    and "\<And>ns. hp_start_boottime_ns h = Some ns
      \<Longrightarrow> bm_get (by_host_start_boottime m) (hp_pid h, ns) = Some i"
  shows "index_host_coordinates m i h = m"
  using assms by (auto simp: index_host_coordinates_def bm.insert_same Let_def split: option.splits)

lemma index_namespace_coordinates_same:
  "(np_start_time_ticks n \<noteq> 0 \<Longrightarrow> bm_get (by_namespace m) n = Some i)
     \<Longrightarrow> index_namespace_coordinates m i n = m"
  by (auto simp: index_namespace_coordinates_def bm.insert_same)

lemma index_observation_same:
  assumes "manager_inv m" and "bm_get (id_records m) i = Some r" and "record_covers r obs"
    and "\<And>h. po_host obs = Some h \<Longrightarrow> bm_get (active_by_host_pid m) (hp_pid h) = Some i"
    and "\<And>n. po_namespace obs = Some n
      \<Longrightarrow> bm_get (active_by_namespace_pid m) (np_pid_namespace n, np_pid n) = Some i"
  shows "index_observation m i obs = (m, [])"
proof -
  note idx = covered_indexed [OF assms(1-3)]
  have "index_host_coordinates m i h = m" if "po_host obs = Some h" for h
    using idx(1,2) [OF that] by (rule index_host_coordinates_same)
  moreover have "index_namespace_coordinates m i n = m" if "po_namespace obs = Some n" for n
    using idx(3) [OF that] by (rule index_namespace_coordinates_same)
  moreover have "bs_to_list (bm_empty :: ProcessIdentity btree_set) = []"
    by (simp add: bs_to_list_def bm_keys_def bm_empty.rep_eq)
  ultimately show ?thesis
    using assms(4,5) unfolding index_observation_def Let_def
    by (simp add: bm.insert_same split: option.split)
qed

text \<open>How a successful call relates to its resolution.\<close>

lemma resolve_Ok:
  assumes inv: "manager_inv m" and ok: "resolve_or_create m obs = Some (m', Inr res)"
  obtains m1 r' where "resolves_to m obs m1 (rs_identity res) r' m'"
    and "rs_displaced_active res = snd (index_observation m1 (rs_identity res) obs)"
    and "rs_created res \<longleftrightarrow> bm_get (id_records m) (rs_identity res) = None"
    and "rs_created res \<longrightarrow> rs_identity res = next_identity m \<and> candidates m obs = bm_empty"
  using inv
proof (cases rule: resolve_cases [of m obs])
  case (enriched i r' m1 m'' c d)
  with ok have "resolves_to m obs m1 (rs_identity res) r' m'"
    "rs_displaced_active res = snd (index_observation m1 (rs_identity res) obs)"
    "\<not> rs_created res" "bm_get (id_records m) (rs_identity res) \<noteq> None"
    by auto
  then show ?thesis by (intro that [of m1 r']) simp_all
next
  case (created m1 m'' d)
  moreover have "bm_get (id_records m) (next_identity m) = None"
    using manager_invD(1) [OF inv] by (rule allocation_ok_fresh)
  ultimately show ?thesis
    using ok that [of m1 "process_record_new (next_identity m) obs"] by simp
qed (use ok in auto)

section \<open>Properties\<close>

text \<open>
  A concrete run for the witnesses: pid 5 is seen with start ticks 7, and later with 9.
\<close>

definition example_seen :: "u64 \<Rightarrow> ProcessObservation" where
  "example_seen ticks = host_observation (host_coordinates_new 5 ticks)"

definition example_manager :: ProcessIdentityManager where
  "example_manager =
     (case resolve_or_create (manager_new 1) (example_seen 7) of
        Some (m, _) \<Rightarrow> m | None \<Rightarrow> manager_new 1)"

definition example_reused :: ProcessIdentityManager where
  "example_reused =
     (case resolve_or_create example_manager (example_seen 9) of
        Some (m, _) \<Rightarrow> m | None \<Rightarrow> example_manager)"

lemma example_outcomes:
  "map_option snd (resolve_or_create (manager_new 1) (example_seen 7))
     = Some (Ok \<lparr>rs_identity = 1, rs_created = True, rs_enriched = False,
         rs_displaced_active = []\<rparr>)"
  "map_option snd (resolve_or_create example_manager (example_seen 9))
     = Some (Ok \<lparr>rs_identity = 2, rs_created = True, rs_enriched = False,
         rs_displaced_active = [1]\<rparr>)"
  by code_simp+

lemma example_first:
  "resolve_or_create (manager_new 1) (example_seen 7)
     = Some (example_manager, Ok \<lparr>rs_identity = 1, rs_created = True, rs_enriched = False,
         rs_displaced_active = []\<rparr>)"
  using example_outcomes(1) by (auto simp: example_manager_def)

lemma example_second:
  "resolve_or_create example_manager (example_seen 9)
     = Some (example_reused, Ok \<lparr>rs_identity = 2, rs_created = True, rs_enriched = False,
         rs_displaced_active = [1]\<rparr>)"
  using example_outcomes(2) by (auto simp: example_reused_def)

lemma example_reachable:
  "manager_reachable (manager_new 1)" "manager_reachable example_manager"
  "manager_reachable example_reused"
proof -
  show new: "manager_reachable (manager_new 1)"
    by (rule reachable_start) (unfold manager_start_def, blast)
  show first: "manager_reachable example_manager"
    using new step_resolve [OF example_first] by (rule reachable_step)
  show "manager_reachable example_reused"
    using first step_resolve [OF example_second] by (rule reachable_step)
qed

definition example_record :: "u64 \<Rightarrow> u64 \<Rightarrow> ProcessRecord" where
  "example_record i ticks = process_record_new i (example_seen ticks)"

lemma example_records:
  "record_of example_manager 1 = Some (example_record 1 7)"
  "record_of example_reused 1 = Some (example_record 1 7)"
  "record_of example_reused 2 = Some (example_record 2 9)"
  by code_simp+

text \<open>
  (C5) Resolving an observation never reaches the panic in \<open>enrich\<close> and never reports
  \<open>IdOverflow\<close>, in any state the manager can reach: every candidate an index returns has
  a record, and the block bound is hit before the counter can overflow.
\<close>

theorem resolve_never_panics:
  assumes "manager_reachable m"
  shows "\<exists>m' out. resolve_or_create m obs = Some (m', out) \<and> out \<noteq> Err IdOverflow
    \<and> manager_reachable m'"
proof -
  have "manager_inv m" using assms by (rule ids.reachable_inv)
  then obtain m' out where "resolve_or_create m obs = Some (m', out)" "out \<noteq> Err IdOverflow"
    by (cases rule: resolve_cases [of m obs]) auto
  moreover from this(1) have "manager_step m m'" by (rule step_resolve)
  ultimately show ?thesis using assms by (blast intro: reachable_step)
qed

theorem resolve_never_panics_witness:
  "\<exists>m' out. resolve_or_create (manager_new 1) (host_observation (host_coordinates_new 5 7))
     = Some (m', out) \<and> out \<noteq> Err IdOverflow \<and> manager_reachable m'"
  by (rule resolve_never_panics) (rule example_reachable)

text \<open>
  (C4) Over the life of an installation, with any number of restarts from records of the manager before,
  a process coordinate belongs to one identity only: two recorded identities never share a host pid with
  the same non-zero start ticks, a host pid with the same boot-time start, or a namespace
  coordinate with non-zero ticks (a coordinate with zero ticks is not known exactly, and no index holds it).
\<close>

theorem identities_are_unique:
  assumes "life_reachable m"
    and "record_of m i = Some r" and "record_of m j = Some r'"
    and "i \<noteq> j"
  shows "ticks_coords r \<inter> ticks_coords r' = {} \<and> boottime_coords r \<inter> boottime_coords r' = {}
      \<and> namespace_coords r \<inter> namespace_coords r' = {}"
  using records_apart [OF life.reachable_inv [OF assms(1)]] assms(2-4) by (simp add: record_of_def)

definition example_restarted :: ProcessIdentityManager where
  "example_restarted = projr (with_reserved_block 100 200 [example_record 1 7, example_record 2 9])"

lemma example_restart:
  "life_reachable example_restarted"
  "record_of example_restarted 1 = Some (example_record 1 7)"
  "record_of example_restarted 2 = Some (example_record 2 9)"
proof -
  have "life_reachable (manager_new 1)" by (rule reachable_start) blast
  then have "life_reachable example_manager"
    by (rule reachable_step) (rule life_call, rule step_resolve [OF example_first])
  then have "life_reachable example_reused"
    by (rule reachable_step) (rule life_call, rule step_resolve [OF example_second])
  moreover have "stored_records example_reused [example_record 1 7, example_record 2 9]"
    using example_records by (auto simp: stored_records_def record_of_def example_record_def process_record_new_def)
  moreover have "next_identity example_reused \<le> 100" by code_simp
  moreover have "\<not> isl (with_reserved_block 100 200 [example_record 1 7, example_record 2 9])" by code_simp
  then have "with_reserved_block 100 200 [example_record 1 7, example_record 2 9] = Inr example_restarted"
    by (simp add: example_restarted_def)
  ultimately show "life_reachable example_restarted"
    by (blast intro: reachable_step life_restart)
  show "record_of example_restarted 1 = Some (example_record 1 7)"
    "record_of example_restarted 2 = Some (example_record 2 9)" by code_simp+
qed

theorem identities_are_unique_witness:
  "ticks_coords (example_record 1 7) \<inter> ticks_coords (example_record 2 9) = {}"
  using identities_are_unique [OF example_restart] by simp

text \<open>
  (C3) Resolving is idempotent: once an observation with any coordinate has been resolved
  to an identity, looking it up returns that identity, and resolving it again returns the
  same identity, creates, enriches and displaces nothing and leaves the manager unchanged.
\<close>

theorem resolve_idempotent:
  assumes "manager_reachable m" and "resolve_or_create m obs = Some (m', Inr res)"
    and "po_host obs \<noteq> None \<or> po_namespace obs \<noteq> None"
  shows "lookup_observation m' obs = Ok (Some (rs_identity res))
    \<and> resolve_or_create m' obs = Some (m', Ok \<lparr>rs_identity = rs_identity res,
        rs_created = False, rs_enriched = False, rs_displaced_active = []\<rparr>)"
proof -
  have inv: "manager_inv m" using assms(1) by (rule ids.reachable_inv)
  from inv assms(2) obtain m1 r' where res: "resolves_to m obs m1 (rs_identity res) r' m'"
    by (rule resolve_Ok)
  let ?i = "rs_identity res"
  have list: "bs_to_list (candidates m' obs) = [?i]"
    by (rule bs_singleton) (rule resolves_to_candidates [OF inv res assms(3)])
  then have first: "bs_first (candidates m' obs) = Some ?i" and len: "bs_len (candidates m' obs) = 1"
    by (simp_all add: bs_first_def bs_len_def)
  note rec = resolves_to_record [OF res]
  have "enrich m' ?i obs = Some (m', Ok False)"
    using res by (intro enrich_covered [OF rec]) (simp add: resolves_to_def)
  moreover have "index_observation m' ?i obs = (m', [])"
    using resolves_to_inv [OF inv res] rec resolves_to_active [OF res]
    by (rule index_observation_same)
  ultimately show ?thesis
    using first len by (simp add: lookup_observation_def resolve_or_create_def)
qed

theorem resolve_idempotent_witness:
  "lookup_observation example_manager (example_seen 7) = Ok (Some 1)
     \<and> resolve_or_create example_manager (example_seen 7)
         = Some (example_manager, Ok \<lparr>rs_identity = 1, rs_created = False,
             rs_enriched = False, rs_displaced_active = []\<rparr>)"
  using resolve_idempotent [OF example_reachable(1) example_first]
  by (simp add: example_seen_def host_observation_def)

text \<open>
  Allocation is fresh and local: a resolution that creates an identity takes the next
  identity of the reserved block, which no record had, for an observation no index knew; and
  every resolution leaves the records of all other identities as they were.
\<close>

theorem resolve_allocates_fresh:
  assumes "manager_reachable m" and "resolve_or_create m obs = Some (m', Inr res)"
  shows "(rs_created res \<longrightarrow> rs_identity res = next_identity m
        \<and> record_of m (rs_identity res) = None \<and> lookup_observation m obs = Ok None
        \<and> record_of m' (rs_identity res) = Some (process_record_new (rs_identity res) obs))
    \<and> (\<forall>j. j \<noteq> rs_identity res \<longrightarrow> record_of m' j = record_of m j)"
proof -
  have inv: "manager_inv m" using assms(1) by (rule ids.reachable_inv)
  from inv show ?thesis
  proof (cases rule: resolve_cases [of m obs])
    case (enriched i r' m1 m'' c d)
    with assms(2) have "\<not> rs_created res" and "rs_identity res = i" and "m'' = m'" by auto
    then show ?thesis using resolves_to_records [OF enriched(2)] by (simp add: record_of_def)
  next
    case (created m1 m'' d)
    moreover have "bm_get (id_records m) (next_identity m) = None"
      using manager_invD(1) [OF inv] by (rule allocation_ok_fresh)
    ultimately show ?thesis
      using assms(2) resolves_to_records [OF created(3)]
      by (simp add: record_of_def lookup_observation_def)
  qed (use assms(2) in auto)
qed

theorem resolve_allocates_fresh_witness:
  "record_of example_manager 2 = None
     \<and> record_of example_reused 2 = Some (process_record_new 2 (example_seen 9))
     \<and> record_of example_reused 1 = record_of example_manager 1"
  using resolve_allocates_fresh [OF example_reachable(2) example_second] by simp

text \<open>
  (C6) Host pid reuse: when a pid is active for one identity and an observation of the same
  pid contradicts that identity's start coordinates, a successful resolution gives another
  identity, makes it the active owner of the pid and reports the old one as displaced.
\<close>

theorem pid_reuse_displaces:
  assumes "manager_reachable m" and "active_host_pid m pid = Some i"
    and "record_of m i = Some r" and "pr_host r = Some h"
    and "po_host obs = Some h'" and "hp_pid h' = pid" and "\<not> host_coordinates_match h h'"
    and "resolve_or_create m obs = Some (m', Inr res)"
  shows "rs_identity res \<noteq> i \<and> active_host_pid m' pid = Some (rs_identity res)
    \<and> i \<in> set (rs_displaced_active res)"
proof -
  have inv: "manager_inv m" using assms(1) by (rule ids.reachable_inv)
  from inv assms(8) obtain m1 r' where res: "resolves_to m obs m1 (rs_identity res) r' m'"
    and disp: "rs_displaced_active res = snd (index_observation m1 (rs_identity res) obs)"
    by (rule resolve_Ok)
  have ne: "rs_identity res \<noteq> i"
  proof
    assume "rs_identity res = i"
    with res assms(3,4) have "record_extends r r'" and "record_covers r' obs"
      by (auto simp: resolves_to_def record_of_def)
    with assms(4,5,7) show False
      by (auto simp: record_extends_def record_covers_def host_covers_def host_coordinates_match_def
          split: option.splits)
  qed
  have act: "active_by_host_pid m1 = active_by_host_pid m"
    using res by (simp add: resolves_to_def writes_record_def)
  have "i \<in> set (snd (index_observation m1 (rs_identity res) obs))"
    using ne assms(2,5,6)
    by (auto simp: index_observation_def active_host_pid_def act Let_def case_prod_beta
        split: option.splits)
  with ne disp resolves_to_active(1) [OF res] assms(5,6) show ?thesis
    by (simp add: active_host_pid_def)
qed

theorem pid_reuse_displaces_witness:
  "active_host_pid example_manager 5 = Some 1 \<and> active_host_pid example_reused 5 = Some 2"
proof -
  have act: "active_host_pid example_manager 5 = Some 1" by code_simp
  have "pr_host (example_record 1 7) = Some (host_coordinates_new 5 7)"
    "po_host (example_seen 9) = Some (host_coordinates_new 5 9)"
    "hp_pid (host_coordinates_new 5 9) = 5"
    "\<not> host_coordinates_match (host_coordinates_new 5 7) (host_coordinates_new 5 9)"
    by code_simp+
  from pid_reuse_displaces [OF example_reachable(2) act example_records(1) this example_second] act
  show ?thesis by simp
qed

text \<open>
  Exit: after an identity is marked as exited no active pid, on the host or in any pid
  namespace, resolves to it, while the active owners that are other identities keep theirs
  and all records stay.
\<close>

theorem exit_clears_active:
  assumes "manager_reachable m" and "mark_identity_exited m i = m'"
  shows "active_host_pid m' p = (if active_host_pid m p = Some i then None else active_host_pid m p)
    \<and> active_namespace_pid m' ns p
        = (if active_namespace_pid m ns p = Some i then None else active_namespace_pid m ns p)
    \<and> record_of m' j = record_of m j"
proof -
  note ex = manager_invD [OF ids.reachable_inv [OF assms(1)]]
  show ?thesis
    using index_soundD [OF ex(5)] index_soundD [OF ex(6)]
    unfolding assms(2) [symmetric] active_host_pid_def active_namespace_pid_def record_of_def
      exit_active_host exit_active_namespace by auto
qed

theorem exit_clears_active_witness:
  "active_host_pid example_reused 5 = Some 2
     \<and> active_host_pid (mark_identity_exited example_reused 2) 5 = None
     \<and> record_of (mark_identity_exited example_reused 2) 2 = record_of example_reused 2"
proof -
  have "active_host_pid example_reused 5 = Some 2" by code_simp
  with exit_clears_active [OF example_reachable(3) refl, of 2 5 "[]" 2] show ?thesis by simp
qed

text \<open>
  Nothing is forgotten: through any further sequence of resolutions, exits and block
  installations, a recorded identity keeps its record, its pid, start ticks, boot-time start
  and task id once known, and all its namespace coordinates.
\<close>

theorem records_persist:
  assumes "manager_reachable m" and "manager_step\<^sup>*\<^sup>* m m'" and "record_of m i = Some r"
  shows "\<exists>r'. record_of m' i = Some r' \<and> record_extends r r'"
  using ids.steps_fwd [OF assms(2) ids.reachable_inv [OF assms(1)]] assms(3)
  by (simp add: manager_fwd_def record_of_def)

theorem records_persist_witness:
  "\<exists>r'. record_of example_reused 1 = Some r' \<and> record_extends (example_record 1 7) r'"
  using example_reachable(2) r_into_rtranclp [where r = manager_step, OF step_resolve [OF example_second]]
    example_records(1)
  by (rule records_persist)

end
