(* ===== verification/Trace_Model.thy ===== *)
theory Trace_Model
  imports Identity
begin

text \<open>
  The shared model of traces: \<open>ids.rs\<close>, \<open>capability.rs\<close>, \<open>process.rs\<close> and
  \<open>trace.rs\<close> of \<open>crates/core/model\<close>. Identifiers and names are newtypes in the source and
  synonyms here; \<open>SystemTime\<close> is an integer count of nanoseconds.
\<close>

section \<open>Identifiers\<close>

type_synonym TraceId = u64
type_synonym EventId = u64
type_synonym DiagnosticId = u64
type_synonym OtelTraceId = "u8 list"
type_synonym TraceAlertToken = "u8 list"
type_synonym ProfileName = string
type_synonym CollectorName = string
type_synonym TraceName = string

definition otel_trace_id_from_bytes :: "u8 list \<Rightarrow> OtelTraceId option" where
  "otel_trace_id_from_bytes bytes = (if bytes \<noteq> replicate 16 0 then Some bytes else None)"

definition otel_trace_id_from_slice :: "u8 list \<Rightarrow> OtelTraceId option" where
  "otel_trace_id_from_slice bytes =
     (if length bytes = 16 then otel_trace_id_from_bytes bytes else None)"

definition alert_token_from_slice :: "u8 list \<Rightarrow> TraceAlertToken option" where
  "alert_token_from_slice bytes = (if length bytes = 32 then Some bytes else None)"

section \<open>Capabilities\<close>

datatype Capability =
    ProcLifecycle | ProcExecContext | FsAccessBasic | FsMmap | FsExecAccess | NetTransport
     | NetDns | NetTlsMetadata | NetProviderClassification | NetApplicationPlaintextHttp
     | NetApplicationHttp2Frames | NetApplicationPlaintextWs | TlsPlaintextPayload
     | SocketPlaintextPayload | ResourceMetrics | IpcUnixSocket | IpcPipeFifo | StdioChunk
     | PolicyIngestProcessing | PolicyDecisionRecord | EnforcementFilePermissionFanotify
     | EnforcementFileMkdirSeccomp | EnforcementFileRmdirSeccomp
     | EnforcementCommandExecutionSeccomp | EnforcementNetworkConnectSeccomp
     | EnforcementFilePermissionLsm | EnforcementCommandExecutionLsm
     | EnforcementNetworkConnectLsm

text \<open>The derived order of the enumeration: by position of the variant.\<close>

primrec capability_rank :: "Capability \<Rightarrow> nat" where
  "capability_rank ProcLifecycle = 0"
| "capability_rank ProcExecContext = 1"
| "capability_rank FsAccessBasic = 2"
| "capability_rank FsMmap = 3"
| "capability_rank FsExecAccess = 4"
| "capability_rank NetTransport = 5"
| "capability_rank NetDns = 6"
| "capability_rank NetTlsMetadata = 7"
| "capability_rank NetProviderClassification = 8"
| "capability_rank NetApplicationPlaintextHttp = 9"
| "capability_rank NetApplicationHttp2Frames = 10"
| "capability_rank NetApplicationPlaintextWs = 11"
| "capability_rank TlsPlaintextPayload = 12"
| "capability_rank SocketPlaintextPayload = 13"
| "capability_rank ResourceMetrics = 14"
| "capability_rank IpcUnixSocket = 15"
| "capability_rank IpcPipeFifo = 16"
| "capability_rank StdioChunk = 17"
| "capability_rank PolicyIngestProcessing = 18"
| "capability_rank PolicyDecisionRecord = 19"
| "capability_rank EnforcementFilePermissionFanotify = 20"
| "capability_rank EnforcementFileMkdirSeccomp = 21"
| "capability_rank EnforcementFileRmdirSeccomp = 22"
| "capability_rank EnforcementCommandExecutionSeccomp = 23"
| "capability_rank EnforcementNetworkConnectSeccomp = 24"
| "capability_rank EnforcementFilePermissionLsm = 25"
| "capability_rank EnforcementCommandExecutionLsm = 26"
| "capability_rank EnforcementNetworkConnectLsm = 27"

definition all_capabilities :: "Capability list" where
  "all_capabilities =
     [ProcLifecycle, ProcExecContext, FsAccessBasic, FsMmap, FsExecAccess, NetTransport, NetDns
     , NetTlsMetadata, NetProviderClassification, NetApplicationPlaintextHttp
     , NetApplicationHttp2Frames, NetApplicationPlaintextWs, TlsPlaintextPayload
     , SocketPlaintextPayload, ResourceMetrics, IpcUnixSocket, IpcPipeFifo, StdioChunk
     , PolicyIngestProcessing, PolicyDecisionRecord, EnforcementFilePermissionFanotify
     , EnforcementFileMkdirSeccomp, EnforcementFileRmdirSeccomp
     , EnforcementCommandExecutionSeccomp, EnforcementNetworkConnectSeccomp
     , EnforcementFilePermissionLsm, EnforcementCommandExecutionLsm, EnforcementNetworkConnectLsm]"

lemma all_capabilities_rank: "all_capabilities ! capability_rank c = c"
  by (cases c) (simp_all add: all_capabilities_def)

lemma capability_rank_inject [simp]: "capability_rank c = capability_rank d \<longleftrightarrow> c = d"
  by (metis all_capabilities_rank)

instantiation Capability :: linorder
begin

definition less_eq_Capability :: "Capability \<Rightarrow> Capability \<Rightarrow> bool" where
  "less_eq_Capability c d \<longleftrightarrow> capability_rank c \<le> capability_rank d"

definition less_Capability :: "Capability \<Rightarrow> Capability \<Rightarrow> bool" where
  "less_Capability c d \<longleftrightarrow> capability_rank c < capability_rank d"

instance
  by standard (auto simp: less_eq_Capability_def less_Capability_def)

end

primrec capability_as_str :: "Capability \<Rightarrow> string" where
  "capability_as_str ProcLifecycle = ''proc-lifecycle''"
| "capability_as_str ProcExecContext = ''proc-exec-context''"
| "capability_as_str FsAccessBasic = ''fs-access-basic''"
| "capability_as_str FsMmap = ''fs-mmap''"
| "capability_as_str FsExecAccess = ''fs-exec-access''"
| "capability_as_str NetTransport = ''net-transport''"
| "capability_as_str NetDns = ''net-dns''"
| "capability_as_str NetTlsMetadata = ''net-tls-metadata''"
| "capability_as_str NetProviderClassification = ''net-provider-classification''"
| "capability_as_str NetApplicationPlaintextHttp = ''net-application-plaintext-http''"
| "capability_as_str NetApplicationHttp2Frames = ''net-application-http2-frames''"
| "capability_as_str NetApplicationPlaintextWs = ''net-application-plaintext-ws''"
| "capability_as_str TlsPlaintextPayload = ''tls-plaintext-payload''"
| "capability_as_str SocketPlaintextPayload = ''socket-plaintext-payload''"
| "capability_as_str ResourceMetrics = ''resource-metrics''"
| "capability_as_str IpcUnixSocket = ''ipc-unix-socket''"
| "capability_as_str IpcPipeFifo = ''ipc-pipe-fifo''"
| "capability_as_str StdioChunk = ''stdio-chunk''"
| "capability_as_str PolicyIngestProcessing = ''policy-ingest-processing''"
| "capability_as_str PolicyDecisionRecord = ''policy-decision-record''"
| "capability_as_str EnforcementFileMkdirSeccomp = ''enforcement-file-mkdir-seccomp''"
| "capability_as_str EnforcementFileRmdirSeccomp = ''enforcement-file-rmdir-seccomp''"
| "capability_as_str EnforcementFilePermissionFanotify = ''enforcement-file-permission-fanotify''"
| "capability_as_str EnforcementCommandExecutionSeccomp = ''enforcement-command-execution-seccomp''"
| "capability_as_str EnforcementNetworkConnectSeccomp = ''enforcement-network-connect-seccomp''"
| "capability_as_str EnforcementFilePermissionLsm = ''enforcement-file-permission-lsm''"
| "capability_as_str EnforcementCommandExecutionLsm = ''enforcement-command-execution-lsm''"
| "capability_as_str EnforcementNetworkConnectLsm = ''enforcement-network-connect-lsm''"

definition capability_from_str :: "string \<Rightarrow> string + Capability" where
  "capability_from_str value =
     (if value = ''proc-lifecycle'' then Ok ProcLifecycle
     else if value = ''proc-exec-context'' then Ok ProcExecContext
     else if value = ''fs-access-basic'' then Ok FsAccessBasic
     else if value = ''fs-mmap'' then Ok FsMmap
     else if value = ''fs-exec-access'' then Ok FsExecAccess
     else if value = ''net-transport'' then Ok NetTransport
     else if value = ''net-dns'' then Ok NetDns
     else if value = ''net-tls-metadata'' then Ok NetTlsMetadata
     else if value = ''net-provider-classification'' then Ok NetProviderClassification
     else if value = ''net-application-plaintext-http'' then Ok NetApplicationPlaintextHttp
     else if value = ''net-application-http2-frames'' then Ok NetApplicationHttp2Frames
     else if value = ''net-application-plaintext-ws'' then Ok NetApplicationPlaintextWs
     else if value = ''tls-plaintext-payload'' then Ok TlsPlaintextPayload
     else if value = ''socket-plaintext-payload'' then Ok SocketPlaintextPayload
     else if value = ''resource-metrics'' then Ok ResourceMetrics
     else if value = ''ipc-unix-socket'' then Ok IpcUnixSocket
     else if value = ''ipc-pipe-fifo'' then Ok IpcPipeFifo
     else if value = ''stdio-chunk'' then Ok StdioChunk
     else if value = ''policy-ingest-processing'' then Ok PolicyIngestProcessing
     else if value = ''policy-decision-record'' then Ok PolicyDecisionRecord
     else if value = ''enforcement-file-mkdir-seccomp'' then Ok EnforcementFileMkdirSeccomp
     else if value = ''enforcement-file-rmdir-seccomp'' then Ok EnforcementFileRmdirSeccomp
     else if value = ''enforcement-file-permission-fanotify'' then Ok EnforcementFilePermissionFanotify
     else if value = ''enforcement-command-execution-seccomp'' then Ok EnforcementCommandExecutionSeccomp
     else if value = ''enforcement-network-connect-seccomp'' then Ok EnforcementNetworkConnectSeccomp
     else if value = ''enforcement-file-permission-lsm'' then Ok EnforcementFilePermissionLsm
     else if value = ''enforcement-command-execution-lsm'' then Ok EnforcementCommandExecutionLsm
     else if value = ''enforcement-network-connect-lsm'' then Ok EnforcementNetworkConnectLsm
     else Err (''unknown capability '' @ value))"

datatype RequestMode = Required | Opportunistic | Disabled

datatype GuaranteeClass =
    GuaranteedByTransportCollector | AvailableWhenMetadataObservable | RequiresPayloadCollector

record CapabilityRequest =
  cr_capability :: Capability
  cr_mode :: RequestMode

record CapabilityField =
  cf_name :: string
  cf_guarantee :: GuaranteeClass
  cf_note :: "string option"

record CapabilityDescriptor =
  cd_capability :: Capability
  cd_fields :: "CapabilityField list"

type_synonym CapabilitySet = "Capability btree_set"

definition capability_set_new :: "Capability list \<Rightarrow> CapabilitySet" where
  "capability_set_new values = bs_of_list values"

definition capability_set_contains :: "CapabilitySet \<Rightarrow> Capability \<Rightarrow> bool" where
  "capability_set_contains s c = bs_contains s c"

definition missing_from :: "CapabilitySet \<Rightarrow> CapabilityRequest list \<Rightarrow> CapabilityRequest list" where
  "missing_from s requested =
     filter (\<lambda>request. \<not> capability_set_contains s (cr_capability request)) requested"

record CollectorDescriptor =
  cd_name :: CollectorName
  cd_capabilities :: "CapabilityDescriptor list"
  cd_supports_attach_coverage_guard :: bool
  cd_supports_existing_pid_attach :: bool

definition capability_set :: "CollectorDescriptor \<Rightarrow> CapabilitySet" where
  "capability_set d = capability_set_new (map cd_capability (cd_capabilities d))"

record CaptureProfileSnapshot =
  cp_profile_name :: ProfileName
  cp_captured_at :: SystemTime
  cp_capability_requests :: "CapabilityRequest list"
  cp_agent_descendant_observation_depth :: i32
  cp_classify_providers :: bool
  cp_enable_payload_collectors :: bool

section \<open>Memberships\<close>

datatype MembershipState = Starting | Active | Exited | IdentityStale

datatype ExitObservationSource = Event | Reconciled

record ExitStatus =
  es_code :: "i32 option"
  es_observed_at :: SystemTime
  es_source :: "ExitObservationSource option"

record ProcessMembership =
  pm_trace_id :: TraceId
  pm_identity :: ProcessIdentity
  pm_inherited_from :: "ProcessIdentity option"
  pm_observed_at :: "SystemTime option"
  pm_capture_enabled :: bool
  pm_propagation_enabled :: bool
  pm_state :: MembershipState
  pm_exit_status :: "ExitStatus option"

definition membership_root ::
    "TraceId \<Rightarrow> ProcessIdentity \<Rightarrow> SystemTime \<Rightarrow> ProcessMembership" where
  "membership_root trace identity at =
     \<lparr>pm_trace_id = trace, pm_identity = identity, pm_inherited_from = None,
      pm_observed_at = Some at, pm_capture_enabled = True, pm_propagation_enabled = True,
      pm_state = MembershipState.Starting, pm_exit_status = None\<rparr>"

definition membership_inherited ::
    "TraceId \<Rightarrow> ProcessIdentity \<Rightarrow> ProcessIdentity \<Rightarrow> SystemTime \<Rightarrow> ProcessMembership" where
  "membership_inherited trace identity from at =
     \<lparr>pm_trace_id = trace, pm_identity = identity, pm_inherited_from = Some from,
      pm_observed_at = Some at, pm_capture_enabled = True, pm_propagation_enabled = True,
      pm_state = MembershipState.Starting, pm_exit_status = None\<rparr>"

definition membership_observed ::
    "TraceId \<Rightarrow> ProcessIdentity \<Rightarrow> SystemTime \<Rightarrow> ProcessMembership" where
  "membership_observed trace identity at =
     \<lparr>pm_trace_id = trace, pm_identity = identity, pm_inherited_from = None,
      pm_observed_at = Some at, pm_capture_enabled = True, pm_propagation_enabled = True,
      pm_state = MembershipState.Starting, pm_exit_status = None\<rparr>"

definition membership_activate :: "ProcessMembership \<Rightarrow> ProcessMembership" where
  "membership_activate m = m\<lparr>pm_state := MembershipState.Active\<rparr>"

definition disable_capture :: "ProcessMembership \<Rightarrow> ProcessMembership" where
  "disable_capture m = m\<lparr>pm_capture_enabled := False\<rparr>"

definition disable_propagation :: "ProcessMembership \<Rightarrow> ProcessMembership" where
  "disable_propagation m = m\<lparr>pm_propagation_enabled := False\<rparr>"

definition can_inherit :: "ProcessMembership \<Rightarrow> bool" where
  "can_inherit m \<longleftrightarrow>
     pm_capture_enabled m \<and> pm_propagation_enabled m
     \<and> (pm_state m = MembershipState.Starting \<or> pm_state m = MembershipState.Active)"

definition membership_mark_exited :: "ProcessMembership \<Rightarrow> ExitStatus \<Rightarrow> ProcessMembership" where
  "membership_mark_exited m status =
     m\<lparr>pm_state := MembershipState.Exited, pm_exit_status := Some status\<rparr>"

definition mark_identity_stale :: "ProcessMembership \<Rightarrow> ProcessMembership" where
  "mark_identity_stale m = m\<lparr>pm_state := IdentityStale\<rparr>"

section \<open>Trace records\<close>

datatype TraceLifecycleState = Starting | Active | Draining | Completed | Exited | Failed

primrec as_storage_str :: "TraceLifecycleState \<Rightarrow> string" where
  "as_storage_str TraceLifecycleState.Starting = ''starting''"
| "as_storage_str TraceLifecycleState.Active = ''active''"
| "as_storage_str Draining = ''draining''"
| "as_storage_str Completed = ''completed''"
| "as_storage_str TraceLifecycleState.Exited = ''exited''"
| "as_storage_str Failed = ''failed''"

definition from_storage_str :: "string \<Rightarrow> TraceLifecycleState option" where
  "from_storage_str raw =
     (if raw = ''starting'' then Some TraceLifecycleState.Starting
      else if raw = ''active'' then Some TraceLifecycleState.Active
      else if raw = ''draining'' then Some Draining
      else if raw = ''completed'' then Some Completed
      else if raw = ''exited'' then Some TraceLifecycleState.Exited
      else if raw = ''failed'' then Some Failed
      else None)"

primrec as_display_str :: "TraceLifecycleState \<Rightarrow> string" where
  "as_display_str TraceLifecycleState.Starting = ''Starting''"
| "as_display_str TraceLifecycleState.Active = ''Active''"
| "as_display_str Draining = ''Draining''"
| "as_display_str Completed = ''Completed''"
| "as_display_str TraceLifecycleState.Exited = ''Exited''"
| "as_display_str Failed = ''Failed''"

definition from_display_str :: "string \<Rightarrow> TraceLifecycleState option" where
  "from_display_str raw =
     (if raw = ''Starting'' then Some TraceLifecycleState.Starting
      else if raw = ''Active'' then Some TraceLifecycleState.Active
      else if raw = ''Draining'' then Some Draining
      else if raw = ''Completed'' then Some Completed
      else if raw = ''Exited'' then Some TraceLifecycleState.Exited
      else if raw = ''Failed'' then Some Failed
      else None)"

fun is_terminal :: "TraceLifecycleState \<Rightarrow> bool" where
  "is_terminal Completed = True"
| "is_terminal TraceLifecycleState.Exited = True"
| "is_terminal Failed = True"
| "is_terminal _ = False"

fun is_active_or_draining :: "TraceLifecycleState \<Rightarrow> bool" where
  "is_active_or_draining TraceLifecycleState.Starting = True"
| "is_active_or_draining TraceLifecycleState.Active = True"
| "is_active_or_draining Draining = True"
| "is_active_or_draining _ = False"

datatype TraceHealth = Clean | Degraded

record TraceTiming =
  tt_created_at :: SystemTime
  tt_started_at :: "SystemTime option"
  tt_completed_at :: "SystemTime option"
  tt_exited_at :: "SystemTime option"
  tt_failed_at :: "SystemTime option"

definition trace_timing_new :: "SystemTime \<Rightarrow> TraceTiming" where
  "trace_timing_new created_at =
     \<lparr>tt_created_at = created_at, tt_started_at = None, tt_completed_at = None,
      tt_exited_at = None, tt_failed_at = None\<rparr>"

record TraceRecord =
  tr_trace_id :: TraceId
  tr_otel_trace_id :: OtelTraceId
  tr_alert_token :: TraceAlertToken
  tr_root_process_identity :: ProcessIdentity
  tr_root_pid_namespace :: "NamespaceIdentity option"
  tr_root_container_id :: "string option"
  tr_root_pod_uid :: "string option"
  tr_root_host_id :: "string option"
  tr_root_working_directory :: "string option"
  tr_display_name :: TraceName
  tr_profile_name :: ProfileName
  tr_tags :: "string btree_set"
  tr_lifecycle_state :: TraceLifecycleState
  tr_health :: TraceHealth
  tr_timings :: TraceTiming

definition trace_record_new ::
    "TraceId \<Rightarrow> OtelTraceId \<Rightarrow> TraceAlertToken \<Rightarrow> ProcessIdentity \<Rightarrow> TraceName
      \<Rightarrow> ProfileName \<Rightarrow> SystemTime \<Rightarrow> TraceRecord" where
  "trace_record_new trace_id otel_trace_id alert_token root display_name profile_name created_at =
     \<lparr>tr_trace_id = trace_id, tr_otel_trace_id = otel_trace_id, tr_alert_token = alert_token,
      tr_root_process_identity = root, tr_root_pid_namespace = None, tr_root_container_id = None,
      tr_root_pod_uid = None, tr_root_host_id = None, tr_root_working_directory = None,
      tr_display_name = display_name, tr_profile_name = profile_name, tr_tags = bm_empty,
      tr_lifecycle_state = TraceLifecycleState.Starting, tr_health = Clean,
      tr_timings = trace_timing_new created_at\<rparr>"

definition add_tag :: "TraceRecord \<Rightarrow> string \<Rightarrow> TraceRecord" where
  "add_tag t tag = t\<lparr>tr_tags := bs_insert tag (tr_tags t)\<rparr>"

section \<open>Spelling round trips\<close>

lemma capability_from_as_str: "capability_from_str (capability_as_str c) = Ok c"
  by (cases c) (simp_all add: capability_from_str_def)

lemma capability_as_from_str:
  "capability_from_str v = Ok c \<Longrightarrow> capability_as_str c = v"
  unfolding capability_from_str_def
  by (auto split: if_split_asm)

lemma lifecycle_spelling:
  "from_storage_str raw = Some s \<longleftrightarrow> raw = as_storage_str s"
  "from_display_str raw = Some s \<longleftrightarrow> raw = as_display_str s"
  by (cases s; auto simp: from_storage_str_def from_display_str_def)+

lemma lifecycle_partition: "is_terminal s \<longleftrightarrow> \<not> is_active_or_draining s"
  by (cases s) simp_all

end
