(* ===== verification/Trace_Runtime.thy ===== *)
theory Trace_Runtime
  imports Trace_Model
begin

text \<open>
  The trace runtime, \<open>crates/core/trace_runtime\<close>: the lifecycle state machine of one trace
  (\<open>state_machine.rs\<close>), its membership index (\<open>membership.rs\<close>), the negotiation of a sensor
  plan (\<open>sensor_plan.rs\<close>) and the registry of traces (\<open>registry.rs\<close>). An operation that
  takes \<open>&mut self\<close> and returns a \<open>Result\<close> is a function to the new runtime and the result,
  because some of them change the runtime before they fail.
\<close>

section \<open>Lifecycle transitions\<close>

record StateTransitionError =
  st_from :: TraceLifecycleState
  st_to :: TraceLifecycleState

fun transition_allowed :: "TraceLifecycleState \<Rightarrow> TraceLifecycleState \<Rightarrow> bool" where
  "transition_allowed TraceLifecycleState.Starting TraceLifecycleState.Active = True"
| "transition_allowed TraceLifecycleState.Starting Failed = True"
| "transition_allowed TraceLifecycleState.Active Draining = True"
| "transition_allowed TraceLifecycleState.Active Completed = True"
| "transition_allowed TraceLifecycleState.Active TraceLifecycleState.Exited = True"
| "transition_allowed TraceLifecycleState.Active Failed = True"
| "transition_allowed Draining Completed = True"
| "transition_allowed Draining TraceLifecycleState.Exited = True"
| "transition_allowed Draining Failed = True"
| "transition_allowed _ _ = False"

definition require_transition ::
    "TraceLifecycleState \<Rightarrow> TraceLifecycleState \<Rightarrow> StateTransitionError + unit" where
  "require_transition from to =
     (if transition_allowed from to then Ok () else Err \<lparr>st_from = from, st_to = to\<rparr>)"

definition start_trace :: "TraceRecord \<Rightarrow> SystemTime \<Rightarrow> StateTransitionError + TraceRecord" where
  "start_trace trace started_at =
     (case require_transition (tr_lifecycle_state trace) TraceLifecycleState.Active of
        Inl e \<Rightarrow> Err e
      | Inr _ \<Rightarrow> Ok (trace\<lparr>tr_lifecycle_state := TraceLifecycleState.Active,
                  tr_timings := (tr_timings trace)\<lparr>tt_started_at := Some started_at\<rparr>\<rparr>))"

definition begin_draining :: "TraceRecord \<Rightarrow> SystemTime \<Rightarrow> StateTransitionError + TraceRecord" where
  "begin_draining trace draining_at =
     (case require_transition (tr_lifecycle_state trace) Draining of
        Inl e \<Rightarrow> Err e
      | Inr _ \<Rightarrow> Ok (trace\<lparr>tr_lifecycle_state := Draining\<rparr>))"

definition complete_trace :: "TraceRecord \<Rightarrow> SystemTime \<Rightarrow> StateTransitionError + TraceRecord" where
  "complete_trace trace completed_at =
     (case require_transition (tr_lifecycle_state trace) Completed of
        Inl e \<Rightarrow> Err e
      | Inr _ \<Rightarrow> Ok (trace\<lparr>tr_lifecycle_state := Completed,
                  tr_timings := (tr_timings trace)\<lparr>tt_completed_at := Some completed_at\<rparr>\<rparr>))"

definition exit_trace :: "TraceRecord \<Rightarrow> SystemTime \<Rightarrow> StateTransitionError + TraceRecord" where
  "exit_trace trace exited_at =
     (case require_transition (tr_lifecycle_state trace) TraceLifecycleState.Exited of
        Inl e \<Rightarrow> Err e
      | Inr _ \<Rightarrow> Ok (trace\<lparr>tr_lifecycle_state := TraceLifecycleState.Exited,
                  tr_timings := (tr_timings trace)\<lparr>tt_exited_at := Some exited_at\<rparr>\<rparr>))"

definition fail_trace_record ::
    "TraceRecord \<Rightarrow> SystemTime \<Rightarrow> StateTransitionError + TraceRecord" where
  "fail_trace_record trace failed_at =
     (case require_transition (tr_lifecycle_state trace) Failed of
        Inl e \<Rightarrow> Err e
      | Inr _ \<Rightarrow> Ok (trace\<lparr>tr_lifecycle_state := Failed,
                  tr_timings := (tr_timings trace)\<lparr>tt_failed_at := Some failed_at\<rparr>\<rparr>))"

definition degrade_trace :: "TraceRecord \<Rightarrow> TraceRecord" where
  "degrade_trace trace = trace\<lparr>tr_health := Degraded\<rparr>"

section \<open>Membership index\<close>

type_synonym MembershipIndex = "(ProcessIdentity, ProcessMembership) btree_map"

definition membership_index_new :: "ProcessMembership \<Rightarrow> MembershipIndex" where
  "membership_index_new root = bm_insert (pm_identity root) root bm_empty"

definition membership_insert :: "MembershipIndex \<Rightarrow> ProcessMembership \<Rightarrow> MembershipIndex" where
  "membership_insert ms m = bm_insert (pm_identity m) m ms"

definition activate_all :: "MembershipIndex \<Rightarrow> MembershipIndex" where
  "activate_all ms = bm_map_values membership_activate ms"

definition capturable :: "ProcessMembership \<Rightarrow> bool" where
  "capturable m \<longleftrightarrow> pm_capture_enabled m
     \<and> (pm_state m = MembershipState.Starting \<or> pm_state m = MembershipState.Active)"

definition has_capturable_members :: "MembershipIndex \<Rightarrow> bool" where
  "has_capturable_members ms = list_ex capturable (bm_values ms)"

section \<open>Sensor plan\<close>

record CollectorPlan =
  cl_collector_name :: CollectorName
  cl_capabilities :: "Capability list"

record SensorPlan =
  sp_profile_name :: ProfileName
  sp_collectors :: "CollectorPlan list"
  sp_unbound_opportunistic :: "Capability list"

record NegotiationFailure =
  nf_capability :: Capability
  nf_detail :: string

type_synonym Bindings = "(CollectorName, Capability list) btree_map"

definition push_binding :: "Bindings \<Rightarrow> CollectorName \<Rightarrow> Capability \<Rightarrow> Bindings" where
  "push_binding bindings name cap =
     bm_insert name ((case bm_get bindings name of None \<Rightarrow> [] | Some cs \<Rightarrow> cs) @ [cap]) bindings"

definition supporting_collector ::
    "CollectorDescriptor list \<Rightarrow> Capability \<Rightarrow> CollectorDescriptor option" where
  "supporting_collector collectors cap =
     find (\<lambda>collector. capability_set_contains (capability_set collector) cap) collectors"

fun negotiate_requests ::
    "CollectorDescriptor list \<Rightarrow> CapabilityRequest list
      \<Rightarrow> Bindings \<times> NegotiationFailure list \<times> Capability list
      \<Rightarrow> Bindings \<times> NegotiationFailure list \<times> Capability list" where
  "negotiate_requests collectors [] acc = acc"
| "negotiate_requests collectors (request # rest) (bindings, missing, unbound) =
     negotiate_requests collectors rest
       (case (cr_mode request, supporting_collector collectors (cr_capability request)) of
          (Disabled, _) \<Rightarrow> (bindings, missing, unbound)
        | (_, Some collector) \<Rightarrow>
            (push_binding bindings (cd_name collector) (cr_capability request), missing, unbound)
        | (Required, None) \<Rightarrow>
            (bindings,
             missing @ [\<lparr>nf_capability = cr_capability request,
                         nf_detail = ''no collector declared support''\<rparr>],
             unbound)
        | (Opportunistic, None) \<Rightarrow> (bindings, missing, unbound @ [cr_capability request]))"

definition sensor_plan_negotiate ::
    "CaptureProfileSnapshot \<Rightarrow> CollectorDescriptor list
      \<Rightarrow> NegotiationFailure list + SensorPlan" where
  "sensor_plan_negotiate profile collectors =
     (let (bindings, missing, unbound) =
            negotiate_requests collectors (cp_capability_requests profile) (bm_empty, [], [])
      in if missing \<noteq> [] then Err missing
         else Ok \<lparr>sp_profile_name = cp_profile_name profile,
                  sp_collectors = map (\<lambda>(name, caps).
                    \<lparr>cl_collector_name = name, cl_capabilities = caps\<rparr>) (bm_entries bindings),
                  sp_unbound_opportunistic = unbound\<rparr>)"

section \<open>Registry\<close>

record TrackTraceRequest =
  tq_root_identity :: ProcessIdentity
  tq_root_pid_namespace :: "NamespaceIdentity option"
  tq_root_container_id :: "string option"
  tq_root_pod_uid :: "string option"
  tq_root_host_id :: "string option"
  tq_root_working_directory :: "string option"
  tq_display_name :: TraceName
  tq_profile_snapshot :: CaptureProfileSnapshot
  tq_tags :: "string btree_set"
  tq_created_at :: SystemTime

record RootRemovalRequest =
  rr_trace_id :: TraceId
  rr_removed_at :: SystemTime

record TraceOwnerPrincipal =
  to_uid :: u32
  to_pid_namespace :: string
  to_mount_namespace :: string
  to_host_pid_namespace :: bool
  to_host_mount_namespace :: bool

record TraceEntry =
  te_trace :: TraceRecord
  te_profile_snapshot :: CaptureProfileSnapshot
  te_sensor_plan :: SensorPlan
  te_memberships :: MembershipIndex
  te_owner :: "TraceOwnerPrincipal option"

datatype RegistryError =
    TraceNotFound TraceId
  | NegotiationFailed "NegotiationFailure list"
  | RootMembershipMissing TraceId
  | OwnerAlreadyBound TraceId
  | ParentMembershipMissing ProcessIdentity
  | PropagationDisabled ProcessIdentity
  | InvalidStateTransition StateTransitionError
  | TraceIdentityGenerationFailed string

record TraceRuntime =
  next_trace_id :: u64
  collectors :: "CollectorDescriptor list"
  traces :: "(TraceId, TraceEntry) btree_map"

definition trace_runtime_new :: "CollectorDescriptor list \<Rightarrow> u64 \<Rightarrow> TraceRuntime" where
  "trace_runtime_new cs initial_trace_id =
     \<lparr>next_trace_id = initial_trace_id, collectors = cs, traces = bm_empty\<rparr>"

text \<open>The addition wraps, as it does in a build with optimisation; a debug build panics there.\<close>

definition reserve_trace_id :: "TraceRuntime \<Rightarrow> TraceRuntime \<times> TraceId" where
  "reserve_trace_id rt = (rt\<lparr>next_trace_id := next_trace_id rt + 1\<rparr>, next_trace_id rt)"

definition runtime_negotiate ::
    "TraceRuntime \<Rightarrow> CaptureProfileSnapshot \<Rightarrow> RegistryError + SensorPlan" where
  "runtime_negotiate rt snapshot =
     map_err NegotiationFailed (sensor_plan_negotiate snapshot (collectors rt))"

text \<open>
  The two buffers that \<open>getrandom::fill\<close> writes are arguments: each call either fails with
  a message or returns the filled buffer. The second is stamped as a random UUID.
\<close>

definition stamp_uuid :: "u8 list \<Rightarrow> u8 list" where
  "stamp_uuid b = (let b1 = b[6 := or (and (b ! 6) 0x0f) 0x40]
                   in b1[8 := or (and (b1 ! 8) 0x3f) 0x80])"

definition put_entry :: "TraceRuntime \<Rightarrow> TraceId \<Rightarrow> TraceEntry \<Rightarrow> TraceRuntime" where
  "put_entry rt trace_id entry = rt\<lparr>traces := bm_insert trace_id entry (traces rt)\<rparr>"

definition tracked_record ::
    "TraceId \<Rightarrow> TrackTraceRequest \<Rightarrow> OtelTraceId \<Rightarrow> TraceAlertToken \<Rightarrow> TraceRecord" where
  "tracked_record trace_id request otel alert_token =
     foldl add_tag
       ((trace_record_new trace_id otel alert_token (tq_root_identity request)
          (tq_display_name request) (cp_profile_name (tq_profile_snapshot request))
          (tq_created_at request))
        \<lparr>tr_root_pid_namespace := tq_root_pid_namespace request,
         tr_root_container_id := tq_root_container_id request,
         tr_root_pod_uid := tq_root_pod_uid request,
         tr_root_host_id := tq_root_host_id request,
         tr_root_working_directory := tq_root_working_directory request\<rparr>)
       (bs_to_list (tq_tags request))"

definition create_starting_trace ::
    "string + u8 list \<Rightarrow> string + u8 list \<Rightarrow> TraceRuntime \<Rightarrow> TraceId \<Rightarrow> TrackTraceRequest
      \<Rightarrow> SensorPlan \<Rightarrow> TraceRuntime \<times> (RegistryError + unit)" where
  "create_starting_trace token_fill otel_fill rt trace_id request plan =
     (case token_fill of
        Inl e \<Rightarrow> (rt, Err (TraceIdentityGenerationFailed e))
      | Inr alert_token \<Rightarrow>
     (case otel_fill of
        Inl e \<Rightarrow> (rt, Err (TraceIdentityGenerationFailed e))
      | Inr bytes \<Rightarrow>
     (case otel_trace_id_from_bytes (stamp_uuid bytes) of
        None \<Rightarrow> (rt, Err (TraceIdentityGenerationFailed
                            ''generated OTLP trace identity is all zero''))
      | Some otel \<Rightarrow>
          (put_entry rt trace_id
             \<lparr>te_trace = tracked_record trace_id request otel alert_token,
              te_profile_snapshot = tq_profile_snapshot request,
              te_sensor_plan = plan,
              te_memberships = membership_index_new
                (membership_root trace_id (tq_root_identity request) (tq_created_at request)),
              te_owner = None\<rparr>,
           Ok ()))))"

definition bind_trace_owner ::
    "TraceRuntime \<Rightarrow> TraceId \<Rightarrow> TraceOwnerPrincipal \<Rightarrow> TraceRuntime \<times> (RegistryError + unit)" where
  "bind_trace_owner rt trace_id owner =
     (case bm_get (traces rt) trace_id of
        None \<Rightarrow> (rt, Err (TraceNotFound trace_id))
      | Some entry \<Rightarrow>
          if te_owner entry \<noteq> None then (rt, Err (OwnerAlreadyBound trace_id))
          else (put_entry rt trace_id (entry\<lparr>te_owner := Some owner\<rparr>), Ok ()))"

definition activate_trace ::
    "TraceRuntime \<Rightarrow> TraceId \<Rightarrow> SystemTime \<Rightarrow> TraceRuntime \<times> (RegistryError + unit)" where
  "activate_trace rt trace_id started_at =
     (case bm_get (traces rt) trace_id of
        None \<Rightarrow> (rt, Err (TraceNotFound trace_id))
      | Some entry \<Rightarrow>
          (let entry' = entry\<lparr>te_memberships := activate_all (te_memberships entry)\<rparr>
           in case start_trace (te_trace entry') started_at of
                Inl e \<Rightarrow> (put_entry rt trace_id entry', Err (InvalidStateTransition e))
              | Inr t \<Rightarrow> (put_entry rt trace_id (entry'\<lparr>te_trace := t\<rparr>), Ok ())))"

definition insert_membership ::
    "TraceRuntime \<Rightarrow> TraceId \<Rightarrow> ProcessMembership \<Rightarrow> TraceRuntime \<times> (RegistryError + unit)" where
  "insert_membership rt trace_id membership =
     (case bm_get (traces rt) trace_id of
        None \<Rightarrow> (rt, Err (TraceNotFound trace_id))
      | Some entry \<Rightarrow>
          (put_entry rt trace_id
             (entry\<lparr>te_memberships := membership_insert (te_memberships entry) membership\<rparr>),
           Ok ()))"

definition inherit_process ::
    "TraceRuntime \<Rightarrow> TraceId \<Rightarrow> ProcessIdentity \<Rightarrow> ProcessIdentity \<Rightarrow> SystemTime
      \<Rightarrow> TraceRuntime \<times> (RegistryError + unit)" where
  "inherit_process rt trace_id parent_identity child_identity observed_at =
     (case bm_get (traces rt) trace_id of
        None \<Rightarrow> (rt, Err (TraceNotFound trace_id))
      | Some entry \<Rightarrow>
     (case bm_get (te_memberships entry) parent_identity of
        None \<Rightarrow> (rt, Err (ParentMembershipMissing parent_identity))
      | Some parent \<Rightarrow>
          if \<not> can_inherit parent then (rt, Err (PropagationDisabled (pm_identity parent)))
          else (put_entry rt trace_id
                  (entry\<lparr>te_memberships := membership_insert (te_memberships entry)
                     (membership_inherited trace_id child_identity (pm_identity parent)
                        observed_at)\<rparr>),
                Ok ())))"

definition insert_observed_child ::
    "TraceRuntime \<Rightarrow> TraceId \<Rightarrow> ProcessIdentity \<Rightarrow> ProcessIdentity \<Rightarrow> SystemTime
      \<Rightarrow> TraceRuntime \<times> (RegistryError + unit)" where
  "insert_observed_child rt trace_id parent_identity child_identity observed_at =
     (case bm_get (traces rt) trace_id of
        None \<Rightarrow> (rt, Err (TraceNotFound trace_id))
      | Some entry \<Rightarrow>
     (case bm_get (te_memberships entry) parent_identity of
        None \<Rightarrow> (rt, Err (ParentMembershipMissing parent_identity))
      | Some parent \<Rightarrow>
          (put_entry rt trace_id
             (entry\<lparr>te_memberships := membership_insert (te_memberships entry)
                (membership_inherited trace_id child_identity (pm_identity parent)
                   observed_at)\<rparr>),
           Ok ())))"

definition reconcile_lifecycle ::
    "TraceRuntime \<Rightarrow> TraceId \<Rightarrow> SystemTime \<Rightarrow> TraceRuntime \<times> (RegistryError + unit)" where
  "reconcile_lifecycle rt trace_id observed_at =
     (case bm_get (traces rt) trace_id of
        None \<Rightarrow> (rt, Err (TraceNotFound trace_id))
      | Some entry \<Rightarrow>
     if is_terminal (tr_lifecycle_state (te_trace entry)) then (rt, Ok ())
     else
     (case bm_get (te_memberships entry) (tr_root_process_identity (te_trace entry)) of
        None \<Rightarrow> (rt, Err (RootMembershipMissing trace_id))
      | Some root \<Rightarrow>
     (let root_exited = (pm_state root = MembershipState.Exited);
          finish = (\<lambda>out. case out of
             Inl e \<Rightarrow> (rt, Err (InvalidStateTransition e))
           | Inr t \<Rightarrow> (put_entry rt trace_id (entry\<lparr>te_trace := t\<rparr>), Ok ()))
      in if pm_capture_enabled root \<and> \<not> root_exited then (rt, Ok ())
         else if has_capturable_members (te_memberships entry) then
           (if tr_lifecycle_state (te_trace entry) = TraceLifecycleState.Active
            then finish (begin_draining (te_trace entry) observed_at)
            else (rt, Ok ()))
         else if root_exited then finish (exit_trace (te_trace entry) observed_at)
         else finish (complete_trace (te_trace entry) observed_at))))"

definition track_remove_root ::
    "TraceRuntime \<Rightarrow> RootRemovalRequest \<Rightarrow> TraceRuntime \<times> (RegistryError + unit)" where
  "track_remove_root rt request =
     (case bm_get (traces rt) (rr_trace_id request) of
        None \<Rightarrow> (rt, Err (TraceNotFound (rr_trace_id request)))
      | Some entry \<Rightarrow>
     (let root_identity = tr_root_process_identity (te_trace entry)
      in case bm_get (te_memberships entry) root_identity of
        None \<Rightarrow> (rt, Err (RootMembershipMissing (rr_trace_id request)))
      | Some root \<Rightarrow>
          reconcile_lifecycle
            (put_entry rt (rr_trace_id request)
               (entry\<lparr>te_memberships := bm_insert root_identity
                  (disable_propagation (disable_capture root)) (te_memberships entry)\<rparr>))
            (rr_trace_id request) (rr_removed_at request)))"

definition mark_process_exited ::
    "TraceRuntime \<Rightarrow> TraceId \<Rightarrow> ProcessIdentity \<Rightarrow> ExitStatus
      \<Rightarrow> TraceRuntime \<times> (RegistryError + unit)" where
  "mark_process_exited rt trace_id identity status =
     (case bm_get (traces rt) trace_id of
        None \<Rightarrow> (rt, Err (TraceNotFound trace_id))
      | Some entry \<Rightarrow>
     (case bm_get (te_memberships entry) identity of
        None \<Rightarrow> (rt, Err (ParentMembershipMissing identity))
      | Some membership \<Rightarrow>
          reconcile_lifecycle
            (put_entry rt trace_id
               (entry\<lparr>te_memberships := bm_insert identity
                  (membership_mark_exited membership status) (te_memberships entry)\<rparr>))
            trace_id (es_observed_at status)))"

definition mark_degraded ::
    "TraceRuntime \<Rightarrow> TraceId \<Rightarrow> TraceRuntime \<times> (RegistryError + unit)" where
  "mark_degraded rt trace_id =
     (case bm_get (traces rt) trace_id of
        None \<Rightarrow> (rt, Err (TraceNotFound trace_id))
      | Some entry \<Rightarrow>
          (put_entry rt trace_id (entry\<lparr>te_trace := degrade_trace (te_trace entry)\<rparr>), Ok ()))"

definition fail_trace ::
    "TraceRuntime \<Rightarrow> TraceId \<Rightarrow> SystemTime \<Rightarrow> TraceRuntime \<times> (RegistryError + unit)" where
  "fail_trace rt trace_id failed_at =
     (case bm_get (traces rt) trace_id of
        None \<Rightarrow> (rt, Err (TraceNotFound trace_id))
      | Some entry \<Rightarrow>
     (case fail_trace_record (te_trace entry) failed_at of
        Inl e \<Rightarrow> (rt, Err (InvalidStateTransition e))
      | Inr t \<Rightarrow> (put_entry rt trace_id (entry\<lparr>te_trace := t\<rparr>), Ok ())))"

definition complete_after_resource_barrier ::
    "TraceRuntime \<Rightarrow> TraceId \<Rightarrow> SystemTime \<Rightarrow> TraceRuntime \<times> (RegistryError + bool)" where
  "complete_after_resource_barrier rt trace_id completed_at =
     (case bm_get (traces rt) trace_id of
        None \<Rightarrow> (rt, Err (TraceNotFound trace_id))
      | Some entry \<Rightarrow>
     (let has_open = list_ex (\<lambda>m. pm_capture_enabled m
            \<and> (pm_state m = MembershipState.Starting \<or> pm_state m = MembershipState.Active))
            (bm_values (te_memberships entry));
          trace = (if has_open then degrade_trace (te_trace entry) else te_trace entry);
          rt' = put_entry rt trace_id (entry\<lparr>te_trace := trace\<rparr>)
      in if tr_lifecycle_state trace = Draining then
           (case complete_trace trace completed_at of
              Inl e \<Rightarrow> (rt', Err (InvalidStateTransition e))
            | Inr t \<Rightarrow> (put_entry rt trace_id (entry\<lparr>te_trace := t\<rparr>), Ok has_open))
         else if \<not> is_terminal (tr_lifecycle_state trace) then
           (rt', Err (InvalidStateTransition
                       \<lparr>st_from = tr_lifecycle_state trace, st_to = Completed\<rparr>))
         else (rt', Ok has_open)))"

definition get_trace :: "TraceRuntime \<Rightarrow> TraceId \<Rightarrow> TraceEntry option" where
  "get_trace rt trace_id = bm_get (traces rt) trace_id"

definition forget_trace :: "TraceRuntime \<Rightarrow> TraceId \<Rightarrow> TraceRuntime \<times> TraceEntry option" where
  "forget_trace rt trace_id =
     (rt\<lparr>traces := bm_remove trace_id (traces rt)\<rparr>, bm_get (traces rt) trace_id)"

fun find_map :: "('a \<Rightarrow> 'b option) \<Rightarrow> 'a list \<Rightarrow> 'b option" where
  "find_map f [] = None"
| "find_map f (x # xs) = (case f x of Some y \<Rightarrow> Some y | None \<Rightarrow> find_map f xs)"

definition find_membership ::
    "TraceRuntime \<Rightarrow> ProcessIdentity \<Rightarrow> (TraceId \<times> ProcessMembership) option" where
  "find_membership rt identity =
     find_map (\<lambda>(trace_id, entry).
         map_option (\<lambda>m. (trace_id, m)) (bm_get (te_memberships entry) identity))
       (bm_entries (traces rt))"

definition find_membership_in_trace ::
    "TraceRuntime \<Rightarrow> TraceId \<Rightarrow> ProcessIdentity \<Rightarrow> ProcessMembership option" where
  "find_membership_in_trace rt trace_id identity =
     (case bm_get (traces rt) trace_id of
        None \<Rightarrow> None
      | Some entry \<Rightarrow> bm_get (te_memberships entry) identity)"

definition list_trace_records :: "TraceRuntime \<Rightarrow> TraceRecord list" where
  "list_trace_records rt = map te_trace (bm_values (traces rt))"

definition find_trace_by_name :: "TraceRuntime \<Rightarrow> TraceName \<Rightarrow> TraceEntry option" where
  "find_trace_by_name rt name =
     find (\<lambda>entry. tr_display_name (te_trace entry) = name) (bm_values (traces rt))"

end
