(* ===== verification/Trace_System.thy ===== *)
theory Trace_System
  imports Trace_Runtime
begin

text \<open>
  Correctness of the trace runtime: what one operation does to a trace, the invariant of the
  registry over every sequence of operations, and the properties of the lifecycle, of the
  memberships and of the negotiated plan.
\<close>

section \<open>The lifecycle of one trace record\<close>

text \<open>
  The times of a record tell its state: a trace that has been active has a start time, and
  each end state has its own end time and no other.
\<close>

definition life_inv :: "TraceRecord \<Rightarrow> bool" where
  "life_inv t \<longleftrightarrow>
     (tr_lifecycle_state t = TraceLifecycleState.Starting \<longrightarrow> tt_started_at (tr_timings t) = None)
     \<and> (tr_lifecycle_state t \<in> {TraceLifecycleState.Active, Draining, Completed,
           TraceLifecycleState.Exited} \<longrightarrow> tt_started_at (tr_timings t) \<noteq> None)
     \<and> (tt_completed_at (tr_timings t) \<noteq> None \<longleftrightarrow> tr_lifecycle_state t = Completed)
     \<and> (tt_exited_at (tr_timings t) \<noteq> None \<longleftrightarrow> tr_lifecycle_state t = TraceLifecycleState.Exited)
     \<and> (tt_failed_at (tr_timings t) \<noteq> None \<longleftrightarrow> tr_lifecycle_state t = Failed)"

definition kept :: "'a option \<Rightarrow> 'a option \<Rightarrow> bool" where
  "kept x y \<longleftrightarrow> (\<forall>v. x = Some v \<longrightarrow> y = Some v)"

lemma kept_refl [simp]: "kept x x" "kept None x"
  and kept_trans [trans]: "kept x y \<Longrightarrow> kept y z \<Longrightarrow> kept x z"
  by (simp_all add: kept_def)

definition trace_fwd :: "TraceRecord \<Rightarrow> TraceRecord \<Rightarrow> bool" where
  "trace_fwd t t' \<longleftrightarrow>
     tr_trace_id t' = tr_trace_id t
     \<and> tr_otel_trace_id t' = tr_otel_trace_id t
     \<and> tr_alert_token t' = tr_alert_token t
     \<and> tr_root_process_identity t' = tr_root_process_identity t
     \<and> transition_allowed\<^sup>*\<^sup>* (tr_lifecycle_state t) (tr_lifecycle_state t')
     \<and> (tr_health t = Degraded \<longrightarrow> tr_health t' = Degraded)
     \<and> tt_created_at (tr_timings t') = tt_created_at (tr_timings t)
     \<and> kept (tt_started_at (tr_timings t)) (tt_started_at (tr_timings t'))
     \<and> (is_terminal (tr_lifecycle_state t) \<longrightarrow> tr_timings t' = tr_timings t)"

lemma terminal_final: "transition_allowed s s' \<Longrightarrow> \<not> is_terminal s"
  by (cases s; cases s') simp_all

lemma terminal_stays:
  assumes "transition_allowed\<^sup>*\<^sup>* s s'" and "is_terminal s"
  shows "s' = s"
  using assms by (induction rule: converse_rtranclp_induct) (auto dest: terminal_final)

lemma trace_fwd_refl [simp]: "trace_fwd t t"
  by (simp add: trace_fwd_def)

lemma trace_fwd_trans: "trace_fwd a b \<Longrightarrow> trace_fwd b c \<Longrightarrow> trace_fwd a c"
  unfolding trace_fwd_def by (metis kept_trans rtranclp_trans terminal_stays)

lemma require_transition_Inr [simp]:
  "require_transition s s' = Inr u \<longleftrightarrow> transition_allowed s s'"
  by (simp add: require_transition_def)

lemma trace_fwd_advance:
  assumes "transition_allowed (tr_lifecycle_state t) s'"
    and "tt_created_at tm = tt_created_at (tr_timings t)"
    and "kept (tt_started_at (tr_timings t)) (tt_started_at tm)"
  shows "trace_fwd t (t\<lparr>tr_lifecycle_state := s', tr_timings := tm\<rparr>)"
  using assms terminal_final [OF assms(1)] r_into_rtranclp [where r = transition_allowed, OF assms(1)]
  by (simp add: trace_fwd_def)

lemma from_starting: "transition_allowed s TraceLifecycleState.Active \<Longrightarrow> s = TraceLifecycleState.Starting"
  by (cases s) simp_all

lemma from_active: "transition_allowed s Draining \<Longrightarrow> s = TraceLifecycleState.Active"
  by (cases s) simp_all

lemma from_started:
  "transition_allowed s Completed \<Longrightarrow> s = TraceLifecycleState.Active \<or> s = Draining"
  "transition_allowed s TraceLifecycleState.Exited \<Longrightarrow> s = TraceLifecycleState.Active \<or> s = Draining"
  by (cases s; simp)+

lemma start_trace_steps:
  assumes "start_trace t x = Inr t'" and "life_inv t"
  shows "life_inv t' \<and> trace_fwd t t'"
proof -
  have ok: "transition_allowed (tr_lifecycle_state t) TraceLifecycleState.Active"
    and t': "t' = t\<lparr>tr_lifecycle_state := TraceLifecycleState.Active,
      tr_timings := (tr_timings t)\<lparr>tt_started_at := Some x\<rparr>\<rparr>"
    using assms(1) by (auto simp: start_trace_def split: sum.splits)
  from assms(2) from_starting [OF ok] have "life_inv t'"
    by (simp add: t' life_inv_def)
  moreover have "kept (tt_started_at (tr_timings t)) (Some x)"
    using assms(2) from_starting [OF ok] by (simp add: life_inv_def)
  then have "trace_fwd t t'" unfolding t' by (intro trace_fwd_advance ok) simp_all
  ultimately show ?thesis ..
qed

lemma begin_draining_steps:
  assumes "begin_draining t x = Inr t'" and "life_inv t"
  shows "life_inv t' \<and> trace_fwd t t'"
proof -
  have ok: "transition_allowed (tr_lifecycle_state t) Draining"
    and t': "t' = t\<lparr>tr_lifecycle_state := Draining, tr_timings := tr_timings t\<rparr>"
    using assms(1) by (auto simp: begin_draining_def split: sum.splits)
  from assms(2) from_active [OF ok] have "life_inv t'" by (simp add: t' life_inv_def)
  moreover have "trace_fwd t t'" unfolding t' by (intro trace_fwd_advance ok) simp_all
  ultimately show ?thesis ..
qed

lemma complete_trace_steps:
  assumes "complete_trace t x = Inr t'" and "life_inv t"
  shows "life_inv t' \<and> trace_fwd t t'"
proof -
  have ok: "transition_allowed (tr_lifecycle_state t) Completed"
    and t': "t' = t\<lparr>tr_lifecycle_state := Completed,
      tr_timings := (tr_timings t)\<lparr>tt_completed_at := Some x\<rparr>\<rparr>"
    using assms(1) by (auto simp: complete_trace_def split: sum.splits)
  from assms(2) from_started(1) [OF ok] have "life_inv t'" by (auto simp: t' life_inv_def)
  moreover have "trace_fwd t t'" unfolding t' by (intro trace_fwd_advance ok) simp_all
  ultimately show ?thesis ..
qed

lemma exit_trace_steps:
  assumes "exit_trace t x = Inr t'" and "life_inv t"
  shows "life_inv t' \<and> trace_fwd t t'"
proof -
  have ok: "transition_allowed (tr_lifecycle_state t) TraceLifecycleState.Exited"
    and t': "t' = t\<lparr>tr_lifecycle_state := TraceLifecycleState.Exited,
      tr_timings := (tr_timings t)\<lparr>tt_exited_at := Some x\<rparr>\<rparr>"
    using assms(1) by (auto simp: exit_trace_def split: sum.splits)
  from assms(2) from_started(2) [OF ok] have "life_inv t'" by (auto simp: t' life_inv_def)
  moreover have "trace_fwd t t'" unfolding t' by (intro trace_fwd_advance ok) simp_all
  ultimately show ?thesis ..
qed

lemma fail_trace_steps:
  assumes "fail_trace_record t x = Inr t'" and "life_inv t"
  shows "life_inv t' \<and> trace_fwd t t'"
proof -
  have ok: "transition_allowed (tr_lifecycle_state t) Failed"
    and t': "t' = t\<lparr>tr_lifecycle_state := Failed,
      tr_timings := (tr_timings t)\<lparr>tt_failed_at := Some x\<rparr>\<rparr>"
    using assms(1) by (auto simp: fail_trace_record_def split: sum.splits)
  from assms(2) terminal_final [OF ok] have "life_inv t'" by (auto simp: t' life_inv_def)
  moreover have "trace_fwd t t'" unfolding t' by (intro trace_fwd_advance ok) simp_all
  ultimately show ?thesis ..
qed

lemmas transition_steps = start_trace_steps begin_draining_steps complete_trace_steps
  exit_trace_steps fail_trace_steps

lemma degrade_keeps:
  "life_inv (degrade_trace t) = life_inv t" "trace_fwd t (degrade_trace t)"
  by (simp_all add: degrade_trace_def life_inv_def trace_fwd_def)

section \<open>One entry of the registry\<close>

definition entry_inv :: "TraceEntry \<Rightarrow> bool" where
  "entry_inv e \<longleftrightarrow>
     life_inv (te_trace e)
     \<and> bm_get (te_memberships e) (tr_root_process_identity (te_trace e)) \<noteq> None
     \<and> (\<forall>i m. bm_get (te_memberships e) i = Some m \<longrightarrow> pm_identity m = i)"

definition entry_fwd :: "TraceEntry \<Rightarrow> TraceEntry \<Rightarrow> bool" where
  "entry_fwd e e' \<longleftrightarrow>
     trace_fwd (te_trace e) (te_trace e')
     \<and> te_sensor_plan e' = te_sensor_plan e
     \<and> kept (te_owner e) (te_owner e')
     \<and> (\<forall>i. bm_get (te_memberships e) i \<noteq> None \<longrightarrow> bm_get (te_memberships e') i \<noteq> None)"

lemma entry_fwd_refl [simp]: "entry_fwd e e"
  by (simp add: entry_fwd_def)

lemma entry_fwd_trans: "entry_fwd a b \<Longrightarrow> entry_fwd b c \<Longrightarrow> entry_fwd a c"
  unfolding entry_fwd_def by (metis kept_trans trace_fwd_trans)

definition entry_ok :: "TraceEntry \<Rightarrow> TraceEntry \<Rightarrow> bool" where
  "entry_ok e e' \<longleftrightarrow> (entry_inv e \<longrightarrow> entry_inv e' \<and> entry_fwd e e')"

lemma entry_ok_refl [simp]: "entry_ok e e"
  by (simp add: entry_ok_def)

lemma entry_ok_trans: "entry_ok a b \<Longrightarrow> entry_ok b c \<Longrightarrow> entry_ok a c"
  unfolding entry_ok_def by (blast intro: entry_fwd_trans)

lemma entry_ok_trace:
  "life_inv (te_trace e) \<longrightarrow> life_inv t \<and> trace_fwd (te_trace e) t \<Longrightarrow> entry_ok e (e\<lparr>te_trace := t\<rparr>)"
  by (auto simp: entry_ok_def entry_inv_def entry_fwd_def trace_fwd_def)

lemma entry_ok_insert:
  "pm_identity m = i \<Longrightarrow> entry_ok e (e\<lparr>te_memberships := bm_insert i m (te_memberships e)\<rparr>)"
  by (auto simp: entry_ok_def entry_inv_def entry_fwd_def)

lemma entry_ok_update:
  assumes "bm_get (te_memberships e) i = Some m" and "pm_identity (f m) = pm_identity m"
  shows "entry_ok e (e\<lparr>te_memberships := bm_insert i (f m) (te_memberships e)\<rparr>)"
  using assms by (auto simp: entry_ok_def entry_inv_def entry_fwd_def)

lemma entry_ok_activate:
  "entry_ok e (e\<lparr>te_memberships := activate_all (te_memberships e)\<rparr>)"
  by (auto simp: entry_ok_def entry_inv_def entry_fwd_def activate_all_def membership_activate_def)

lemma entry_ok_owner: "te_owner e = None \<Longrightarrow> entry_ok e (e\<lparr>te_owner := Some x\<rparr>)"
  by (auto simp: entry_ok_def entry_inv_def entry_fwd_def)

section \<open>Operations as updates of one entry\<close>

text \<open>
  An operation of the registry on a trace either leaves the registry alone or replaces
  that trace's entry by one that keeps the invariant and goes forward.
\<close>

definition updates :: "TraceRuntime \<Rightarrow> TraceId \<Rightarrow> TraceRuntime \<Rightarrow> bool" where
  "updates rt t rt' \<longleftrightarrow>
     rt' = rt \<or> (\<exists>e e'. bm_get (traces rt) t = Some e \<and> rt' = put_entry rt t e' \<and> entry_ok e e')"

lemma updatesI: "bm_get (traces rt) t = Some e \<Longrightarrow> entry_ok e e' \<Longrightarrow> updates rt t (put_entry rt t e')"
  by (auto simp: updates_def)

lemma updates_refl [simp]: "updates rt t rt"
  by (simp add: updates_def)

lemma put_entry_put [simp]: "put_entry (put_entry rt t e) t e' = put_entry rt t e'"
  by (simp add: put_entry_def bm.insert_insert)

lemma get_put_entry [simp]:
  "bm_get (traces (put_entry rt t e)) u = (if u = t then Some e else bm_get (traces rt) u)"
  by (simp add: put_entry_def)

lemma updates_trans: "updates rt t rt1 \<Longrightarrow> updates rt1 t rt2 \<Longrightarrow> updates rt t rt2"
  unfolding updates_def by (elim disjE exE conjE) (simp_all, (blast intro: entry_ok_trans)+)

lemma updates_reconcile: "updates rt t (fst (reconcile_lifecycle rt t x))"
  by (auto simp: reconcile_lifecycle_def Let_def
      intro!: updatesI entry_ok_trace dest!: transition_steps split: option.splits sum.splits)

lemma updates_barrier: "updates rt t (fst (complete_after_resource_barrier rt t x))"
  by (auto simp: complete_after_resource_barrier_def Let_def degrade_keeps
      intro!: updatesI entry_ok_trace dest!: complete_trace_steps
      intro: trace_fwd_trans [OF degrade_keeps(2)] split: option.splits sum.splits)

lemma updates_ops:
  "updates rt t (fst (bind_trace_owner rt t own))"
  "updates rt t (fst (activate_trace rt t x))"
  "updates rt t (fst (insert_membership rt t m))"
  "updates rt t (fst (inherit_process rt t p c x))"
  "updates rt t (fst (insert_observed_child rt t p c x))"
  "updates rt (rr_trace_id req) (fst (track_remove_root rt req))"
  "updates rt t (fst (mark_process_exited rt t i st))"
  "updates rt t (fst (mark_degraded rt t))"
  "updates rt t (fst (fail_trace rt t x))"
  "updates rt t (fst (complete_after_resource_barrier rt t x))"
proof -
  show "updates rt t (fst (bind_trace_owner rt t own))"
    by (auto simp: bind_trace_owner_def intro!: updatesI entry_ok_owner split: option.splits)
  show "updates rt t (fst (activate_trace rt t x))"
    by (auto simp: activate_trace_def Let_def split: option.splits sum.splits
        intro!: updatesI entry_ok_activate
          entry_ok_trans [OF entry_ok_activate entry_ok_trace] dest!: transition_steps)
  show "updates rt t (fst (insert_membership rt t m))"
    by (auto simp: insert_membership_def membership_insert_def
        intro!: updatesI entry_ok_insert split: option.splits)
  show "updates rt t (fst (inherit_process rt t p c x))"
    by (auto simp: inherit_process_def membership_insert_def
        intro!: updatesI entry_ok_insert split: option.splits)
  show "updates rt t (fst (insert_observed_child rt t p c x))"
    by (auto simp: insert_observed_child_def membership_insert_def
        intro!: updatesI entry_ok_insert split: option.splits)
  show "updates rt (rr_trace_id req) (fst (track_remove_root rt req))"
    by (auto simp: track_remove_root_def Let_def disable_propagation_def disable_capture_def
        intro!: updates_trans [OF updatesI updates_reconcile]
          entry_ok_update [where f = "\<lambda>m. disable_propagation (disable_capture m)",
            unfolded disable_propagation_def disable_capture_def]
        split: option.splits)
  show "updates rt t (fst (mark_process_exited rt t i st))"
    by (auto simp: mark_process_exited_def membership_mark_exited_def
        intro!: updates_trans [OF updatesI updates_reconcile]
          entry_ok_update [where f = "\<lambda>m. membership_mark_exited m st",
            unfolded membership_mark_exited_def]
        split: option.splits)
  show "updates rt t (fst (mark_degraded rt t))"
    by (auto simp: mark_degraded_def degrade_keeps intro!: updatesI entry_ok_trace
        split: option.splits)
  show "updates rt t (fst (fail_trace rt t x))"
    by (auto simp: fail_trace_def intro!: updatesI entry_ok_trace dest!: transition_steps
        split: option.splits sum.splits)
  show "updates rt t (fst (complete_after_resource_barrier rt t x))"
    by (rule updates_barrier)
qed

section \<open>The registry as a system of operations\<close>

datatype RuntimeOp =
    ReserveTraceId
  | CreateStartingTrace "string + u8 list" "string + u8 list" TraceId TrackTraceRequest SensorPlan
  | BindTraceOwner TraceId TraceOwnerPrincipal
  | ActivateTrace TraceId SystemTime
  | InsertMembership TraceId ProcessMembership
  | InheritProcess TraceId ProcessIdentity ProcessIdentity SystemTime
  | InsertObservedChild TraceId ProcessIdentity ProcessIdentity SystemTime
  | TrackRemoveRoot RootRemovalRequest
  | MarkProcessExited TraceId ProcessIdentity ExitStatus
  | MarkDegraded TraceId
  | FailTrace TraceId SystemTime
  | CompleteAfterResourceBarrier TraceId SystemTime
  | ForgetTrace TraceId

fun run_op :: "RuntimeOp \<Rightarrow> TraceRuntime \<Rightarrow> TraceRuntime \<times> (RegistryError + unit)" where
  "run_op ReserveTraceId rt = (fst (reserve_trace_id rt), Ok ())"
| "run_op (CreateStartingTrace a b t req plan) rt = create_starting_trace a b rt t req plan"
| "run_op (BindTraceOwner t x) rt = bind_trace_owner rt t x"
| "run_op (ActivateTrace t x) rt = activate_trace rt t x"
| "run_op (InsertMembership t m) rt = insert_membership rt t m"
| "run_op (InheritProcess t p c x) rt = inherit_process rt t p c x"
| "run_op (InsertObservedChild t p c x) rt = insert_observed_child rt t p c x"
| "run_op (TrackRemoveRoot req) rt = track_remove_root rt req"
| "run_op (MarkProcessExited t i st) rt = mark_process_exited rt t i st"
| "run_op (MarkDegraded t) rt = mark_degraded rt t"
| "run_op (FailTrace t x) rt = fail_trace rt t x"
| "run_op (CompleteAfterResourceBarrier t x) rt =
     map_prod id (map_sum id (\<lambda>_. ())) (complete_after_resource_barrier rt t x)"
| "run_op (ForgetTrace t) rt = (fst (forget_trace rt t), Ok ())"

fun op_trace :: "RuntimeOp \<Rightarrow> TraceId option" where
  "op_trace ReserveTraceId = None"
| "op_trace (CreateStartingTrace a b t req plan) = Some t"
| "op_trace (BindTraceOwner t x) = Some t"
| "op_trace (ActivateTrace t x) = Some t"
| "op_trace (InsertMembership t m) = Some t"
| "op_trace (InheritProcess t p c x) = Some t"
| "op_trace (InsertObservedChild t p c x) = Some t"
| "op_trace (TrackRemoveRoot req) = Some (rr_trace_id req)"
| "op_trace (MarkProcessExited t i st) = Some t"
| "op_trace (MarkDegraded t) = Some t"
| "op_trace (FailTrace t x) = Some t"
| "op_trace (CompleteAfterResourceBarrier t x) = Some t"
| "op_trace (ForgetTrace t) = Some t"

lemma foldl_add_tag:
  "tr_lifecycle_state (foldl add_tag t tags) = tr_lifecycle_state t
   \<and> tr_timings (foldl add_tag t tags) = tr_timings t
   \<and> tr_trace_id (foldl add_tag t tags) = tr_trace_id t
   \<and> tr_otel_trace_id (foldl add_tag t tags) = tr_otel_trace_id t
   \<and> tr_root_process_identity (foldl add_tag t tags) = tr_root_process_identity t"
  by (induction tags arbitrary: t) (simp_all add: add_tag_def)

lemma tracked_record_sel [simp]:
  "tr_lifecycle_state (tracked_record t req o' a) = TraceLifecycleState.Starting"
  "tr_timings (tracked_record t req o' a) = trace_timing_new (tq_created_at req)"
  "tr_trace_id (tracked_record t req o' a) = t"
  "tr_otel_trace_id (tracked_record t req o' a) = o'"
  "tr_root_process_identity (tracked_record t req o' a) = tq_root_identity req"
  by (simp_all add: tracked_record_def foldl_add_tag trace_record_new_def)

text \<open>An operation updates its trace, or is a reservation, a creation or a removal.\<close>

lemma create_cases:
  assumes "create_starting_trace a b rt t req plan = (rt', out)"
  obtains "rt' = rt" "out \<noteq> Ok ()"
  | e where "rt' = put_entry rt t e" "entry_inv e" "tr_trace_id (te_trace e) = t" "out = Ok ()"
      "tr_lifecycle_state (te_trace e) = TraceLifecycleState.Starting"
  using assms
  by (auto simp: create_starting_trace_def entry_inv_def life_inv_def trace_timing_new_def
      membership_index_new_def membership_root_def split: sum.splits option.splits)

lemma run_op_updates:
  assumes "run_op op rt = (rt', out)" and "op_trace op = Some t"
    and "\<And>a b req plan. op \<noteq> CreateStartingTrace a b t req plan" and "op \<noteq> ForgetTrace t"
  shows "updates rt t rt'"
proof -
  have "rt' = fst (run_op op rt)" using assms(1) by simp
  then show ?thesis using assms(2-4) by (cases op) (auto intro: updates_ops)
qed

lemma updates_other: "updates rt t rt' \<Longrightarrow> u \<noteq> t \<Longrightarrow> get_trace rt' u = get_trace rt u"
  by (auto simp: updates_def get_trace_def)

lemma run_op_other:
  assumes "run_op op rt = (rt', out)" and "op_trace op \<noteq> Some u"
  shows "get_trace rt' u = get_trace rt u"
proof (cases "op_trace op")
  case None
  with assms(1) show ?thesis by (cases op) (auto simp: reserve_trace_id_def get_trace_def)
next
  case (Some t)
  with assms(2) have "u \<noteq> t" by simp
  consider (create) a b req plan where "op = CreateStartingTrace a b t req plan"
    | (forget) "op = ForgetTrace t"
    | (other) "\<And>a b req plan. op \<noteq> CreateStartingTrace a b t req plan" "op \<noteq> ForgetTrace t"
    by blast
  then show ?thesis
  proof cases
    case create
    with assms(1) have "create_starting_trace a b rt t req plan = (rt', out)" by simp
    then show ?thesis by (rule create_cases) (use \<open>u \<noteq> t\<close> in \<open>simp_all add: get_trace_def\<close>)
  next
    case forget
    with assms(1) \<open>u \<noteq> t\<close> show ?thesis by (auto simp: forget_trace_def get_trace_def)
  next
    case other
    with run_op_updates [OF assms(1) Some] \<open>u \<noteq> t\<close> show ?thesis by (blast intro: updates_other)
  qed
qed

definition runtime_inv :: "TraceRuntime \<Rightarrow> bool" where
  "runtime_inv rt \<longleftrightarrow>
     (\<forall>t e. get_trace rt t = Some e \<longrightarrow> tr_trace_id (te_trace e) = t \<and> entry_inv e)"

definition runtime_fwd :: "TraceId \<Rightarrow> TraceRuntime \<Rightarrow> TraceRuntime \<Rightarrow> bool" where
  "runtime_fwd t rt rt' \<longleftrightarrow>
     (\<forall>e. get_trace rt t = Some e \<longrightarrow> (\<exists>e'. get_trace rt' t = Some e' \<and> entry_fwd e e'))"

definition runtime_start :: "TraceRuntime \<Rightarrow> bool" where
  "runtime_start rt \<longleftrightarrow> (\<exists>cs first. rt = trace_runtime_new cs first)"

text \<open>
  Every operation is a step of the registry. Two of them replace the entry of a trace, its removal and a
  creation under its identifier, which the registry does not refuse; a step that keeps a trace is any other.
\<close>

fun replaces :: "TraceId \<Rightarrow> RuntimeOp \<Rightarrow> bool" where
  "replaces t (CreateStartingTrace a b u req plan) \<longleftrightarrow> u = t"
| "replaces t (ForgetTrace u) \<longleftrightarrow> u = t"
| "replaces t _ \<longleftrightarrow> False"

inductive runtime_step :: "TraceRuntime \<Rightarrow> TraceRuntime \<Rightarrow> bool" where
  run_step: "run_op op rt = (rt', out) \<Longrightarrow> runtime_step rt rt'"

inductive keep_step :: "TraceId \<Rightarrow> TraceRuntime \<Rightarrow> TraceRuntime \<Rightarrow> bool" for t where
  keep: "run_op op rt = (rt', out) \<Longrightarrow> \<not> replaces t op \<Longrightarrow> keep_step t rt rt'"

lemma run_op_kept:
  assumes "run_op op rt = (rt', out)" and "\<not> replaces t op" and "runtime_inv rt"
  shows "runtime_fwd t rt rt' \<and> (\<forall>e'. get_trace rt' t = Some e' \<longrightarrow> tr_trace_id (te_trace e') = t \<and> entry_inv e')"
proof (cases "op_trace op = Some t")
  case True
  have "updates rt t rt'" using assms(2) by (intro run_op_updates [OF assms(1) True]) auto
  with assms(3) show ?thesis
    by (auto simp: updates_def get_trace_def runtime_inv_def runtime_fwd_def entry_ok_def entry_fwd_def trace_fwd_def)
next
  case False
  with run_op_other [OF assms(1)] assms(3) show ?thesis
    by (auto simp: runtime_inv_def runtime_fwd_def)
qed

lemma run_op_own:
  assumes "run_op op rt = (rt', out)" and "runtime_inv rt" and "get_trace rt' t = Some e'"
  shows "tr_trace_id (te_trace e') = t \<and> entry_inv e'"
proof (cases "replaces t op")
  case True
  then consider a b req plan where "create_starting_trace a b rt t req plan = (rt', out)" | "rt' = fst (forget_trace rt t)"
    using assms(1) by (cases op) auto
  then show ?thesis
  proof cases
    case 1
    then show ?thesis
      by (rule create_cases) (use assms(2,3) in \<open>auto simp: get_trace_def runtime_inv_def\<close>)
  next
    case 2
    with assms(3) show ?thesis by (simp add: forget_trace_def get_trace_def)
  qed
next
  case False
  with run_op_kept [OF assms(1) False assms(2)] assms(3) show ?thesis by blast
qed

lemma runtime_step_inv: "runtime_inv rt \<Longrightarrow> runtime_step rt rt' \<Longrightarrow> runtime_inv rt'"
  by (erule runtime_step.cases) (auto simp: runtime_inv_def [of rt'] dest: run_op_own)

interpretation tracing: guarded_system runtime_start runtime_step runtime_inv
proof
  show "runtime_inv s" if "runtime_start s" for s
    using that by (auto simp: runtime_start_def runtime_inv_def trace_runtime_new_def get_trace_def)
qed (rule runtime_step_inv)

interpretation lifetimes: forward_system runtime_start "keep_step t" runtime_inv "runtime_fwd t" for t
proof
  show "runtime_inv s" if "runtime_start s" for s using that by (rule tracing.start_inv)
  show "runtime_inv s'" if "runtime_inv s" "keep_step t s s'" for s s'
    using that by (auto elim!: keep_step.cases intro: runtime_step_inv run_step)
  show "runtime_fwd t s s" for s by (simp add: runtime_fwd_def)
  show "runtime_fwd t s u" if "runtime_fwd t s s'" "runtime_fwd t s' u" for s s' u
    using that unfolding runtime_fwd_def by (meson entry_fwd_trans)
  show "runtime_fwd t s s'" if "runtime_inv s" "keep_step t s s'" for s s'
    using that by (auto elim!: keep_step.cases dest: run_op_kept)
qed

abbreviation runtime_reachable :: "TraceRuntime \<Rightarrow> bool" where
  "runtime_reachable \<equiv> reachable runtime_start runtime_step"

end
