(* ===== verification/Trace_Properties.thy ===== *)
theory Trace_Properties
  imports Trace_System
begin

text \<open>
  The properties of the trace runtime, over single operations and over any sequence of
  operations of the registry, with the concrete runs that witness them.
\<close>

section \<open>Settling the lifecycle\<close>

lemma has_capturable_iff:
  "has_capturable_members ms \<longleftrightarrow> (\<exists>i m. bm_get ms i = Some m \<and> capturable m)"
  unfolding has_capturable_members_def list_ex_iff bm_values_iff Bex_def by blast

definition settled_state :: "TraceLifecycleState \<Rightarrow> ProcessMembership \<Rightarrow> MembershipIndex \<Rightarrow> TraceLifecycleState" where
  "settled_state s root ms =
     (if is_terminal s \<or> pm_capture_enabled root \<and> pm_state root \<noteq> MembershipState.Exited then s
      else if has_capturable_members ms then Draining
      else if pm_state root = MembershipState.Exited then TraceLifecycleState.Exited
      else Completed)"

lemma reconcile_settles:
  assumes "bm_get (traces rt) t = Some e"
    and "bm_get (te_memberships e) (tr_root_process_identity (te_trace e)) = Some root"
    and "tr_lifecycle_state (te_trace e) \<noteq> TraceLifecycleState.Starting"
  shows "\<exists>e'. bm_get (traces (fst (reconcile_lifecycle rt t x))) t = Some e'
    \<and> snd (reconcile_lifecycle rt t x) = Ok ()
    \<and> te_memberships e' = te_memberships e
    \<and> tr_root_process_identity (te_trace e') = tr_root_process_identity (te_trace e)
    \<and> tr_lifecycle_state (te_trace e')
        = settled_state (tr_lifecycle_state (te_trace e)) root (te_memberships e)"
  using assms
  by (cases "tr_lifecycle_state (te_trace e)")
    (simp_all add: reconcile_lifecycle_def settled_state_def Let_def begin_draining_def
      exit_trace_def complete_trace_def require_transition_def)

lemma mark_exited_settles:
  assumes "get_trace rt t = Some e" and "entry_inv e"
    and "tr_lifecycle_state (te_trace e) \<noteq> TraceLifecycleState.Starting"
    and "bm_get (te_memberships e) i = Some m"
  obtains e' root' where "get_trace (fst (mark_process_exited rt t i st)) t = Some e'"
    and "snd (mark_process_exited rt t i st) = Ok ()"
    and "te_memberships e' = bm_insert i (membership_mark_exited m st) (te_memberships e)"
    and "tr_root_process_identity (te_trace e') = tr_root_process_identity (te_trace e)"
    and "bm_get (te_memberships e') (tr_root_process_identity (te_trace e)) = Some root'"
    and "tr_lifecycle_state (te_trace e')
      = settled_state (tr_lifecycle_state (te_trace e)) root' (te_memberships e')"
proof -
  let ?ms = "bm_insert i (membership_mark_exited m st) (te_memberships e)"
  let ?e = "e\<lparr>te_memberships := ?ms\<rparr>"
  have "bm_get ?ms (tr_root_process_identity (te_trace e)) \<noteq> None"
    using assms(2) by (simp add: entry_inv_def)
  then obtain root' where root': "bm_get (te_memberships ?e) (tr_root_process_identity (te_trace ?e)) = Some root'"
    by auto
  have get: "bm_get (traces (put_entry rt t ?e)) t = Some ?e" by simp
  have eq: "mark_process_exited rt t i st
      = reconcile_lifecycle (put_entry rt t ?e) t (es_observed_at st)"
    using assms(1,4) by (simp add: mark_process_exited_def get_trace_def)
  have "tr_lifecycle_state (te_trace ?e) \<noteq> TraceLifecycleState.Starting" using assms(3) by simp
  from reconcile_settles [OF get root' this, of "es_observed_at st"] root' show thesis
    unfolding eq get_trace_def by (auto intro: that [unfolded eq get_trace_def])
qed

text \<open>A sequence of exit observations.\<close>

fun mark_exits :: "TraceRuntime \<Rightarrow> TraceId \<Rightarrow> (ProcessIdentity \<times> ExitStatus) list \<Rightarrow> TraceRuntime" where
  "mark_exits rt t [] = rt"
| "mark_exits rt t ((i, st) # rest) = mark_exits (fst (mark_process_exited rt t i st)) t rest"

lemma settled_not_starting:
  "s \<noteq> TraceLifecycleState.Starting \<Longrightarrow> settled_state s root ms \<noteq> TraceLifecycleState.Starting"
  by (simp add: settled_state_def)

lemma mark_exits_end:
  assumes "get_trace rt t = Some e" and "runtime_inv rt"
    and "tr_lifecycle_state (te_trace e) \<noteq> TraceLifecycleState.Starting"
    and "\<forall>i \<in> fst ` set xs. bm_get (te_memberships e) i \<noteq> None"
    and "\<forall>i m. bm_get (te_memberships e) i = Some m
      \<longrightarrow> pm_state m = MembershipState.Exited \<or> i \<in> fst ` set xs"
    and "xs = [] \<longrightarrow> is_terminal (tr_lifecycle_state (te_trace e))"
  shows "\<exists>e'. get_trace (mark_exits rt t xs) t = Some e' \<and> is_terminal (tr_lifecycle_state (te_trace e'))"
  using assms
proof (induction xs arbitrary: rt e)
  case (Cons x xs)
  obtain i st where x: "x = (i, st)" by fastforce
  let ?rt = "fst (mark_process_exited rt t i st)"
  have inv: "entry_inv e" using Cons.prems(1,2) by (simp add: runtime_inv_def)
  from Cons.prems(4) obtain m where m: "bm_get (te_memberships e) i = Some m" by (auto simp: x)
  from Cons.prems(1) inv Cons.prems(3) m obtain e' root' where
    e': "get_trace ?rt t = Some e'"
    and ms: "te_memberships e' = bm_insert i (membership_mark_exited m st) (te_memberships e)"
    and root': "bm_get (te_memberships e') (tr_root_process_identity (te_trace e)) = Some root'"
    and state: "tr_lifecycle_state (te_trace e')
      = settled_state (tr_lifecycle_state (te_trace e)) root' (te_memberships e')"
    by (rule mark_exited_settles)
  have "run_op (MarkProcessExited t i st) rt = (?rt, snd (mark_process_exited rt t i st))" by simp
  then have "runtime_step rt ?rt" by (rule run_step)
  with Cons.prems(2) have "runtime_inv ?rt" by (rule runtime_step_inv)
  have gone: "\<forall>j m'. bm_get (te_memberships e') j = Some m'
      \<longrightarrow> pm_state m' = MembershipState.Exited \<or> j \<in> fst ` set xs"
    using Cons.prems(5) by (auto simp: ms x membership_mark_exited_def)
  have "is_terminal (tr_lifecycle_state (te_trace e'))" if "xs = []"
  proof -
    have "\<not> has_capturable_members (te_memberships e')"
      using gone that by (auto simp: has_capturable_iff capturable_def)
    moreover have "pm_state root' = MembershipState.Exited" using gone root' that by auto
    ultimately show ?thesis by (simp add: state settled_state_def)
  qed
  moreover have "tr_lifecycle_state (te_trace e') \<noteq> TraceLifecycleState.Starting"
    unfolding state using Cons.prems(3) by (rule settled_not_starting)
  moreover have "\<forall>j \<in> fst ` set xs. bm_get (te_memberships e') j \<noteq> None"
    using Cons.prems(4) by (simp add: ms)
  ultimately show ?case
    using Cons.IH [OF e' \<open>runtime_inv ?rt\<close>] gone by (simp add: x)
qed simp

section \<open>Negotiation\<close>

definition declares :: "CollectorDescriptor \<Rightarrow> Capability \<Rightarrow> bool" where
  "declares d cap \<longleftrightarrow> cap \<in> cd_capability ` set (cd_capabilities d)"

lemma supporting_collector_Some:
  "supporting_collector cs cap = Some d \<Longrightarrow> d \<in> set cs \<and> declares d cap"
  by (auto simp: supporting_collector_def find_Some_iff capability_set_contains_def
      capability_set_def capability_set_new_def declares_def)

lemma supporting_collector_None:
  "supporting_collector cs cap = None \<longleftrightarrow> (\<forall>d \<in> set cs. \<not> declares d cap)"
  by (auto simp: supporting_collector_def find_None_iff capability_set_contains_def
      capability_set_def capability_set_new_def declares_def)

definition unmet :: "CollectorDescriptor list \<Rightarrow> RequestMode \<Rightarrow> CapabilityRequest \<Rightarrow> bool" where
  "unmet cs mode r \<longleftrightarrow> cr_mode r = mode \<and> supporting_collector cs (cr_capability r) = None"

definition bound :: "Bindings \<Rightarrow> CollectorName \<Rightarrow> Capability \<Rightarrow> bool" where
  "bound b name cap \<longleftrightarrow> (\<exists>caps. bm_get b name = Some caps \<and> cap \<in> set caps)"

lemma bound_push: "bound (push_binding b n c) name cap \<longleftrightarrow> bound b name cap \<or> name = n \<and> cap = c"
  by (cases "bm_get b n") (auto simp: bound_def push_binding_def)

lemma negotiate_requests_result:
  assumes "negotiate_requests cs rs (b, missing, un) = (b', missing', un')"
  shows "map nf_capability missing' = map nf_capability missing @ map cr_capability (filter (unmet cs Required) rs)"
    and "un' = un @ map cr_capability (filter (unmet cs Opportunistic) rs)"
    and "bound b' name cap \<longleftrightarrow> bound b name cap
      \<or> (\<exists>r \<in> set rs. cr_mode r \<noteq> Disabled \<and> cr_capability r = cap
           \<and> (\<exists>d. supporting_collector cs cap = Some d \<and> cd_name d = name))"
  using assms
proof (induction rs arbitrary: b missing un)
  case (Cons r rs)
  { case 1 with Cons.IH(1) show ?case
      by (cases "cr_mode r"; cases "supporting_collector cs (cr_capability r)") (auto simp: unmet_def) }
  { case 2 then show ?case
      by (cases "cr_mode r"; cases "supporting_collector cs (cr_capability r)")
        (auto simp: unmet_def dest: Cons.IH(2)) }
  { case 3 with Cons.IH(3) show ?case
      by (cases "cr_mode r"; cases "supporting_collector cs (cr_capability r)")
        (auto simp: bound_push) }
qed simp_all

definition collector_plans :: "Bindings \<Rightarrow> CollectorPlan list" where
  "collector_plans b =
     map (\<lambda>(name, caps). \<lparr>cl_collector_name = name, cl_capabilities = caps\<rparr>) (bm_entries b)"

lemma collector_plans_bound:
  "(\<exists>c \<in> set (collector_plans b). cl_collector_name c = name \<and> cap \<in> set (cl_capabilities c))
     \<longleftrightarrow> bound b name cap"
  by (force simp: collector_plans_def bound_def simp flip: bm_entries_iff)

lemma sensor_plan_negotiate_alt:
  assumes "negotiate_requests cs (cp_capability_requests profile) (bm_empty, [], []) = (b, missing, un)"
  shows "sensor_plan_negotiate profile cs =
    (if missing \<noteq> [] then Err missing
     else Ok \<lparr>sp_profile_name = cp_profile_name profile, sp_collectors = collector_plans b,
              sp_unbound_opportunistic = un\<rparr>)"
  by (simp add: sensor_plan_negotiate_def assms collector_plans_def)

section \<open>A concrete run\<close>

definition example_profile :: CaptureProfileSnapshot where
  "example_profile =
     \<lparr>cp_profile_name = ''default'', cp_captured_at = 0,
      cp_capability_requests =
        [\<lparr>cr_capability = ProcLifecycle, cr_mode = Required\<rparr>,
         \<lparr>cr_capability = NetDns, cr_mode = Opportunistic\<rparr>],
      cp_agent_descendant_observation_depth = 1, cp_classify_providers = False,
      cp_enable_payload_collectors = False\<rparr>"

definition example_collector :: CollectorDescriptor where
  "example_collector =
     \<lparr>cd_name = ''ebpf'',
      cd_capabilities = [\<lparr>cd_capability = ProcLifecycle, cd_fields = []\<rparr>],
      cd_supports_attach_coverage_guard = True, cd_supports_existing_pid_attach = True\<rparr>"

definition example_plan :: SensorPlan where
  "example_plan =
     \<lparr>sp_profile_name = ''default'',
      sp_collectors = [\<lparr>cl_collector_name = ''ebpf'', cl_capabilities = [ProcLifecycle]\<rparr>],
      sp_unbound_opportunistic = [NetDns]\<rparr>"

definition example_request :: TrackTraceRequest where
  "example_request =
     \<lparr>tq_root_identity = 1, tq_root_pid_namespace = None, tq_root_container_id = None,
      tq_root_pod_uid = None, tq_root_host_id = None, tq_root_working_directory = None,
      tq_display_name = ''demo'', tq_profile_snapshot = example_profile, tq_tags = bm_empty,
      tq_created_at = 10\<rparr>"

definition example_exit :: ExitStatus where
  "example_exit = \<lparr>es_code = Some 0, es_observed_at = 30, es_source = Some Event\<rparr>"

text \<open>Trace 7 starts with root process 1, becomes active, and process 1 forks process 2.\<close>

definition example_ops :: "RuntimeOp list" where
  "example_ops =
     [CreateStartingTrace (Ok (replicate 32 1)) (Ok (replicate 16 0)) 7 example_request example_plan,
      ActivateTrace 7 20, InheritProcess 7 1 2 25]"

fun run_ops :: "RuntimeOp list \<Rightarrow> TraceRuntime \<Rightarrow> TraceRuntime" where
  "run_ops [] rt = rt"
| "run_ops (op # ops) rt = run_ops ops (fst (run_op op rt))"

definition example_runtime :: TraceRuntime where
  "example_runtime = run_ops example_ops (trace_runtime_new [example_collector] 8)"

lemma reachable_op:
  assumes "runtime_reachable rt"
  shows "runtime_reachable (fst (run_op op rt))"
proof -
  have "runtime_step rt (fst (run_op op rt))"
    by (intro run_step [of op _ _ "snd (run_op op rt)"]) simp_all
  with assms show ?thesis by (rule reachable_step)
qed

lemma traced_example_reachable: "runtime_reachable example_runtime"
proof -
  have start: "runtime_reachable (trace_runtime_new [example_collector] 8)"
    by (rule reachable_start) (auto simp: runtime_start_def)
  show ?thesis
    unfolding example_runtime_def example_ops_def run_ops.simps
    by (intro reachable_op start)
qed

definition example_entry :: "TraceRuntime \<Rightarrow> TraceEntry" where
  "example_entry rt = the (get_trace rt 7)"

lemma example_state:
  "map_option (\<lambda>e. tr_lifecycle_state (te_trace e)) (get_trace example_runtime 7)
     = Some TraceLifecycleState.Active"
  "map_option (\<lambda>e. bm_keys (te_memberships e)) (get_trace example_runtime 7) = Some [1, 2]"
  by code_simp+

lemma example_present:
  "get_trace example_runtime 7 = Some (example_entry example_runtime)"
  "tr_lifecycle_state (te_trace (example_entry example_runtime)) = TraceLifecycleState.Active"
  "bm_keys (te_memberships (example_entry example_runtime)) = [1, 2]"
  using example_state by (auto simp: example_entry_def)

definition roots_present :: "TraceRuntime \<Rightarrow> bool" where
  "roots_present rt \<longleftrightarrow> (\<forall>t e. bm_get (traces rt) t = Some e
     \<longrightarrow> bm_get (te_memberships e) (tr_root_process_identity (te_trace e)) \<noteq> None)"

lemma reconcile_finds_root:
  assumes "\<And>e. bm_get (traces rt) t = Some e
      \<Longrightarrow> bm_get (te_memberships e) (tr_root_process_identity (te_trace e)) \<noteq> None"
  shows "snd (reconcile_lifecycle rt t x) \<noteq> Err (RootMembershipMissing u)"
  using assms by (auto simp: reconcile_lifecycle_def Let_def split: option.splits sum.splits)

lemma remove_finds_root:
  assumes "roots_present rt"
  shows "snd (track_remove_root rt req) \<noteq> Err (RootMembershipMissing u)"
proof (cases "bm_get (traces rt) (rr_trace_id req)")
  case (Some e)
  with assms obtain root
    where root: "bm_get (te_memberships e) (tr_root_process_identity (te_trace e)) = Some root"
    unfolding roots_present_def by blast
  show ?thesis
    unfolding track_remove_root_def Some option.case Let_def root
    by (rule reconcile_finds_root) (simp split: if_split_asm)
qed (simp add: track_remove_root_def)

lemma exit_finds_root:
  assumes "roots_present rt"
  shows "snd (mark_process_exited rt t i st) \<noteq> Err (RootMembershipMissing u)"
proof (cases "bm_get (traces rt) t")
  case (Some e)
  with assms have root: "bm_get (te_memberships e) (tr_root_process_identity (te_trace e)) \<noteq> None"
    unfolding roots_present_def by blast
  show ?thesis
  proof (cases "bm_get (te_memberships e) i")
    case (Some m)
    show ?thesis
      unfolding mark_process_exited_def \<open>bm_get (traces rt) t = Some e\<close> option.case Some
      by (rule reconcile_finds_root) (use root in \<open>simp split: if_split_asm\<close>)
  qed (simp add: mark_process_exited_def \<open>bm_get (traces rt) t = Some e\<close>)
qed (simp add: mark_process_exited_def)

lemma complete_finds_root:
  "snd (complete_after_resource_barrier rt t x) \<noteq> Err (RootMembershipMissing u)"
  by (simp add: complete_after_resource_barrier_def Let_def split: option.split sum.split)

lemma run_op_finds_root:
  assumes "roots_present rt"
  shows "snd (run_op op rt) \<noteq> Err (RootMembershipMissing u)"
proof (cases op)
  case (CompleteAfterResourceBarrier t x)
  then show ?thesis
    using complete_finds_root [of rt t x u]
    by (cases "snd (complete_after_resource_barrier rt t x)") auto
qed (simp_all add: remove_finds_root exit_finds_root assms create_starting_trace_def
    bind_trace_owner_def activate_trace_def Let_def insert_membership_def inherit_process_def
    insert_observed_child_def mark_degraded_def fail_trace_def split: option.split sum.split)

section \<open>Properties\<close>

text \<open>
  (C7) The registry's invariant holds after any sequence of operations: each trace is stored
  under its own identifier, its times agree with its lifecycle state, its members are stored
  under their own identities and its root is always among them, so that no operation ever
  reports a missing root membership.
\<close>

theorem registry_consistent:
  assumes "runtime_reachable rt"
  shows "(\<forall>t e. get_trace rt t = Some e \<longrightarrow> tr_trace_id (te_trace e) = t \<and> life_inv (te_trace e)
        \<and> find_membership_in_trace rt t (tr_root_process_identity (te_trace e)) \<noteq> None
        \<and> (\<forall>i m. find_membership_in_trace rt t i = Some m \<longrightarrow> pm_identity m = i))
    \<and> (\<forall>op t. snd (run_op op rt) \<noteq> Err (RootMembershipMissing t))"
proof -
  have inv: "runtime_inv rt" using assms by (rule tracing.reachable_inv)
  then have "roots_present rt"
    unfolding roots_present_def runtime_inv_def entry_inv_def get_trace_def by blast
  then have "\<forall>op t. snd (run_op op rt) \<noteq> Err (RootMembershipMissing t)"
    by (intro allI run_op_finds_root)
  with inv show ?thesis
    by (auto simp: runtime_inv_def entry_inv_def get_trace_def find_membership_in_trace_def)
qed

theorem registry_consistent_witness:
  "tr_trace_id (te_trace (example_entry example_runtime)) = 7
     \<and> snd (run_op (TrackRemoveRoot \<lparr>rr_trace_id = 7, rr_removed_at = 40\<rparr>) example_runtime)
         \<noteq> Err (RootMembershipMissing 7)"
  using registry_consistent [OF traced_example_reachable] example_present(1) by blast

text \<open>
  (C8) A trace's lifecycle only moves along the allowed transitions, through any sequence of operations
  of the registry, on this and on other traces, that neither removes the trace nor creates one under
  its identifier: its identifiers, its root and its creation time never change, a start
  time once set stays, and a completed, exited or failed trace keeps its state and times. A
  successful creation under its identifier is not refused: it replaces the trace, ended or not, by a
  starting one.
\<close>

theorem lifecycle_moves_forward:
  assumes "runtime_reachable rt" and "(keep_step t)\<^sup>*\<^sup>* rt rt'" and "get_trace rt t = Some e"
  shows "\<exists>e'. get_trace rt' t = Some e' \<and> trace_fwd (te_trace e) (te_trace e')
    \<and> (is_terminal (tr_lifecycle_state (te_trace e))
        \<longrightarrow> tr_lifecycle_state (te_trace e') = tr_lifecycle_state (te_trace e))
    \<and> (\<forall>a b req plan rt''. run_op (CreateStartingTrace a b t req plan) rt' = (rt'', Ok ())
        \<longrightarrow> (\<exists>e''. get_trace rt'' t = Some e''
              \<and> tr_lifecycle_state (te_trace e'') = TraceLifecycleState.Starting))"
proof -
  have "runtime_inv rt" using assms(1) by (rule tracing.reachable_inv)
  with assms(2) have "runtime_fwd t rt rt'" by (rule lifetimes.steps_fwd)
  with assms(3) obtain e' where e': "get_trace rt' t = Some e'" "trace_fwd (te_trace e) (te_trace e')"
    unfolding runtime_fwd_def entry_fwd_def by blast
  moreover from this(2) have "transition_allowed\<^sup>*\<^sup>* (tr_lifecycle_state (te_trace e)) (tr_lifecycle_state (te_trace e'))"
    by (simp add: trace_fwd_def)
  moreover have "\<exists>e''. get_trace rt'' t = Some e'' \<and> tr_lifecycle_state (te_trace e'') = TraceLifecycleState.Starting"
    if "create_starting_trace a b rt' t req plan = (rt'', Ok ())" for a b req plan rt''
    using that by (rule create_cases) (auto simp: get_trace_def)
  ultimately show ?thesis using terminal_stays by simp
qed

theorem lifecycle_moves_forward_witness:
  "\<exists>e'. get_trace (fst (fail_trace example_runtime 7 50)) 7 = Some e'
     \<and> trace_fwd (te_trace (example_entry example_runtime)) (te_trace e')"
proof -
  have "run_op (FailTrace 7 50) example_runtime
      = (fst (fail_trace example_runtime 7 50), snd (fail_trace example_runtime 7 50))" by simp
  then have "keep_step 7 example_runtime (fst (fail_trace example_runtime 7 50))"
    by (rule keep) simp
  then have "(keep_step 7)\<^sup>*\<^sup>* example_runtime (fst (fail_trace example_runtime 7 50))" by simp
  from lifecycle_moves_forward [OF traced_example_reachable this example_present(1)] show ?thesis by blast
qed

text \<open>
  Marking a member of a running trace as exited always succeeds and settles the
  lifecycle: the trace goes on while its root is captured and alive; when the root is gone
  it drains as long as some member can still be captured, and otherwise ends as exited, or
  as completed when the root was only untracked.
\<close>

theorem exit_settles_lifecycle:
  assumes "runtime_reachable rt" and "get_trace rt t = Some e"
    and "tr_lifecycle_state (te_trace e) \<in> {TraceLifecycleState.Active, Draining}"
    and "find_membership_in_trace rt t i = Some m"
  shows "snd (mark_process_exited rt t i st) = Ok ()
    \<and> (\<exists>e' root'. get_trace (fst (mark_process_exited rt t i st)) t = Some e'
        \<and> te_memberships e' = bm_insert i (membership_mark_exited m st) (te_memberships e)
        \<and> bm_get (te_memberships e') (tr_root_process_identity (te_trace e)) = Some root'
        \<and> tr_lifecycle_state (te_trace e') =
            (if pm_capture_enabled root' \<and> pm_state root' \<noteq> MembershipState.Exited
             then tr_lifecycle_state (te_trace e)
             else if (\<exists>j m'. bm_get (te_memberships e') j = Some m' \<and> capturable m') then Draining
             else if pm_state root' = MembershipState.Exited then TraceLifecycleState.Exited
             else Completed))"
proof -
  have inv: "entry_inv e"
    using tracing.reachable_inv [OF assms(1)] assms(2) by (simp add: runtime_inv_def)
  have "tr_lifecycle_state (te_trace e) \<noteq> TraceLifecycleState.Starting"
    and nt: "\<not> is_terminal (tr_lifecycle_state (te_trace e))"
    using assms(3) by auto
  moreover have "bm_get (te_memberships e) i = Some m"
    using assms(2,4) by (simp add: find_membership_in_trace_def get_trace_def)
  ultimately obtain e' root' where "get_trace (fst (mark_process_exited rt t i st)) t = Some e'"
    and "snd (mark_process_exited rt t i st) = Ok ()"
    and "te_memberships e' = bm_insert i (membership_mark_exited m st) (te_memberships e)"
    and "bm_get (te_memberships e') (tr_root_process_identity (te_trace e)) = Some root'"
    and "tr_lifecycle_state (te_trace e')
      = settled_state (tr_lifecycle_state (te_trace e)) root' (te_memberships e')"
    using mark_exited_settles [OF assms(2) inv] by metis
  then show ?thesis
    unfolding has_capturable_iff [symmetric] using nt
    by (intro conjI exI [of _ e'] exI [of _ root']) (simp_all add: settled_state_def)
qed

theorem exit_settles_lifecycle_witness:
  "snd (mark_process_exited example_runtime 7 1 example_exit) = Ok ()"
proof -
  have "find_membership_in_trace example_runtime 7 1 \<noteq> None" by code_simp
  then obtain m where "find_membership_in_trace example_runtime 7 1 = Some m" by blast
  from exit_settles_lifecycle [OF traced_example_reachable example_present(1) _ this]
  show ?thesis using example_present(2) by simp
qed

text \<open>
  (C9) A running trace ends: once every member of an active or draining trace has been
  observed to exit, in any order, the trace is in a terminal state.
\<close>

theorem all_exits_end_trace:
  assumes "runtime_reachable rt" and "get_trace rt t = Some e"
    and "tr_lifecycle_state (te_trace e) \<in> {TraceLifecycleState.Active, Draining}"
    and "set (map fst exits) = set (bm_keys (te_memberships e))"
  shows "\<exists>e'. get_trace (mark_exits rt t exits) t = Some e'
    \<and> is_terminal (tr_lifecycle_state (te_trace e'))"
proof (rule mark_exits_end [OF assms(2) tracing.reachable_inv [OF assms(1)]])
  show "tr_lifecycle_state (te_trace e) \<noteq> TraceLifecycleState.Starting" using assms(3) by auto
  show "\<forall>i\<in>fst ` set exits. bm_get (te_memberships e) i \<noteq> None"
    using assms(4) by (auto simp: bm_keys_iff)
  show "\<forall>i m. bm_get (te_memberships e) i = Some m
      \<longrightarrow> pm_state m = MembershipState.Exited \<or> i \<in> fst ` set exits"
    using assms(4) by (auto simp: bm_keys_iff)
  have "tr_root_process_identity (te_trace e) \<in> set (bm_keys (te_memberships e))"
    using tracing.reachable_inv [OF assms(1)] assms(2)
    by (auto simp: runtime_inv_def entry_inv_def bm_keys_iff)
  then show "exits = [] \<longrightarrow> is_terminal (tr_lifecycle_state (te_trace e))"
    using assms(4) by auto
qed

theorem all_exits_end_trace_witness:
  "\<exists>e'. get_trace (mark_exits example_runtime 7 [(2, example_exit), (1, example_exit)]) 7 = Some e'
     \<and> is_terminal (tr_lifecycle_state (te_trace e'))"
  by (rule all_exits_end_trace [OF traced_example_reachable example_present(1)])
    (auto simp: example_present)

text \<open>
  (C10) Traces are isolated: an operation on one trace, successful or not, leaves every other
  trace's entry and memberships exactly as they were.
\<close>

theorem traces_isolated:
  assumes "run_op op rt = (rt', out)" and "op_trace op \<noteq> Some u"
  shows "get_trace rt' u = get_trace rt u
    \<and> find_membership_in_trace rt' u i = find_membership_in_trace rt u i"
  using run_op_other [OF assms] by (simp add: get_trace_def find_membership_in_trace_def)

text \<open>A second trace, 9, beside trace 7.\<close>

definition example_two_traces :: TraceRuntime where
  "example_two_traces = fst (run_op
     (CreateStartingTrace (Ok (replicate 32 1)) (Ok (replicate 16 0)) 9 example_request example_plan) example_runtime)"

lemma example_two_present:
  "\<not> Option.is_none (get_trace example_two_traces 9) \<and> \<not> Option.is_none (get_trace example_two_traces 7)"
  by code_simp

theorem traces_isolated_witness:
  "get_trace (fst (fail_trace example_two_traces 9 60)) 7 = get_trace example_two_traces 7
     \<and> get_trace example_two_traces 9 \<noteq> None \<and> get_trace example_two_traces 7 \<noteq> None"
  using traces_isolated [of "FailTrace 9 60" example_two_traces "fst (fail_trace example_two_traces 9 60)"
      "snd (fail_trace example_two_traces 9 60)" 7] example_two_present by (simp add: Option.is_none_def)

text \<open>
  (C11) Negotiation: it fails exactly with the required capabilities that no collector
  declares; otherwise every required capability is bound, every binding is a requested and
  enabled capability given to a collector that declares it, and exactly the opportunistic
  capabilities that no collector declares are left unbound.
\<close>

theorem negotiate_correct:
  "(case sensor_plan_negotiate profile cs of
      Inl failures \<Rightarrow> failures \<noteq> []
        \<and> map nf_capability failures =
            map cr_capability (filter (\<lambda>r. cr_mode r = Required
              \<and> (\<forall>d \<in> set cs. \<not> declares d (cr_capability r))) (cp_capability_requests profile))
    | Inr plan \<Rightarrow>
        (\<forall>r \<in> set (cp_capability_requests profile). cr_mode r = Required \<longrightarrow>
           (\<exists>c \<in> set (sp_collectors plan). cr_capability r \<in> set (cl_capabilities c)))
        \<and> (\<forall>c \<in> set (sp_collectors plan). \<forall>cap \<in> set (cl_capabilities c).
             (\<exists>d \<in> set cs. cd_name d = cl_collector_name c \<and> declares d cap)
             \<and> (\<exists>r \<in> set (cp_capability_requests profile).
                  cr_mode r \<noteq> Disabled \<and> cr_capability r = cap))
        \<and> sp_unbound_opportunistic plan =
            map cr_capability (filter (\<lambda>r. cr_mode r = Opportunistic
              \<and> (\<forall>d \<in> set cs. \<not> declares d (cr_capability r))) (cp_capability_requests profile)))"
proof -
  let ?rs = "cp_capability_requests profile"
  obtain b missing un where run: "negotiate_requests cs ?rs (bm_empty, [], []) = (b, missing, un)"
    by (metis prod_cases3)
  note res = negotiate_requests_result [OF run]
  have unmet: "unmet cs mode = (\<lambda>r. cr_mode r = mode \<and> (\<forall>d \<in> set cs. \<not> declares d (cr_capability r)))"
    for mode by (simp add: fun_eq_iff unmet_def supporting_collector_None)
  have missing: "map nf_capability missing = map cr_capability (filter (unmet cs Required) ?rs)"
    using res(1) by simp
  have bound: "bound b name cap \<longleftrightarrow> (\<exists>r \<in> set ?rs. cr_mode r \<noteq> Disabled \<and> cr_capability r = cap
      \<and> (\<exists>d. supporting_collector cs cap = Some d \<and> cd_name d = name))" for name cap
    using res(3) [of name cap] by (simp add: bound_def)
  show ?thesis
  proof (cases "missing = []")
    case False
    with missing show ?thesis by (simp add: sensor_plan_negotiate_alt [OF run] unmet)
  next
    case True
    with missing have met: "\<not> unmet cs Required r" if "r \<in> set ?rs" for r
      using that by (simp add: filter_empty_conv)
    have "\<exists>c \<in> set (collector_plans b). cr_capability r \<in> set (cl_capabilities c)"
      if "r \<in> set ?rs" "cr_mode r = Required" for r
    proof -
      from met [OF that(1)] that(2) obtain d where "supporting_collector cs (cr_capability r) = Some d"
        by (auto simp: unmet_def)
      with that have "bound b (cd_name d) (cr_capability r)"
        unfolding bound by (intro bexI [of _ r] conjI exI [of _ d]) simp_all
      with collector_plans_bound show ?thesis by blast
    qed
    moreover have "(\<exists>d \<in> set cs. cd_name d = cl_collector_name c \<and> declares d cap)
        \<and> (\<exists>r \<in> set ?rs. cr_mode r \<noteq> Disabled \<and> cr_capability r = cap)"
      if "c \<in> set (collector_plans b)" "cap \<in> set (cl_capabilities c)" for c cap
    proof -
      from that collector_plans_bound have "bound b (cl_collector_name c) cap" by blast
      then show ?thesis using supporting_collector_Some unfolding bound by blast
    qed
    ultimately show ?thesis
      using True res(2) by (simp add: sensor_plan_negotiate_alt [OF run] unmet)
  qed
qed

theorem negotiate_correct_witness:
  "sensor_plan_negotiate example_profile [example_collector] = Ok example_plan
     \<and> (\<exists>c \<in> set (sp_collectors example_plan). ProcLifecycle \<in> set (cl_capabilities c))"
proof -
  have ok: "sensor_plan_negotiate example_profile [example_collector] = Ok example_plan"
    by code_simp
  have "\<exists>c \<in> set (sp_collectors example_plan). ProcLifecycle \<in> set (cl_capabilities c)"
    using negotiate_correct [of "[example_collector]" example_profile] ok
    by (simp add: example_profile_def)
  with ok show ?thesis ..
qed

section \<open>Identifiers and inheritance\<close>

definition reserved_id :: "TraceRuntime \<Rightarrow> nat \<Rightarrow> TraceId" where
  "reserved_id rt n = snd (reserve_trace_id (((\<lambda>r. fst (reserve_trace_id r)) ^^ n) rt))"

lemma reserved_id_eq: "reserved_id rt n = next_trace_id rt + of_nat n"
proof -
  have "next_trace_id (((\<lambda>r. fst (reserve_trace_id r)) ^^ n) rt) = next_trace_id rt + of_nat n"
    by (induction n) (simp_all add: reserve_trace_id_def)
  then show ?thesis by (simp add: reserved_id_def reserve_trace_id_def)
qed

text \<open>
  (C13) Reserved trace identifiers are distinct: no two of any 2^64 consecutive reservations
  return the same identifier, even when the counter wraps around.
\<close>

theorem reserved_ids_distinct:
  assumes "i < j" and "j < 2 ^ 64"
  shows "reserved_id rt i \<noteq> reserved_id rt j"
proof
  assume "reserved_id rt i = reserved_id rt j"
  then have "unat (of_nat i :: u64) = unat (of_nat j :: u64)" by (simp add: reserved_id_eq)
  moreover have "unat (of_nat i :: u64) = i" "unat (of_nat j :: u64) = j"
    using assms by (simp_all add: unat_of_nat take_bit_nat_eq_self)
  ultimately show False using assms(1) by simp
qed

theorem reserved_ids_distinct_witness:
  "reserved_id (trace_runtime_new [] (- 1)) 0 \<noteq> reserved_id (trace_runtime_new [] (- 1)) 1"
  by (rule reserved_ids_distinct) simp_all

lemma version_bits: "and (or (and b 0x0f) 0x40) 0xf0 = (0x40 :: u8)"
  and variant_bits: "and (or (and b 0x3f) 0x80) 0xc0 = (0x80 :: u8)"
  by (simp_all add: bit.conj_disj_distrib2 and.assoc)

lemma stamp_uuid_bytes:
  assumes "length b = 16"
  shows "length (stamp_uuid b) = 16"
    and "and (stamp_uuid b ! 6) 0xf0 = 0x40"
    and "and (stamp_uuid b ! 8) 0xc0 = 0x80"
    and "i < 16 \<Longrightarrow> i \<noteq> 6 \<Longrightarrow> i \<noteq> 8 \<Longrightarrow> stamp_uuid b ! i = b ! i"
  using assms by (simp_all add: stamp_uuid_def Let_def version_bits variant_bits)

lemma stamp_uuid_nonzero:
  assumes "length b = 16"
  shows "otel_trace_id_from_bytes (stamp_uuid b) = Some (stamp_uuid b)"
proof -
  have "stamp_uuid b \<noteq> replicate 16 0"
  proof
    assume "stamp_uuid b = replicate 16 0"
    then have "stamp_uuid b ! 6 = 0" by simp
    with stamp_uuid_bytes(2) [OF assms] show False by simp
  qed
  then show ?thesis by (simp add: otel_trace_id_from_bytes_def)
qed

text \<open>
  Creating a trace fails only if the random source fails: with two filled buffers it
  registers a trace in state starting, with its root as only member, whose OTLP identifier
  is a version 4 UUID that differs from the random bytes in the six stamped bits only.
\<close>

theorem create_registers_trace:
  assumes "length bytes = 16"
    and "create_starting_trace (Ok alert_token) (Ok bytes) rt t request plan = (rt', out)"
  shows "out = Ok ()
    \<and> (\<exists>e. get_trace rt' t = Some e
        \<and> tr_lifecycle_state (te_trace e) = TraceLifecycleState.Starting
        \<and> bm_keys (te_memberships e) = [tq_root_identity request]
        \<and> te_owner e = None
        \<and> (let otel = tr_otel_trace_id (te_trace e)
           in length otel = 16 \<and> and (otel ! 6) 0xf0 = 0x40 \<and> and (otel ! 8) 0xc0 = 0x80
              \<and> (\<forall>i < 16. i \<noteq> 6 \<longrightarrow> i \<noteq> 8 \<longrightarrow> otel ! i = bytes ! i)))"
  using assms stamp_uuid_bytes [OF assms(1)] stamp_uuid_nonzero [OF assms(1)]
  by (auto simp: create_starting_trace_def get_trace_def membership_index_new_def
      membership_root_def bm_keys_def bm_insert.rep_eq bm_empty.rep_eq Let_def)

theorem create_registers_trace_witness:
  "snd (create_starting_trace (Ok (replicate 32 1)) (Ok (replicate 16 0))
          (trace_runtime_new [] 1) 1 example_request example_plan) = Ok ()"
  using create_registers_trace [of "replicate 16 0" "replicate 32 1" "trace_runtime_new [] 1" 1
      example_request example_plan] by (metis length_replicate prod.collapse)

text \<open>
  (C12) Inheritance is guarded: a child enters a trace by inheritance exactly under a member
  that is captured, propagating and starting or active, and it enters as a captured, propagating, starting
  member without an exit status that names its parent and the time, so that it can pass its membership
  on at once; no other membership changes, and when it is refused nothing does. An observed child
  enters in the same way under any recorded parent, whatever the state of the parent.
\<close>

theorem inherit_guarded:
  assumes "inherit_process rt t parent child at = (rt', out)" and "insert_observed_child rt t parent child at = (rt'', out'')"
  shows "(out = Ok () \<longleftrightarrow> (\<exists>p. find_membership_in_trace rt t parent = Some p
          \<and> pm_capture_enabled p \<and> pm_propagation_enabled p
          \<and> pm_state p \<in> {MembershipState.Starting, MembershipState.Active}))
     \<and> (out \<noteq> Ok () \<longrightarrow> rt' = rt)
     \<and> (out = Ok () \<longrightarrow> (\<exists>p. find_membership_in_trace rt t parent = Some p
          \<and> find_membership_in_trace rt' t child = Some
             \<lparr>pm_trace_id = t, pm_identity = child, pm_inherited_from = Some (pm_identity p), pm_observed_at = Some at,
              pm_capture_enabled = True, pm_propagation_enabled = True, pm_state = MembershipState.Starting,
              pm_exit_status = None\<rparr>)
          \<and> snd (inherit_process rt' t child grandchild later) = Ok ()
          \<and> (\<forall>u j. u \<noteq> t \<or> j \<noteq> child \<longrightarrow> find_membership_in_trace rt' u j = find_membership_in_trace rt u j))
     \<and> (out'' = Ok () \<longleftrightarrow> find_membership_in_trace rt t parent \<noteq> None)
     \<and> (out'' \<noteq> Ok () \<longrightarrow> rt'' = rt)
     \<and> (out = Ok () \<longrightarrow> rt'' = rt')"
proof (cases "bm_get (traces rt) t")
  case None
  with assms show ?thesis
    by (auto simp: inherit_process_def insert_observed_child_def find_membership_in_trace_def)
next
  case entry: (Some e)
  show ?thesis
  proof (cases "bm_get (te_memberships e) parent")
    case None
    with assms entry show ?thesis
      by (auto simp: inherit_process_def insert_observed_child_def find_membership_in_trace_def)
  next
    case (Some p)
    with assms entry show ?thesis
      by (cases "can_inherit p")
        (auto simp: inherit_process_def insert_observed_child_def find_membership_in_trace_def can_inherit_def
          membership_insert_def membership_inherited_def)
  qed
qed

theorem inherit_guarded_witness:
  "snd (inherit_process example_runtime 7 1 3 40) = Ok ()
     \<and> (\<exists>p. find_membership_in_trace example_runtime 7 1 = Some p
          \<and> find_membership_in_trace (fst (inherit_process example_runtime 7 1 3 40)) 7 3 = Some
             \<lparr>pm_trace_id = 7, pm_identity = 3, pm_inherited_from = Some (pm_identity p), pm_observed_at = Some 40,
              pm_capture_enabled = True, pm_propagation_enabled = True, pm_state = MembershipState.Starting,
              pm_exit_status = None\<rparr>)"
proof -
  have "(case find_membership_in_trace example_runtime 7 1 of
      Some p \<Rightarrow> pm_capture_enabled p \<and> pm_propagation_enabled p \<and> pm_state p = MembershipState.Active | None \<Rightarrow> False)"
    by code_simp
  then have "\<exists>p. find_membership_in_trace example_runtime 7 1 = Some p \<and> pm_capture_enabled p \<and> pm_propagation_enabled p
      \<and> pm_state p \<in> {MembershipState.Starting, MembershipState.Active}"
    by (auto split: option.splits)
  then show ?thesis
    using inherit_guarded [where rt = example_runtime and t = 7 and parent = 1 and child = 3 and at = 40,
        OF prod.collapse [symmetric] prod.collapse [symmetric]] by blast
qed

end
