(* ===== verification/Rust_Text.thy ===== *)
theory Rust_Text
  imports Prelude
begin

text \<open>
  The operations of the standard library on text that the components use: trimming and
  splitting at white space, lines, prefixes and suffixes, and decimal printing and parsing of
  unsigned integers. Text is a list of bytes; white space is the white space of ASCII, the
  only one the formats of the program produce.
\<close>

section \<open>Splitting\<close>

definition is_whitespace :: "char \<Rightarrow> bool" where
  "is_whitespace c \<longleftrightarrow> c = CHR '' '' \<or> (9 \<le> (of_char c :: nat) \<and> (of_char c :: nat) \<le> 13)"

definition trim :: "string \<Rightarrow> string" where
  "trim s = rev (dropWhile is_whitespace (rev (dropWhile is_whitespace s)))"

fun split_on :: "'a \<Rightarrow> 'a list \<Rightarrow> 'a list list" where
  "split_on sep [] = [[]]"
| "split_on sep (c # cs) =
     (if c = sep then [] # split_on sep cs
      else case split_on sep cs of
             [] \<Rightarrow> [[c]]
           | part # parts \<Rightarrow> (c # part) # parts)"

fun split_whitespace_acc :: "string \<Rightarrow> string \<Rightarrow> string list" where
  "split_whitespace_acc word [] = (if word = [] then [] else [word])"
| "split_whitespace_acc word (c # cs) =
     (if is_whitespace c
      then (if word = [] then split_whitespace_acc [] cs else word # split_whitespace_acc [] cs)
      else split_whitespace_acc (word @ [c]) cs)"

definition split_whitespace :: "string \<Rightarrow> string list" where
  "split_whitespace s = split_whitespace_acc [] s"

text \<open>A line ends with a line feed, optionally preceded by a carriage return.\<close>

definition strip_cr :: "string \<Rightarrow> string" where
  "strip_cr line = (if line \<noteq> [] \<and> last line = CHR 0x0D then butlast line else line)"

definition text_lines :: "string \<Rightarrow> string list" where
  "text_lines s =
     (let parts = split_on CHR 0x0A s
      in map strip_cr (butlast parts) @ (if last parts = [] then [] else [last parts]))"

definition strip_suffix :: "string \<Rightarrow> string \<Rightarrow> string option" where
  "strip_suffix suf s =
     (if length suf \<le> length s \<and> drop (length s - length suf) s = suf
      then Some (take (length s - length suf) s) else None)"

definition strip_prefix :: "'a list \<Rightarrow> 'a list \<Rightarrow> 'a list option" where
  "strip_prefix p s = (if take (length p) s = p then Some (drop (length p) s) else None)"

definition starts_with :: "'a list \<Rightarrow> 'a list \<Rightarrow> bool" where
  "starts_with s p \<longleftrightarrow> take (length p) s = p"

text \<open>Splitting at the first and at the last occurrence of a pattern.\<close>

fun split_once :: "string \<Rightarrow> string \<Rightarrow> (string \<times> string) option" where
  "split_once pat [] = (if pat = [] then Some ([], []) else None)"
| "split_once pat (c # cs) =
     (if starts_with (c # cs) pat then Some ([], drop (length pat) (c # cs))
      else map_option (\<lambda>(a, b). (c # a, b)) (split_once pat cs))"

fun rsplit_once :: "string \<Rightarrow> string \<Rightarrow> (string \<times> string) option" where
  "rsplit_once pat [] = (if pat = [] then Some ([], []) else None)"
| "rsplit_once pat (c # cs) =
     (case rsplit_once pat cs of
        Some (a, b) \<Rightarrow> Some (c # a, b)
      | None \<Rightarrow> if starts_with (c # cs) pat then Some ([], drop (length pat) (c # cs)) else None)"

lemma strip_suffix_Some: "strip_suffix suf s = Some b \<longleftrightarrow> s = b @ suf"
proof
  assume "strip_suffix suf s = Some b"
  then have "drop (length s - length suf) s = suf" "take (length s - length suf) s = b"
    by (auto simp: strip_suffix_def split: if_splits)
  then show "s = b @ suf" by (metis append_take_drop_id)
qed (simp add: strip_suffix_def)

lemma starts_with_iff: "starts_with s p \<longleftrightarrow> (\<exists>t. s = p @ t)"
  unfolding starts_with_def by (metis append_eq_conv_conj append_take_drop_id)

lemma starts_with_refl [simp]: "starts_with s s"
  by (simp add: starts_with_def)

lemma starts_with_trans: "starts_with a b \<Longrightarrow> starts_with b c \<Longrightarrow> starts_with a c"
  by (auto simp: starts_with_iff)

lemma split_on_ne [simp]: "split_on sep s \<noteq> []"
  by (cases s) (auto split: list.splits)

lemma split_on_no_sep: "part \<in> set (split_on sep s) \<Longrightarrow> sep \<notin> set part"
  by (induction s arbitrary: part) (auto split: list.splits if_splits)

lemma split_on_plain: "sep \<notin> set s \<Longrightarrow> split_on sep s = [s]"
  by (induction s) auto

lemma split_on_append:
  "sep \<notin> set s \<Longrightarrow> split_on sep (s @ sep # t) = s # split_on sep t"
  by (induction s) auto

section \<open>Decimal numbers\<close>

definition digit_char :: "nat \<Rightarrow> char" where
  "digit_char d = char_of (48 + d)"

fun show_nat :: "nat \<Rightarrow> string" where
  "show_nat n = (if n < 10 then [digit_char n] else show_nat (n div 10) @ [digit_char (n mod 10)])"

declare show_nat.simps [simp del]

definition digit_value :: "char \<Rightarrow> nat option" where
  "digit_value c =
     (let v = (of_char c :: nat) in if 48 \<le> v \<and> v \<le> 57 then Some (v - 48) else None)"

fun parse_digits :: "nat \<Rightarrow> nat \<Rightarrow> string \<Rightarrow> string + nat" where
  "parse_digits bound acc [] = Ok acc"
| "parse_digits bound acc (c # cs) =
     (case digit_value c of
        None \<Rightarrow> Err ''invalid digit found in string''
      | Some d \<Rightarrow>
          if bound \<le> acc * 10 + d then Err ''number too large to fit in target type''
          else parse_digits bound (acc * 10 + d) cs)"

text \<open>Parsing an unsigned integer below a bound, \<open>2 ^ 64\<close> for \<open>u64\<close> and \<open>usize\<close>.\<close>

definition parse_unsigned :: "nat \<Rightarrow> string \<Rightarrow> string + nat" where
  "parse_unsigned bound s =
     (case s of
        [] \<Rightarrow> Err ''cannot parse integer from empty string''
      | [c] \<Rightarrow> if c = CHR ''+'' \<or> c = CHR ''-'' then Err ''invalid digit found in string''
               else parse_digits bound 0 s
      | c # cs \<Rightarrow> if c = CHR ''+'' then parse_digits bound 0 cs else parse_digits bound 0 s)"

text \<open>Parsing a signed integer of 32 bits.\<close>

definition parse_i32 :: "string \<Rightarrow> string + i32" where
  "parse_i32 s =
     (case s of
        CHR ''-'' # c # cs \<Rightarrow>
          (case parse_digits (2 ^ 31 + 1) 0 (c # cs) of
             Inr n \<Rightarrow> Ok (- of_nat n)
           | Inl e \<Rightarrow> Err (if e = ''number too large to fit in target type''
                           then ''number too small to fit in target type'' else e))
      | _ \<Rightarrow> bind_result (parse_unsigned (2 ^ 31) s) (\<lambda>n. Ok (of_nat n)))"

lemma digit_value_char [simp]: "d < 10 \<Longrightarrow> digit_value (digit_char d) = Some d"
  by (simp add: digit_value_def digit_char_def Let_def of_char_of)

lemma digit_char_inj: "d < 10 \<Longrightarrow> e < 10 \<Longrightarrow> digit_char d = digit_char e \<longleftrightarrow> d = e"
  by (metis digit_value_char option.inject)

lemma parse_digits_append:
  "parse_digits bound acc (xs @ [c]) =
     (case parse_digits bound acc xs of Inl e \<Rightarrow> Inl e | Inr n \<Rightarrow> parse_digits bound n [c])"
  by (induction xs arbitrary: acc) (auto split: option.splits)

lemma parse_show_digits: "n < bound \<Longrightarrow> parse_digits bound 0 (show_nat n) = Ok n"
proof (induction n rule: show_nat.induct)
  case (1 n)
  show ?case
  proof (cases "n < 10")
    case True
    with "1.prems" show ?thesis by (simp add: show_nat.simps [of n])
  next
    case False
    have "n div 10 < bound" using "1.prems" by auto
    with False 1 have "parse_digits bound 0 (show_nat (n div 10)) = Ok (n div 10)" by simp
    with False "1.prems" show ?thesis
      by (simp add: show_nat.simps [of n] parse_digits_append mult.commute)
  qed
qed

lemma show_nat_inject [simp]: "show_nat m = show_nat n \<longleftrightarrow> m = n"
proof
  assume eq: "show_nat m = show_nat n"
  have "parse_digits (Suc (max m n)) 0 (show_nat m) = Ok m"
    and "parse_digits (Suc (max m n)) 0 (show_nat n) = Ok n"
    by (rule parse_show_digits; simp)+
  then show "m = n" unfolding eq by (simp only: sum.inject)
qed simp

lemma show_nat_ne [simp]: "show_nat n \<noteq> []"
  by (simp add: show_nat.simps [of n])

lemma hd_show_nat: "\<exists>d < 10. hd (show_nat n) = digit_char d"
proof (induction n rule: show_nat.induct)
  case (1 n)
  then show ?case by (cases "n < 10") (auto simp: show_nat.simps [of n])
qed

lemma parse_show_unsigned:
  assumes "n < bound"
  shows "parse_unsigned bound (show_nat n) = Ok n"
proof -
  obtain c cs where s: "show_nat n = c # cs" by (cases "show_nat n") simp_all
  obtain d where "d < 10" "c = digit_char d" using hd_show_nat [of n] by (auto simp: s)
  then have "digit_value c = Some d" by simp
  then have "c \<noteq> CHR ''+''" "c \<noteq> CHR ''-''" by (auto simp: digit_value_def)
  then show ?thesis
    using parse_show_digits [OF assms]
    by (auto simp: parse_unsigned_def s split: list.split)
qed

end
