(* ===== verification/Policy_Path.thy ===== *)
theory Policy_Path
  imports Rust_Text
begin

text \<open>
  Unix paths as the standard library reads them, and the binding of a policy path to its
  target, \<open>crates/access_control/src/policy/path.rs\<close>. A path is its text; two paths are equal
  when their components are. The file system and the environment variable that bounds the
  resolution are arguments.
\<close>

section \<open>Paths\<close>

type_synonym PathBuf = string

datatype Component = RootDir | CurDir | ParentDir | Normal string

definition part_components :: "string \<Rightarrow> Component list" where
  "part_components part =
     (if part = [] \<or> part = ''.'' then [] else if part = ''..'' then [ParentDir] else [Normal part])"

definition path_is_absolute :: "PathBuf \<Rightarrow> bool" where
  "path_is_absolute p \<longleftrightarrow> (case p of [] \<Rightarrow> False | c # _ \<Rightarrow> c = CHR ''/'')"

definition path_components :: "PathBuf \<Rightarrow> Component list" where
  "path_components p =
     (if path_is_absolute p
      then RootDir # concat (map part_components (split_on CHR ''/'' (tl p)))
      else (case split_on CHR ''/'' p of
              [] \<Rightarrow> []
            | first # rest \<Rightarrow>
                (if first = ''.'' then [CurDir] else part_components first)
                @ concat (map part_components rest)))"

definition path_eq :: "PathBuf \<Rightarrow> PathBuf \<Rightarrow> bool" where
  "path_eq p q \<longleftrightarrow> path_components p = path_components q"

definition path_starts_with :: "PathBuf \<Rightarrow> PathBuf \<Rightarrow> bool" where
  "path_starts_with p base \<longleftrightarrow> starts_with (path_components p) (path_components base)"

definition path_push :: "PathBuf \<Rightarrow> string \<Rightarrow> PathBuf" where
  "path_push p part =
     (if path_is_absolute part then part
      else if p = [] \<or> last p = CHR ''/'' then p @ part
      else p @ CHR ''/'' # part)"

text \<open>
  The absolute path with given names below the root. Paths that are built from the root by
  pushing names have this form, and removing the last component removes the last name.
\<close>

definition abs_path :: "string list \<Rightarrow> PathBuf" where
  "abs_path names = (if names = [] then ''/'' else concat (map (\<lambda>n. CHR ''/'' # n) names))"

fun render_components :: "Component list \<Rightarrow> string list" where
  "render_components [] = []"
| "render_components (Normal n # cs) = n # render_components cs"
| "render_components (ParentDir # cs) = ''..'' # render_components cs"
| "render_components (CurDir # cs) = ''.'' # render_components cs"
| "render_components (RootDir # cs) = render_components cs"

text \<open>The parent of an absolute path: it is applied to paths that are bound or being bound, which are absolute.\<close>

definition path_parent :: "PathBuf \<Rightarrow> PathBuf option" where
  "path_parent p =
     (case rev (path_components p) of
        [] \<Rightarrow> None
      | RootDir # _ \<Rightarrow> None
      | _ # rest \<Rightarrow> Some (abs_path (render_components (rev rest))))"

definition path_pop :: "PathBuf \<Rightarrow> PathBuf" where
  "path_pop p = (case path_parent p of None \<Rightarrow> p | Some q \<Rightarrow> q)"

definition valid_name :: "string \<Rightarrow> bool" where
  "valid_name n \<longleftrightarrow> n \<noteq> [] \<and> n \<noteq> ''.'' \<and> n \<noteq> ''..'' \<and> CHR ''/'' \<notin> set n"

section \<open>The host\<close>

datatype FsErrorKind = NotFound | NotADirectory | OtherError

record FsError =
  fe_kind :: FsErrorKind
  fe_text :: string

datatype EnvVar = EnvPresent string | EnvNotPresent | EnvNotUnicode string

text \<open>
  What a directory holds, as the recursive reading of it returns: the reading fails, or it
  gives entries, each unreadable, of unreadable type, not a directory, or a directory.
\<close>

datatype DirListing = ReadDirError string | Entries "DirEntry list"
  and DirEntry = EntryError string | TypeError string string | FileEntry string
    | SubDirectory string DirListing

record Host =
  host_path_max_steps :: EnvVar
  host_symlink_metadata :: "PathBuf \<Rightarrow> FsError + bool"
  host_read_link :: "PathBuf \<Rightarrow> FsError + PathBuf"
  host_metadata_is_dir :: "PathBuf \<Rightarrow> FsError + bool"
  host_read_dir :: "PathBuf \<Rightarrow> DirListing"

section \<open>Binding a path\<close>

datatype PathStep = Root | Parent | Name string | LeaveLink PathBuf

definition max_steps_env :: string where
  "max_steps_env = ''ACTRAIL_POLICY_PATH_MAX_STEPS''"

definition steps_from_environment :: "EnvVar \<Rightarrow> string + nat" where
  "steps_from_environment var =
     (case var of
        EnvPresent value \<Rightarrow>
          (case parse_unsigned (2 ^ 64) value of
             Inr n \<Rightarrow> if 0 < n then Ok n
                      else Err (max_steps_env @ '' must be a positive integer'')
           | Inl _ \<Rightarrow> Err (max_steps_env @ '' must be a positive integer''))
      | EnvNotPresent \<Rightarrow> Ok 4096
      | EnvNotUnicode text \<Rightarrow> Err (''read '' @ max_steps_env @ '': '' @ text))"

definition reserve_step :: "nat \<Rightarrow> string + nat" where
  "reserve_step remaining =
     (case remaining of
        0 \<Rightarrow> Err (''policy path resolution exceeds '' @ max_steps_env)
      | Suc r \<Rightarrow> Ok r)"

fun step_of_component :: "Component \<Rightarrow> PathStep" where
  "step_of_component RootDir = Root"
| "step_of_component ParentDir = Parent"
| "step_of_component (Normal name) = Name name"
| "step_of_component CurDir = Parent"

fun push_components ::
    "nat \<Rightarrow> Component list \<Rightarrow> PathStep list \<Rightarrow> string + nat \<times> PathStep list" where
  "push_components remaining [] pending = Ok (remaining, pending)"
| "push_components remaining (c # cs) pending =
     (if c = CurDir then push_components remaining cs pending
      else case reserve_step remaining of
             Inl e \<Rightarrow> Err e
           | Inr r \<Rightarrow> push_components r cs (step_of_component c # pending))"

definition push_steps ::
    "nat \<Rightarrow> PathBuf \<Rightarrow> PathStep list \<Rightarrow> string + nat \<times> PathStep list" where
  "push_steps remaining path pending =
     push_components remaining (rev (path_components path)) pending"

lemma reserve_step_Ok [simp]: "reserve_step n = Inr r \<longleftrightarrow> n = Suc r"
  by (cases n) (auto simp: reserve_step_def)

lemma push_components_mono:
  "push_components n cs pending = Inr (n', pending') \<Longrightarrow> n' \<le> n"
proof (induction n cs pending rule: push_components.induct)
  case (2 n c cs pending)
  then show ?case by (cases n) (force simp: reserve_step_def split: if_splits)+
qed simp

lemma push_steps_mono: "push_steps n path pending = Inr (n', pending') \<Longrightarrow> n' \<le> n"
  unfolding push_steps_def by (rule push_components_mono)

text \<open>
  The resolution loop. The stack of pending steps has its top first. Every link followed
  spends at least one step of the budget, so the loop ends.
\<close>

function bind_loop ::
    "Host \<Rightarrow> nat \<Rightarrow> PathStep list \<Rightarrow> string btree_set \<Rightarrow> PathBuf \<Rightarrow> string + PathBuf" where
  "bind_loop host remaining [] links resolved = Ok resolved"
| "bind_loop host remaining (Root # pending) links resolved =
     bind_loop host remaining pending links ''/''"
| "bind_loop host remaining (Parent # pending) links resolved =
     bind_loop host remaining pending links (path_pop resolved)"
| "bind_loop host remaining (LeaveLink path # pending) links resolved =
     bind_loop host remaining pending (bm_remove path links) resolved"
| "bind_loop host remaining (Name name # pending) links resolved =
     (let candidate = path_push resolved name
      in case host_symlink_metadata host candidate of
           Inr True \<Rightarrow>
             if bs_contains links candidate
             then Err (''policy path contains a symlink cycle at '' @ candidate)
             else (case reserve_step remaining of
                     Inl e \<Rightarrow> Err e
                   | Inr r \<Rightarrow>
                 (case host_read_link host candidate of
                     Inl e \<Rightarrow> Err (''read policy link '' @ candidate @ '': '' @ fe_text e)
                   | Inr target \<Rightarrow>
                 (case push_steps r target (LeaveLink candidate # pending) of
                     Inl e \<Rightarrow> Err e
                   | Inr (r', pending') \<Rightarrow>
                       bind_loop host r' pending' (bs_insert candidate links) resolved)))
         | Inr False \<Rightarrow> bind_loop host remaining pending links candidate
         | Inl e \<Rightarrow>
             if fe_kind e = NotFound \<or> fe_kind e = NotADirectory
             then bind_loop host remaining pending links candidate
             else Err (''resolve policy path '' @ candidate @ '': '' @ fe_text e))"
  by pat_completeness auto

termination
  by (relation "measures [\<lambda>(host, n, pending, links, resolved). n,
        \<lambda>(host, n, pending, links, resolved). length pending]")
    (auto dest: push_steps_mono)

definition policy_path_bind :: "Host \<Rightarrow> PathBuf \<Rightarrow> string + PathBuf" where
  "policy_path_bind host path =
     (if \<not> path_is_absolute path
      then Err (''policy path '' @ path @ '' must be absolute'')
      else case steps_from_environment (host_path_max_steps host) of
        Inl e \<Rightarrow> Err e
      | Inr steps \<Rightarrow>
     (case push_steps steps path [] of
        Inl e \<Rightarrow> Err e
      | Inr (remaining, pending) \<Rightarrow> bind_loop host remaining pending bm_empty ''/''))"

section \<open>Paths built from the root\<close>

lemma components_valid:
  assumes "Normal n \<in> set (path_components p)"
  shows "valid_name n"
proof -
  have "\<exists>s. \<exists>part \<in> set (split_on CHR ''/'' s). Normal n \<in> set (part_components part)"
  proof (cases "path_is_absolute p")
    case True
    with assms show ?thesis by (auto simp: path_components_def)
  next
    case False
    obtain first rest where sp: "split_on CHR ''/'' p = first # rest"
      by (cases "split_on CHR ''/'' p") simp_all
    with False assms have "\<exists>part \<in> set (first # rest). Normal n \<in> set (part_components part)"
      by (auto simp: path_components_def split: if_splits)
    with sp show ?thesis by metis
  qed
  then obtain s part where "part \<in> set (split_on CHR ''/'' s)" "Normal n \<in> set (part_components part)"
    by blast
  then show ?thesis
    using split_on_no_sep [of part "CHR ''/''" s]
    by (auto simp: part_components_def valid_name_def split: if_splits)
qed

lemma part_components_valid [simp]: "valid_name n \<Longrightarrow> part_components n = [Normal n]"
  by (auto simp: valid_name_def part_components_def)

lemma split_on_names:
  "\<forall>n \<in> set (n # names). valid_name n
     \<Longrightarrow> split_on CHR ''/'' (n @ concat (map (\<lambda>n. CHR ''/'' # n) names)) = n # names"
  by (induction names arbitrary: n) (simp_all add: split_on_plain split_on_append valid_name_def)

lemma components_abs_path:
  assumes "\<forall>n \<in> set names. valid_name n"
  shows "path_components (abs_path names) = RootDir # map Normal names"
proof (cases names)
  case Nil
  then show ?thesis
    by (simp add: abs_path_def path_components_def path_is_absolute_def part_components_def)
next
  case (Cons n rest)
  have "concat (map part_components names) = map Normal names"
    using assms by (induction names) simp_all
  with Cons split_on_names [of n rest] assms show ?thesis
    by (simp add: abs_path_def path_components_def path_is_absolute_def)
qed

lemma abs_path_absolute [simp]: "path_is_absolute (abs_path names)"
  by (cases names) (simp_all add: abs_path_def path_is_absolute_def)

lemma valid_not_absolute: "valid_name n \<Longrightarrow> \<not> path_is_absolute n"
  by (cases n) (auto simp: valid_name_def path_is_absolute_def)

lemma last_abs_path:
  assumes "\<forall>n \<in> set names. valid_name n" and "names \<noteq> []"
  shows "last (abs_path names) \<noteq> CHR ''/''"
proof -
  obtain init n where names: "names = init @ [n]" using assms(2) by (cases names rule: rev_cases) auto
  with assms(1) have "n \<noteq> []" "last n \<in> set n" "CHR ''/'' \<notin> set n"
    by (auto simp: valid_name_def)
  then have "last n \<noteq> CHR ''/''" by metis
  with \<open>n \<noteq> []\<close> show ?thesis by (simp add: names abs_path_def)
qed

lemma push_abs_path [simp]:
  assumes "\<forall>n \<in> set names. valid_name n" and "valid_name n"
  shows "path_push (abs_path names) n = abs_path (names @ [n])"
  using assms last_abs_path [OF assms(1)] valid_not_absolute [OF assms(2)]
  by (cases "names = []") (auto simp: path_push_def abs_path_def)

lemma render_names [simp]: "render_components (map Normal names) = names"
  by (induction names) simp_all

lemma pop_abs_path [simp]:
  assumes "\<forall>n \<in> set names. valid_name n"
  shows "path_pop (abs_path names) = abs_path (butlast names)"
  using components_abs_path [OF assms]
  by (cases names rule: rev_cases) (simp_all add: path_pop_def path_parent_def)

section \<open>What binding returns\<close>

lemma reserve_step_simps [simp]:
  "reserve_step (Suc n) = Inr n"
  "reserve_step 0 = Inl (''policy path resolution exceeds '' @ max_steps_env)"
  by (simp_all add: reserve_step_def)

text \<open>A place of the file system at which the resolution does not follow a link.\<close>

definition plain :: "Host \<Rightarrow> PathBuf \<Rightarrow> bool" where
  "plain host p \<longleftrightarrow>
     (case host_symlink_metadata host p of
        Inr is_link \<Rightarrow> \<not> is_link
      | Inl e \<Rightarrow> fe_kind e = NotFound \<or> fe_kind e = NotADirectory)"

definition link_free :: "Host \<Rightarrow> string list \<Rightarrow> bool" where
  "link_free host names \<longleftrightarrow> (\<forall>k. 0 < k \<longrightarrow> k \<le> length names \<longrightarrow> plain host (abs_path (take k names)))"

definition names_ok :: "Host \<Rightarrow> string list \<Rightarrow> bool" where
  "names_ok host names \<longleftrightarrow> (\<forall>n \<in> set names. valid_name n) \<and> link_free host names"

definition steps_ok :: "PathStep list \<Rightarrow> bool" where
  "steps_ok pending \<longleftrightarrow> (\<forall>n. Name n \<in> set pending \<longrightarrow> valid_name n)"

lemma link_free_butlast: "link_free host names \<Longrightarrow> link_free host (butlast names)"
  by (simp add: link_free_def take_butlast)

lemma link_free_snoc:
  "link_free host (names @ [n]) \<longleftrightarrow> link_free host names \<and> plain host (abs_path (names @ [n]))"
proof -
  have "(k \<le> Suc (length names)) = (k \<le> length names \<or> k = Suc (length names))" for k by auto
  then show ?thesis by (auto simp: link_free_def)
qed

lemma names_ok_simps:
  "names_ok host []"
  "names_ok host names \<Longrightarrow> names_ok host (butlast names)"
  "names_ok host (names @ [n])
     \<longleftrightarrow> names_ok host names \<and> valid_name n \<and> plain host (abs_path (names @ [n]))"
  by (auto simp: names_ok_def link_free_snoc link_free_butlast dest: in_set_butlastD)
    (simp add: link_free_def)

lemma push_components_steps:
  "push_components n cs pending = Inr (n', pending') \<Longrightarrow> steps_ok pending
     \<Longrightarrow> (\<forall>m. Normal m \<in> set cs \<longrightarrow> valid_name m) \<Longrightarrow> steps_ok pending'"
proof (induction n cs pending rule: push_components.induct)
  case (2 n c cs pending)
  show ?case
  proof (cases "c = CurDir")
    case True
    with 2 show ?thesis by simp
  next
    case False
    with "2.prems"(1) obtain r where r: "reserve_step n = Inr r"
      and rest: "push_components r cs (step_of_component c # pending) = Inr (n', pending')"
      by (auto split: sum.splits)
    have "steps_ok (step_of_component c # pending)"
      using "2.prems"(2,3) by (cases c) (auto simp: steps_ok_def)
    with "2.IH"(2) [OF False r rest] "2.prems"(3) show ?thesis by simp
  qed
qed simp

lemma push_steps_steps:
  "push_steps n path pending = Inr (n', pending') \<Longrightarrow> steps_ok pending \<Longrightarrow> steps_ok pending'"
  unfolding push_steps_def
  by (erule push_components_steps) (auto dest: components_valid)

text \<open>
  Every name still to be visited was paid for, so the names of the result fit the budget.
\<close>

fun name_steps :: "PathStep list \<Rightarrow> nat" where
  "name_steps [] = 0"
| "name_steps (Name n # pending) = Suc (name_steps pending)"
| "name_steps (step # pending) = name_steps pending"

lemma push_components_cost:
  "push_components n cs pending = Inr (n', pending')
    \<Longrightarrow> name_steps pending' + n' \<le> name_steps pending + n
      \<and> (RootDir \<in> set cs \<longrightarrow> name_steps pending' + n' < name_steps pending + n)"
proof (induction n cs pending rule: push_components.induct)
  case (2 n c cs pending)
  show ?case
  proof (cases "c = CurDir")
    case True
    with 2 show ?thesis by auto
  next
    case False
    with "2.prems"(1) obtain r where r: "reserve_step n = Inr r" and n: "n = Suc r"
      and rest: "push_components r cs (step_of_component c # pending) = Inr (n', pending')"
      by (auto split: sum.splits)
    from "2.IH"(2) [OF False r rest] False show ?thesis by (cases c) (auto simp: n)
  qed
qed simp

lemma push_steps_cost:
  assumes "push_steps n path pending = Inr (n', pending')"
  shows "name_steps pending' + n' \<le> name_steps pending + n"
    and "path_is_absolute path \<Longrightarrow> name_steps pending' + n' < name_steps pending + n"
proof -
  show "name_steps pending' + n' \<le> name_steps pending + n"
    using assms push_components_cost unfolding push_steps_def by blast
  assume "path_is_absolute path"
  then have "RootDir \<in> set (path_components path)" by (simp add: path_components_def)
  then show "name_steps pending' + n' < name_steps pending + n"
    using assms push_components_cost [of n "rev (path_components path)"] by (simp add: push_steps_def)
qed

lemma bind_loop_result:
  assumes "bind_loop host n pending links resolved = Inr p"
    and "resolved = abs_path names" and "names_ok host names" and "steps_ok pending"
  shows "\<exists>names'. p = abs_path names' \<and> names_ok host names'
      \<and> length names' \<le> length names + name_steps pending + n"
  using assms
proof (induction host n pending links resolved arbitrary: names rule: bind_loop.induct)
  case (1 host n links resolved)
  then show ?case by auto
next
  case (2 host n pending links resolved)
  then have "\<exists>names'. p = abs_path names' \<and> names_ok host names'
      \<and> length names' \<le> length ([] :: string list) + name_steps pending + n"
    by (intro "2.IH" [of "[]"]) (auto simp: names_ok_simps steps_ok_def abs_path_def)
  then show ?case by auto
next
  case (3 host n pending links resolved)
  from "3.prems"(2,3) have "path_pop resolved = abs_path (butlast names)"
    by (simp add: names_ok_def)
  with "3.prems" have "\<exists>names'. p = abs_path names' \<and> names_ok host names'
      \<and> length names' \<le> length (butlast names) + name_steps pending + n"
    by (intro "3.IH" [of "butlast names"]) (simp_all add: names_ok_simps steps_ok_def)
  then show ?case by auto
next
  case (4 host n path pending links resolved)
  then show ?case by (simp add: steps_ok_def)
next
  case (5 host n name pending links resolved)
  let ?cand = "path_push resolved name"
  have name: "valid_name name" and ok: "steps_ok pending" and ok': "steps_ok (LeaveLink ?cand # pending)"
    using "5.prems"(4) by (auto simp: steps_ok_def)
  have cand: "?cand = abs_path (names @ [name])"
    using "5.prems"(2,3) name by (simp add: names_ok_def)
  have go: ?case if "plain host ?cand" "bind_loop host n pending links ?cand = Inr p"
    and IH: "\<And>names. bind_loop host n pending links ?cand = Inr p \<Longrightarrow> ?cand = abs_path names
      \<Longrightarrow> names_ok host names \<Longrightarrow> steps_ok pending \<Longrightarrow> \<exists>names'. p = abs_path names' \<and> names_ok host names'
        \<and> length names' \<le> length names + name_steps pending + n"
    using IH [OF that(2) cand _ ok] that(1) "5.prems"(3) name cand by (auto simp: names_ok_simps)
  show ?case
  proof (cases "host_symlink_metadata host ?cand")
    case (Inl e)
    with "5.prems"(1) have kind: "fe_kind e = NotFound \<or> fe_kind e = NotADirectory"
      and run: "bind_loop host n pending links ?cand = Inr p"
      by (auto simp: Let_def split: if_splits)
    from Inl kind have "plain host ?cand" by (simp add: plain_def)
    then show ?thesis using run "5.IH"(1) [OF refl Inl kind] by (rule go)
  next
    case (Inr is_link)
    show ?thesis
    proof (cases is_link)
      case False
      with Inr "5.prems"(1) have run: "bind_loop host n pending links ?cand = Inr p"
        by (simp add: Let_def)
      from Inr False have "plain host ?cand" by (simp add: plain_def)
      moreover have "is_link = False" using False by simp
      ultimately show ?thesis using run "5.IH"(3) [OF refl Inr] by (intro go) auto
    next
      case True
      with Inr "5.prems"(1) obtain r target r' pending' where
        step: "\<not> bs_contains links ?cand" "reserve_step n = Inr r"
          "host_read_link host ?cand = Inr target"
          "push_steps r target (LeaveLink ?cand # pending) = Inr (r', pending')"
        and run: "bind_loop host r' pending' (bs_insert ?cand links) resolved = Inr p"
        by (auto simp: Let_def split: if_splits sum.splits)
      have "steps_ok pending'" using step(4) ok' by (rule push_steps_steps)
      with "5.IH"(2) [OF refl Inr _ step(1,2,3,4) refl run "5.prems"(2,3)] True
      have "\<exists>names'. p = abs_path names' \<and> names_ok host names'
        \<and> length names' \<le> length names + name_steps pending' + r'" by simp
      moreover have "name_steps pending' + r' \<le> name_steps pending + n"
        using push_steps_cost(1) [OF step(4)] step(2) by simp
      ultimately show ?thesis by auto
    qed
  qed
qed

lemma policy_bind_result:
  assumes "policy_path_bind host path = Inr p"
  shows "\<exists>names steps. p = abs_path names \<and> names_ok host names
    \<and> steps_from_environment (host_path_max_steps host) = Inr steps \<and> length names < steps"
proof -
  from assms obtain steps n pending where abs: "path_is_absolute path"
    and steps: "steps_from_environment (host_path_max_steps host) = Inr steps"
    and push: "push_steps steps path [] = Inr (n, pending)"
    and run: "bind_loop host n pending bm_empty ''/'' = Inr p"
    by (auto simp: policy_path_bind_def split: if_splits sum.splits)
  from push have "steps_ok pending" by (rule push_steps_steps) (simp add: steps_ok_def)
  moreover have "name_steps pending + n < steps" using push_steps_cost(2) [OF push abs] by simp
  ultimately show ?thesis
    using bind_loop_result [OF run, of "[]"] steps by (fastforce simp: names_ok_simps abs_path_def)
qed

lemma bind_loop_names:
  assumes "names_ok host (pre @ names)"
  shows "bind_loop host n (map Name names) links (abs_path pre) = Ok (abs_path (pre @ names))"
  using assms
proof (induction names arbitrary: pre)
  case (Cons name names)
  from Cons.prems have valid: "\<forall>n \<in> set pre. valid_name n" "valid_name name"
    by (auto simp: names_ok_def)
  have "plain host (abs_path (take (Suc (length pre)) (pre @ name # names)))"
    using Cons.prems unfolding names_ok_def link_free_def by (metis Suc_le_eq length_append
        length_Cons le_add1 less_add_Suc1 zero_less_Suc add_Suc_right)
  then have "plain host (abs_path (pre @ [name]))" by simp
  then show ?case
    using Cons.IH [of "pre @ [name]"] Cons.prems valid
    by (auto simp: plain_def Let_def split: sum.splits)
qed simp

lemma push_components_names:
  "length names \<le> n
     \<Longrightarrow> push_components n (map Normal names) pending
        = Ok (n - length names, rev (map Name names) @ pending)"
  by (induction names arbitrary: n pending) (auto split: sum.splits dest: Suc_le_D)

lemma push_components_append:
  "push_components n (cs @ ds) pending =
     (case push_components n cs pending of Inl e \<Rightarrow> Inl e | Inr (m, p) \<Rightarrow> push_components m ds p)"
  by (induction n cs pending rule: push_components.induct) (auto split: sum.splits)

lemma bind_fixed:
  assumes "names_ok host names" and "steps_from_environment (host_path_max_steps host) = Inr steps"
    and "length names < steps"
  shows "policy_path_bind host (abs_path names) = Ok (abs_path names)"
proof -
  have "rev (path_components (abs_path names)) = map Normal (rev names) @ [RootDir]"
    using assms(1) by (simp add: components_abs_path names_ok_def rev_map)
  moreover obtain r where "steps - length names = Suc r" using assms(3) by (metis Suc_diff_Suc)
  ultimately have "push_steps steps (abs_path names) [] = Ok (r, Root # map Name names)"
    using assms(3)
    by (simp add: push_steps_def push_components_append push_components_names rev_map)
  then show ?thesis
    using assms(2) bind_loop_names [of host "[]" names r bm_empty] assms(1)
    by (simp add: policy_path_bind_def abs_path_def [of "[]"])
qed


end
