(* ===== verification/File_Scope.thy ===== *)
theory File_Scope
  imports Policy_Path
begin

text \<open>
  The vocabulary of the file policy and its path scopes: the types of
  \<open>crates/core/plugin_system/src/control.rs\<close> that the policy uses, and \<open>types.rs\<close>, \<open>scope.rs\<close>
  of \<open>crates/access_control/src/policy/file\<close>.
\<close>

section \<open>Vocabulary\<close>

datatype EnforcementDecision = Allow | Deny

definition enforcement_decision_from_str :: "string \<Rightarrow> string + EnforcementDecision" where
  "enforcement_decision_from_str value =
     (if value = ''allow'' then Ok EnforcementDecision.Allow
      else if value = ''deny'' then Ok EnforcementDecision.Deny
      else Err (''expected allow or deny, got '' @ value))"

datatype FilePolicyDecision = Default | Allow | Deny | Gray

primrec file_decision_as_str :: "FilePolicyDecision \<Rightarrow> string" where
  "file_decision_as_str Default = ''default''"
| "file_decision_as_str FilePolicyDecision.Allow = ''allow''"
| "file_decision_as_str FilePolicyDecision.Deny = ''deny''"
| "file_decision_as_str Gray = ''gray''"

datatype FilePolicyOperation = Any | Open | Mkdir | Rmdir

primrec operation_as_str :: "FilePolicyOperation \<Rightarrow> string" where
  "operation_as_str Any = ''any''"
| "operation_as_str Open = ''open''"
| "operation_as_str Mkdir = ''mkdir''"
| "operation_as_str Rmdir = ''rmdir''"

definition operation_from_wire :: "string \<Rightarrow> string + FilePolicyOperation" where
  "operation_from_wire value =
     (if value = ''any'' then Ok Any
      else if value = ''open'' then Ok Open
      else if value = ''mkdir'' then Ok Mkdir
      else if value = ''rmdir'' then Ok Rmdir
      else Err (''unsupported file policy operation '' @ value
                @ ''; expected any, open, mkdir, or rmdir''))"

definition operation_matches :: "FilePolicyOperation \<Rightarrow> FilePolicyOperation \<Rightarrow> bool" where
  "operation_matches rule actual \<longleftrightarrow> rule = Any \<or> rule = actual"

datatype FilePolicyPatchOp = Upsert | Delete | Enable | Disable

datatype FilePolicyApplyMode = Partial | Aon

datatype FilePolicyApplyStatus = Accepted | Rejected

record FilePolicyRuleDraft =
  fd_rule_id :: "string option"
  fd_decision :: FilePolicyDecision
  fd_operation :: FilePolicyOperation
  fd_path :: string
  fd_gray_target :: "u64 option"
  fd_priority :: i32

record FilePolicyPatchItem =
  fi_op :: FilePolicyPatchOp
  fi_rule_id :: "string option"
  fi_rule :: "FilePolicyRuleDraft option"

record FilePolicyApplyPrecondition =
  fp_base_revision :: u64
  fp_mutation_id :: string
  fp_reason :: "string option"
  fp_correlation_id :: "string option"
  fp_apply_mode :: FilePolicyApplyMode

record FilePolicyApplyRequest =
  fq_items :: "FilePolicyPatchItem list"
  fq_precondition :: FilePolicyApplyPrecondition

record FilePolicyApplyError =
  fx_item_index :: u32
  fx_code :: string
  fx_message :: string

record FilePolicyApplyResult =
  fr_status :: FilePolicyApplyStatus
  fr_new_revision :: u64
  fr_applied_count :: u32
  fr_rejected_count :: u32
  fr_errors :: "FilePolicyApplyError list"

record FilePolicyRuleView =
  fv_rule_id :: string
  fv_owner_instance_id :: string
  fv_decision :: FilePolicyDecision
  fv_operation :: FilePolicyOperation
  fv_path :: string
  fv_gray_target :: "u64 option"
  fv_priority :: i32
  fv_enabled :: bool
  fv_updated_sequence :: u64

record FilePolicyListFilter =
  fl_decision :: "FilePolicyDecision option"
  fl_path_prefix :: "string option"
  fl_operation :: "FilePolicyOperation option"

record FilePolicyListResult =
  fs_rules :: "FilePolicyRuleView list"
  fs_next_cursor :: "string option"
  fs_source_revision :: u64

record FilePolicyMatchDryRunRequest =
  dq_path :: string
  dq_operation :: FilePolicyOperation

record FilePolicyMatchDryRunResult =
  dr_matched :: bool
  dr_decision :: FilePolicyDecision
  dr_rule_id :: "string option"
  dr_operation :: FilePolicyOperation
  dr_canonical_path :: string
  dr_source_revision :: u64

record FilePolicyRulesApplyGrant =
  fg_decision :: FilePolicyDecision
  fg_path_scope :: string

section \<open>Enforcement rules\<close>

definition builtin_policy_owner :: string where
  "builtin_policy_owner = ''actrail.builtin''"

definition static_policy_owner :: string where
  "static_policy_owner = ''actrail.static''"

definition host_rule_id_prefix :: string where
  "host_rule_id_prefix = ''fp''"

datatype RuleDecision =
    Local EnforcementDecision
  | SyncPlugin (sync_instance_id: string) (sync_timeout_ms: u64)
      (sync_concurrency_limit: u32) (sync_fallback: EnforcementDecision)

record EnforcementRule =
  en_owner_instance_id :: string
  en_rule_id :: string
  en_decision :: RuleDecision
  en_operation :: string
  en_path :: PathBuf

record BuiltinIgnoreMark =
  bi_path :: PathBuf
  bi_recursive :: bool

definition rule_decision_from_policy ::
    "FilePolicyDecision \<Rightarrow> u64 option \<Rightarrow> string + RuleDecision" where
  "rule_decision_from_policy decision gray_target =
     (case decision of
        FilePolicyDecision.Allow \<Rightarrow> Ok (Local EnforcementDecision.Allow)
      | FilePolicyDecision.Deny \<Rightarrow> Ok (Local EnforcementDecision.Deny)
      | Gray \<Rightarrow>
          (case gray_target of
             None \<Rightarrow> Err ''gray rule requires gray_target''
           | Some target \<Rightarrow>
               Ok (SyncPlugin (show_nat (unat target)) 30000 32 EnforcementDecision.Deny))
      | Default \<Rightarrow> Err ''file policy rule decision cannot be default'')"

section \<open>Sets of paths\<close>

text \<open>Paths are ordered by their components, in the order of the enumeration.\<close>

fun component_key :: "Component \<Rightarrow> nat \<times> string" where
  "component_key RootDir = (0, [])"
| "component_key CurDir = (1, [])"
| "component_key ParentDir = (2, [])"
| "component_key (Normal n) = (3, n)"

lemma component_key_inject [simp]: "component_key c = component_key d \<longleftrightarrow> c = d"
  by (cases c; cases d) simp_all

instantiation Component :: linorder
begin

definition less_eq_Component :: "Component \<Rightarrow> Component \<Rightarrow> bool" where
  "less_eq_Component c d \<longleftrightarrow> component_key c \<le> component_key d"

definition less_Component :: "Component \<Rightarrow> Component \<Rightarrow> bool" where
  "less_Component c d \<longleftrightarrow> component_key c < component_key d"

instance
  by standard (auto simp: less_eq_Component_def less_Component_def less_le)

end

type_synonym PathSet = "(Component list, PathBuf) btree_map"

definition ps_insert :: "PathBuf \<Rightarrow> PathSet \<Rightarrow> PathSet" where
  "ps_insert p s =
     (case bm_get s (path_components p) of
        None \<Rightarrow> bm_insert (path_components p) p s
      | Some _ \<Rightarrow> s)"

section \<open>Path scopes\<close>

datatype PathScope = Exact PathBuf | Recursive PathBuf

fun display_base :: "PathScope \<Rightarrow> PathBuf" where
  "display_base (Exact path) = path"
| "display_base (Recursive path) = path"

definition scope_bind :: "Host \<Rightarrow> PathScope \<Rightarrow> string + PathScope" where
  "scope_bind host s =
     bind_result (policy_path_bind host (display_base s)) (\<lambda>path.
       Ok (case s of Exact _ \<Rightarrow> Exact path | Recursive _ \<Rightarrow> Recursive path))"

fun scope_matches_path :: "PathScope \<Rightarrow> PathBuf \<Rightarrow> bool" where
  "scope_matches_path (Exact exact) path = path_eq exact path"
| "scope_matches_path (Recursive base) path = path_starts_with path base"

fun contains_scope :: "PathScope \<Rightarrow> PathScope \<Rightarrow> bool" where
  "contains_scope (Exact path) other =
     (case other of Exact other_path \<Rightarrow> path_eq path other_path | Recursive _ \<Rightarrow> False)"
| "contains_scope (Recursive base) other =
     (case other of
        Exact path \<Rightarrow> path_starts_with path base
      | Recursive path \<Rightarrow> path_starts_with path base)"

fun scope_eq :: "PathScope \<Rightarrow> PathScope \<Rightarrow> bool" where
  "scope_eq (Exact p) (Exact q) = path_eq p q"
| "scope_eq (Recursive p) (Recursive q) = path_eq p q"
| "scope_eq _ _ = False"

fun is_recursive :: "PathScope \<Rightarrow> bool" where
  "is_recursive (Recursive _) = True"
| "is_recursive (Exact _) = False"

fun display_path :: "PathScope \<Rightarrow> string" where
  "display_path (Exact path) = path"
| "display_path (Recursive path) = path @ ''/**''"

fun normalize_components :: "PathBuf \<Rightarrow> Component list \<Rightarrow> PathBuf" where
  "normalize_components normalized [] = normalized"
| "normalize_components normalized (RootDir # cs) = normalize_components normalized cs"
| "normalize_components normalized (CurDir # cs) = normalize_components normalized cs"
| "normalize_components normalized (ParentDir # cs) = normalize_components (path_pop normalized) cs"
| "normalize_components normalized (Normal part # cs) =
     normalize_components (path_push normalized part) cs"

definition normalized_absolute_path :: "string \<Rightarrow> string + PathBuf" where
  "normalized_absolute_path path =
     (if \<not> path_is_absolute path then Err (''path '' @ path @ '' must be absolute'')
      else Ok (normalize_components ''/'' (path_components path)))"

definition absolute_path :: "string \<Rightarrow> string + PathBuf" where
  "absolute_path path =
     (if \<not> path_is_absolute path then Err (''path '' @ path @ '' must be absolute'') else Ok path)"

definition scope_from_text :: "(string \<Rightarrow> string + PathBuf) \<Rightarrow> string \<Rightarrow> string + PathScope" where
  "scope_from_text read path =
     (case strip_suffix ''/**'' path of
        Some base \<Rightarrow>
          if base = [] then Err ''recursive path scope base must not be empty''
          else bind_result (read base) (\<lambda>p. Ok (Recursive p))
      | None \<Rightarrow> bind_result (read path) (\<lambda>p. Ok (Exact p)))"

definition normalized_scope :: "string \<Rightarrow> string + PathScope" where
  "normalized_scope path = scope_from_text normalized_absolute_path path"

definition absolute_scope :: "string \<Rightarrow> string + PathScope" where
  "absolute_scope path = scope_from_text absolute_path path"

fun collect_listing :: "PathBuf \<Rightarrow> DirListing \<Rightarrow> PathSet \<Rightarrow> string + PathSet"
  and collect_entries :: "PathBuf \<Rightarrow> DirEntry list \<Rightarrow> PathSet \<Rightarrow> string + PathSet" where
  "collect_listing root (ReadDirError e) directories =
     Err (''fanotify recursive open coverage requires existing directory '' @ root @ '': '' @ e)"
| "collect_listing root (Entries es) directories =
     collect_entries root es (ps_insert root directories)"
| "collect_entries root [] directories = Ok directories"
| "collect_entries root (EntryError e # es) directories = Err (''read_dir '' @ root @ '': '' @ e)"
| "collect_entries root (TypeError name e # es) directories =
     Err (''read directory type '' @ path_push root name @ '': '' @ e)"
| "collect_entries root (FileEntry name # es) directories = collect_entries root es directories"
| "collect_entries root (SubDirectory name listing # es) directories =
     bind_result (collect_listing (path_push root name) listing directories)
       (\<lambda>directories. collect_entries root es directories)"

fun scope_mark_directories :: "Host \<Rightarrow> PathScope \<Rightarrow> PathSet \<Rightarrow> string + PathSet" where
  "scope_mark_directories host (Exact path) directories =
     (case path_parent path of
        None \<Rightarrow> Err (''enforcement rule '' @ path @ '' has no parent path'')
      | Some parent \<Rightarrow>
     (case host_metadata_is_dir host parent of
        Inl e \<Rightarrow> Err (''fanotify open coverage requires existing parent directory '' @ parent
                       @ '' for '' @ path @ '': '' @ fe_text e)
      | Inr is_dir \<Rightarrow>
          if \<not> is_dir
          then Err (''fanotify open coverage parent '' @ parent @ '' for '' @ path
                    @ '' is not a directory'')
          else Ok (ps_insert parent directories)))"
| "scope_mark_directories host (Recursive base) directories =
     collect_listing base (host_read_dir host base) directories"

section \<open>Facts on scopes\<close>

lemma path_starts_with_refl [simp]: "path_starts_with p p"
  by (simp add: path_starts_with_def)

lemma path_starts_with_trans:
  "path_starts_with a b \<Longrightarrow> path_starts_with b c \<Longrightarrow> path_starts_with a c"
  unfolding path_starts_with_def by (rule starts_with_trans)

lemma path_eq_simps:
  "path_eq p p" "path_eq p q = path_eq q p"
  "path_eq p q \<Longrightarrow> path_eq q r \<Longrightarrow> path_eq p r"
  by (auto simp: path_eq_def)

lemma path_eq_starts_with: "path_eq p q \<Longrightarrow> path_starts_with p r = path_starts_with q r"
  by (simp add: path_eq_def path_starts_with_def)

text \<open>Containment of scopes is inclusion of the paths they match.\<close>

lemma contains_scope_matches:
  assumes "contains_scope s t" and "scope_matches_path t p"
  shows "scope_matches_path s p"
  using assms
  by (cases s; cases t)
    (auto simp: path_eq_def path_starts_with_def dest: starts_with_trans)

lemma contains_scope_refl: "contains_scope s s"
  by (cases s) (simp_all add: path_eq_def)

lemma contains_scope_trans:
  "contains_scope s t \<Longrightarrow> contains_scope t u \<Longrightarrow> contains_scope s u"
  by (cases s; cases t; cases u) (auto simp: path_eq_def path_starts_with_def dest: starts_with_trans)

end
