(* ===== verification/File_Policy.thy ===== *)
theory File_Policy
  imports File_Scope
begin

text \<open>
  The file policy, \<open>crates/access_control/src/policy/file\<close>: stored rules (\<open>model.rs\<close>), grants
  (\<open>validation.rs\<close>), the parser of the static rules file (\<open>parser.rs\<close>) and the rule store with
  its queries (\<open>store.rs\<close>, \<open>store/query.rs\<close>). Every operation that reads the file system
  takes the host as an argument.
\<close>

section \<open>Stored rules\<close>

datatype RuleTier = Plugin | Static | Builtin

fun tier_rank :: "RuleTier \<Rightarrow> nat" where
  "tier_rank RuleTier.Static = 0"
| "tier_rank Plugin = 0"
| "tier_rank RuleTier.Builtin = 1"

datatype RuleIdentityKind = HostAuto | Explicit | Static | Builtin

record StoredPolicyRule =
  sr_owner_instance_id :: string
  sr_rule_id :: string
  sr_tier :: RuleTier
  sr_identity :: RuleIdentityKind
  sr_decision :: FilePolicyDecision
  sr_operation :: FilePolicyOperation
  sr_scope :: PathScope
  sr_execution_scope :: PathScope
  sr_mark_directories :: PathSet
  sr_gray_target :: "u64 option"
  sr_priority :: i32
  sr_enabled :: bool
  sr_updated_revision :: u64
  sr_updated_sequence :: u64
  sr_rule :: EnforcementRule

definition stored_rule_new ::
    "Host \<Rightarrow> string \<Rightarrow> string \<Rightarrow> RuleTier \<Rightarrow> RuleIdentityKind \<Rightarrow> FilePolicyDecision
      \<Rightarrow> FilePolicyOperation \<Rightarrow> PathScope \<Rightarrow> u64 option \<Rightarrow> i32 \<Rightarrow> bool \<Rightarrow> u64 \<Rightarrow> u64
      \<Rightarrow> string + StoredPolicyRule" where
  "stored_rule_new host owner rule_id tier identity decision operation scope gray_target
       priority enabled revision sequence =
     (if decision = Default then Err ''file policy rule decision cannot be default''
      else
        bind_result (scope_bind host scope) (\<lambda>execution_scope.
        bind_result (normalized_scope (display_path scope)) (\<lambda>scope.
        bind_result (rule_decision_from_policy decision gray_target) (\<lambda>rule_decision.
        Ok \<lparr>sr_owner_instance_id = owner, sr_rule_id = rule_id, sr_tier = tier,
            sr_identity = identity, sr_decision = decision, sr_operation = operation,
            sr_scope = scope, sr_execution_scope = execution_scope,
            sr_mark_directories = bm_empty, sr_gray_target = gray_target,
            sr_priority = priority, sr_enabled = enabled, sr_updated_revision = revision,
            sr_updated_sequence = sequence,
            sr_rule = \<lparr>en_owner_instance_id = owner, en_rule_id = rule_id,
                       en_decision = rule_decision, en_operation = operation_as_str operation,
                       en_path = display_base execution_scope\<rparr>\<rparr>))))"

definition host_rule_id :: "u64 \<Rightarrow> string" where
  "host_rule_id n = host_rule_id_prefix @ ''-'' @ show_nat (unat n)"

definition draft_rule_id :: "FilePolicyRuleDraft \<Rightarrow> string option \<Rightarrow> u64 \<Rightarrow> string" where
  "draft_rule_id draft item_rule_id next_rule_id =
     (case item_rule_id of
        Some rule_id \<Rightarrow> rule_id
      | None \<Rightarrow> (case fd_rule_id draft of
                   Some rule_id \<Rightarrow> rule_id
                 | None \<Rightarrow> host_rule_id next_rule_id))"

definition from_draft ::
    "Host \<Rightarrow> string \<Rightarrow> FilePolicyRuleDraft \<Rightarrow> string option \<Rightarrow> u64 \<Rightarrow> u64 \<Rightarrow> u64
      \<Rightarrow> string + StoredPolicyRule" where
  "from_draft host owner draft item_rule_id revision sequence next_rule_id =
     (let rule_id = draft_rule_id draft item_rule_id next_rule_id
      in if trim rule_id = [] then Err ''rule_id must not be empty''
         else
           bind_result (absolute_scope (fd_path draft)) (\<lambda>scope.
           stored_rule_new host owner rule_id Plugin
             (if item_rule_id \<noteq> None \<or> fd_rule_id draft \<noteq> None then Explicit else HostAuto)
             (fd_decision draft) (fd_operation draft) scope (fd_gray_target draft)
             (fd_priority draft) True revision sequence))"

definition rule_matches_path :: "StoredPolicyRule \<Rightarrow> FilePolicyOperation \<Rightarrow> PathBuf \<Rightarrow> bool" where
  "rule_matches_path r operation path \<longleftrightarrow>
     operation_matches (sr_operation r) operation \<and> scope_matches_path (sr_execution_scope r) path"

definition is_host_auto :: "StoredPolicyRule \<Rightarrow> bool" where
  "is_host_auto r \<longleftrightarrow> sr_identity r = HostAuto"

definition has_same_logical_scope :: "StoredPolicyRule \<Rightarrow> StoredPolicyRule \<Rightarrow> bool" where
  "has_same_logical_scope r other \<longleftrightarrow>
     sr_owner_instance_id r = sr_owner_instance_id other
     \<and> sr_operation r = sr_operation other
     \<and> scope_eq (sr_scope r) (sr_scope other)"

definition is_builtin_allow :: "StoredPolicyRule \<Rightarrow> bool" where
  "is_builtin_allow r \<longleftrightarrow> sr_tier r = RuleTier.Builtin
     \<and> sr_decision r = FilePolicyDecision.Allow \<and> sr_operation r = Open"

definition contributes_mark_directories :: "StoredPolicyRule \<Rightarrow> bool" where
  "contributes_mark_directories r \<longleftrightarrow>
     sr_tier r \<noteq> RuleTier.Builtin \<and> operation_matches (sr_operation r) Open"

definition collect_mark_directories :: "Host \<Rightarrow> StoredPolicyRule \<Rightarrow> string + PathSet" where
  "collect_mark_directories host r =
     (if \<not> contributes_mark_directories r then Ok bm_empty
      else map_err (\<lambda>e. ''operation '' @ operation_as_str (sr_operation r)
                       @ '' requires fanotify open coverage: '' @ e)
             (scope_mark_directories host (sr_execution_scope r) bm_empty))"

definition prepare_mark_directories ::
    "Host \<Rightarrow> StoredPolicyRule \<Rightarrow> string + StoredPolicyRule" where
  "prepare_mark_directories host r =
     bind_result (collect_mark_directories host r) (\<lambda>ds. Ok (r\<lparr>sr_mark_directories := ds\<rparr>))"

definition matches_filter :: "StoredPolicyRule \<Rightarrow> FilePolicyListFilter \<Rightarrow> bool" where
  "matches_filter r criteria \<longleftrightarrow>
     (case fl_decision criteria of None \<Rightarrow> True | Some d \<Rightarrow> d = sr_decision r)
     \<and> (case fl_operation criteria of None \<Rightarrow> True | Some o' \<Rightarrow> o' = sr_operation r)
     \<and> (case fl_path_prefix criteria of
          None \<Rightarrow> True
        | Some prefix \<Rightarrow> starts_with (display_path (sr_scope r)) prefix)"

definition rule_view :: "StoredPolicyRule \<Rightarrow> FilePolicyRuleView" where
  "rule_view r =
     \<lparr>fv_rule_id = sr_rule_id r, fv_owner_instance_id = sr_owner_instance_id r,
      fv_decision = sr_decision r, fv_operation = sr_operation r,
      fv_path = display_path (sr_scope r), fv_gray_target = sr_gray_target r,
      fv_priority = sr_priority r, fv_enabled = sr_enabled r,
      fv_updated_sequence = sr_updated_sequence r\<rparr>"

definition execution_view :: "StoredPolicyRule \<Rightarrow> FilePolicyRuleView" where
  "execution_view r = (rule_view r)\<lparr>fv_path := display_path (sr_execution_scope r)\<rparr>"

section \<open>Grants\<close>

fun validate_bound_grant ::
    "Host \<Rightarrow> FilePolicyRulesApplyGrant list \<Rightarrow> StoredPolicyRule \<Rightarrow> string + unit" where
  "validate_bound_grant host [] r =
     Err (''missing file-policy.rules.apply grant for bound target ''
          @ display_path (sr_execution_scope r))"
| "validate_bound_grant host (grant # grants) r =
     (if fg_decision grant \<noteq> sr_decision r then validate_bound_grant host grants r
      else bind_result (normalized_scope (fg_path_scope grant)) (\<lambda>scope.
        if contains_scope scope (sr_scope r)
           \<and> (case bind_result (absolute_scope (fg_path_scope grant)) (scope_bind host) of
                Inl _ \<Rightarrow> False
              | Inr bound \<Rightarrow> contains_scope bound (sr_execution_scope r))
        then Ok () else validate_bound_grant host grants r))"

definition validate_rule_grant ::
    "FilePolicyRulesApplyGrant list \<Rightarrow> FilePolicyDecision \<Rightarrow> PathScope \<Rightarrow> string + unit" where
  "validate_rule_grant grants decision scope =
     (if list_ex (\<lambda>grant. fg_decision grant = decision
            \<and> (case normalized_scope (fg_path_scope grant) of
                 Inl _ \<Rightarrow> False | Inr grant_scope \<Rightarrow> contains_scope grant_scope scope)) grants
      then Ok ()
      else Err (''missing file-policy.rules.apply grant for '' @ file_decision_as_str decision
                @ '' '' @ display_path scope))"

definition validate_draft_grant ::
    "FilePolicyRulesApplyGrant list \<Rightarrow> FilePolicyRuleDraft \<Rightarrow> string + unit" where
  "validate_draft_grant grants draft =
     bind_result (normalized_scope (fd_path draft)) (\<lambda>scope.
       validate_rule_grant grants (fd_decision draft) scope)"

definition apply_result_from_errors ::
    "u64 \<Rightarrow> u32 \<Rightarrow> FilePolicyApplyError list \<Rightarrow> FilePolicyApplyResult" where
  "apply_result_from_errors revision applied_count errors =
     \<lparr>fr_status = (if errors = [] then Accepted else Rejected), fr_new_revision = revision,
      fr_applied_count = applied_count, fr_rejected_count = of_nat (length errors),
      fr_errors = errors\<rparr>"

section \<open>The static rules file\<close>

definition parse_positive :: "nat \<Rightarrow> string \<Rightarrow> string \<Rightarrow> string + nat" where
  "parse_positive bound name raw =
     bind_result
       (map_err (\<lambda>e. name @ '' must be a positive integer: '' @ e) (parse_unsigned bound raw))
       (\<lambda>value. if value = 0 then Err (name @ '' must be greater than zero'') else Ok value)"

definition parse_local_rule ::
    "string \<Rightarrow> string \<Rightarrow> string \<Rightarrow> string \<Rightarrow> string + EnforcementRule" where
  "parse_local_rule rule_id decision operation path =
     bind_result (operation_from_wire operation) (\<lambda>op.
     bind_result (enforcement_decision_from_str decision) (\<lambda>d.
     bind_result (absolute_path path) (\<lambda>p.
     Ok \<lparr>en_owner_instance_id = static_policy_owner, en_rule_id = rule_id,
         en_decision = Local d, en_operation = operation_as_str op, en_path = p\<rparr>)))"

definition parse_sync_plugin_rule ::
    "string \<Rightarrow> string \<Rightarrow> string \<Rightarrow> string \<Rightarrow> string \<Rightarrow> string \<Rightarrow> string
      \<Rightarrow> string + EnforcementRule" where
  "parse_sync_plugin_rule rule_id instance_id timeout_ms concurrency_limit fallback operation path =
     bind_result (operation_from_wire operation) (\<lambda>op.
     if trim instance_id = [] then Err ''sync-plugin instance id must not be empty''
     else
     bind_result (parse_positive (2 ^ 64) ''timeout-ms'' timeout_ms) (\<lambda>timeout.
     bind_result (parse_positive (2 ^ 32) ''concurrency'' concurrency_limit) (\<lambda>limit.
     bind_result (enforcement_decision_from_str fallback) (\<lambda>d.
     bind_result (absolute_path path) (\<lambda>p.
     Ok \<lparr>en_owner_instance_id = static_policy_owner, en_rule_id = rule_id,
         en_decision = SyncPlugin instance_id (of_nat timeout) (of_nat limit) d,
         en_operation = operation_as_str op, en_path = p\<rparr>)))))"

definition parse_rule :: "string \<Rightarrow> string + EnforcementRule" where
  "parse_rule raw =
     (let usage = Err (''expected: <rule_id> <allow|deny> <any|open|mkdir|rmdir> <absolute-path> or <rule_id> gray sync-plugin <instance> timeout-ms <positive-ms> concurrency <positive-limit> fallback <allow|deny> <any|open|mkdir|rmdir> <absolute-path>'')
      in case split_whitespace raw of
           [rule_id, decision, operation, path] \<Rightarrow> parse_local_rule rule_id decision operation path
         | [rule_id, gray, sync, instance_id, kw_timeout, timeout_ms, kw_concurrency,
            concurrency_limit, kw_fallback, fallback, operation, path] \<Rightarrow>
             if gray = ''gray'' \<and> sync = ''sync-plugin'' \<and> kw_timeout = ''timeout-ms''
                \<and> kw_concurrency = ''concurrency'' \<and> kw_fallback = ''fallback''
             then parse_sync_plugin_rule rule_id instance_id timeout_ms concurrency_limit
                    fallback operation path
             else usage
         | _ \<Rightarrow> usage)"

section \<open>The store\<close>

datatype FileRuleCoverage = Fanotify | Lsm

record EnforcementRules =
  er_coverage :: FileRuleCoverage
  er_revision :: u64
  er_next_rule_id :: u64
  er_next_sequence :: u64
  er_by_owner :: "(string, (string, StoredPolicyRule) btree_map) btree_map"
  er_effective_rules :: "StoredPolicyRule list"
  er_mark_directories :: PathSet

definition empty_with_coverage :: "FileRuleCoverage \<Rightarrow> EnforcementRules" where
  "empty_with_coverage coverage =
     \<lparr>er_coverage = coverage, er_revision = 0, er_next_rule_id = 1, er_next_sequence = 1,
      er_by_owner = bm_empty, er_effective_rules = [], er_mark_directories = bm_empty\<rparr>"

definition owner_rules :: "EnforcementRules \<Rightarrow> string \<Rightarrow> (string, StoredPolicyRule) btree_map" where
  "owner_rules st owner =
     (case bm_get (er_by_owner st) owner of None \<Rightarrow> bm_empty | Some rules \<Rightarrow> rules)"

definition all_rules :: "EnforcementRules \<Rightarrow> StoredPolicyRule list" where
  "all_rules st = concat (map bm_values (bm_values (er_by_owner st)))"

text \<open>
  The order of the effective rules: by tier, then priority, then the sequence number of
  the last change, all descending; the sort is stable.
\<close>

definition rule_key :: "StoredPolicyRule \<Rightarrow> int \<times> int \<times> int" where
  "rule_key r = (- int (tier_rank (sr_tier r)), - sint (sr_priority r),
                 - uint (sr_updated_sequence r))"

definition effective_order :: "StoredPolicyRule list \<Rightarrow> StoredPolicyRule list" where
  "effective_order rules = sort_key rule_key (filter sr_enabled rules)"

definition rebuild_effective :: "EnforcementRules \<Rightarrow> EnforcementRules" where
  "rebuild_effective st =
     (let effective = effective_order (all_rules st);
          directories =
            (if er_coverage st = Fanotify
             then fold (\<lambda>r ds. if contributes_mark_directories r
                               then fold ps_insert (bm_values (sr_mark_directories r)) ds else ds)
                    effective bm_empty
             else bm_empty)
      in st\<lparr>er_effective_rules := effective, er_mark_directories := directories\<rparr>)"

definition bump_revision :: "EnforcementRules \<Rightarrow> EnforcementRules" where
  "bump_revision st =
     rebuild_effective (st\<lparr>er_revision := saturating_add_u64 (er_revision st) 1\<rparr>)"

definition next_sequence :: "EnforcementRules \<Rightarrow> EnforcementRules \<times> u64" where
  "next_sequence st =
     (st\<lparr>er_next_sequence := saturating_add_u64 (er_next_sequence st) 1\<rparr>, er_next_sequence st)"

text \<open>The search for an unused rule number; at the largest number it would not end.\<close>

partial_function (option) available_number ::
    "(string, StoredPolicyRule) btree_map \<Rightarrow> u64 \<Rightarrow> u64 option" where
  [code]: "available_number rules next =
     (if bm_get rules (host_rule_id next) \<noteq> None
      then available_number rules (saturating_add_u64 next 1) else Some next)"

definition next_available_host_rule_number :: "EnforcementRules \<Rightarrow> string \<Rightarrow> u64 option" where
  "next_available_host_rule_number st owner =
     available_number (owner_rules st owner) (er_next_rule_id st)"

definition put_rule :: "EnforcementRules \<Rightarrow> string \<Rightarrow> StoredPolicyRule \<Rightarrow> EnforcementRules" where
  "put_rule st owner r =
     st\<lparr>er_by_owner := bm_insert owner (bm_insert (sr_rule_id r) r (owner_rules st owner))
          (er_by_owner st)\<rparr>"

definition static_policy_decision :: "RuleDecision \<Rightarrow> FilePolicyDecision" where
  "static_policy_decision decision =
     (case decision of
        Local EnforcementDecision.Allow \<Rightarrow> FilePolicyDecision.Allow
      | Local EnforcementDecision.Deny \<Rightarrow> FilePolicyDecision.Deny
      | SyncPlugin _ _ _ _ \<Rightarrow> Gray)"

definition static_stored_rule ::
    "EnforcementRule \<Rightarrow> FilePolicyOperation \<Rightarrow> PathScope \<Rightarrow> PathScope \<Rightarrow> u64 \<Rightarrow> u64
      \<Rightarrow> StoredPolicyRule" where
  "static_stored_rule rule operation scope execution_scope revision sequence =
     \<lparr>sr_owner_instance_id = static_policy_owner, sr_rule_id = en_rule_id rule,
      sr_tier = RuleTier.Static, sr_identity = RuleIdentityKind.Static,
      sr_decision = static_policy_decision (en_decision rule), sr_operation = operation,
      sr_scope = scope, sr_execution_scope = execution_scope, sr_mark_directories = bm_empty,
      sr_gray_target = None, sr_priority = 0, sr_enabled = True, sr_updated_revision = revision,
      sr_updated_sequence = sequence, sr_rule = rule\<lparr>en_path := display_base execution_scope\<rparr>\<rparr>"

definition insert_static_rule ::
    "Host \<Rightarrow> EnforcementRules \<Rightarrow> EnforcementRule \<Rightarrow> string + EnforcementRules" where
  "insert_static_rule host st rule =
     bind_result (absolute_scope (en_path rule)) (\<lambda>scope.
     bind_result (scope_bind host scope) (\<lambda>execution_scope.
     bind_result (normalized_scope (display_path scope)) (\<lambda>scope.
     bind_result (operation_from_wire (en_operation rule)) (\<lambda>operation.
     let (st, sequence) = next_sequence st;
         stored = static_stored_rule rule operation scope execution_scope (er_revision st) sequence
     in
     bind_result (if er_coverage st = Fanotify then prepare_mark_directories host stored
                  else Ok stored) (\<lambda>stored.
     Ok (put_rule st static_policy_owner stored))))))"

fun parse_lines ::
    "Host \<Rightarrow> nat \<Rightarrow> string list \<Rightarrow> string btree_set \<Rightarrow> EnforcementRules
      \<Rightarrow> string + EnforcementRules" where
  "parse_lines host n [] rule_ids st = Ok st"
| "parse_lines host n (line # lines) rule_ids st =
     (let trimmed = trim line
      in if trimmed = [] \<or> hd trimmed = CHR ''#''
         then parse_lines host (n + 1) lines rule_ids st
         else
           bind_result (map_err (\<lambda>e. ''enforcement rule line '' @ show_nat (n + 1) @ '': '' @ e)
                          (parse_rule trimmed)) (\<lambda>rule.
           if bs_contains rule_ids (en_rule_id rule)
           then Err (''enforcement rule line '' @ show_nat (n + 1) @ '' duplicates rule id ''
                     @ en_rule_id rule)
           else bind_result (insert_static_rule host st rule) (\<lambda>st.
             parse_lines host (n + 1) lines (bs_insert (en_rule_id rule) rule_ids) st)))"

definition parse_rules :: "Host \<Rightarrow> string \<Rightarrow> FileRuleCoverage \<Rightarrow> string + EnforcementRules" where
  "parse_rules host raw coverage =
     bind_result (parse_lines host 0 (text_lines raw) bm_empty (empty_with_coverage coverage))
       (\<lambda>st. Ok (rebuild_effective st))"

definition load_with_coverage ::
    "Host \<Rightarrow> FsError + string \<Rightarrow> PathBuf \<Rightarrow> FileRuleCoverage \<Rightarrow> string + EnforcementRules" where
  "load_with_coverage host content path coverage =
     (case content of
        Inr raw \<Rightarrow> parse_rules host raw coverage
      | Inl e \<Rightarrow>
          if fe_kind e = NotFound then Ok (empty_with_coverage coverage)
          else Err (''read enforcement rules '' @ path @ '': '' @ fe_text e))"

definition builtin_stored_rule ::
    "string \<Rightarrow> PathScope \<Rightarrow> PathScope \<Rightarrow> u64 \<Rightarrow> u64 \<Rightarrow> StoredPolicyRule" where
  "builtin_stored_rule rule_id scope execution_scope revision sequence =
     \<lparr>sr_owner_instance_id = builtin_policy_owner, sr_rule_id = rule_id,
      sr_tier = RuleTier.Builtin, sr_identity = RuleIdentityKind.Builtin,
      sr_decision = FilePolicyDecision.Allow, sr_operation = Open, sr_scope = scope,
      sr_execution_scope = execution_scope, sr_mark_directories = bm_empty,
      sr_gray_target = None, sr_priority = 2147483647, sr_enabled = True,
      sr_updated_revision = revision, sr_updated_sequence = sequence,
      sr_rule = \<lparr>en_owner_instance_id = builtin_policy_owner, en_rule_id = rule_id,
        en_decision = Local EnforcementDecision.Allow, en_operation = operation_as_str Open,
        en_path = display_base execution_scope\<rparr>\<rparr>"

definition insert_builtin_allow_rule ::
    "Host \<Rightarrow> EnforcementRules \<Rightarrow> string \<Rightarrow> string \<Rightarrow> EnforcementRules \<times> (string + unit)" where
  "insert_builtin_allow_rule host st rule_id path =
     (if trim rule_id = [] then (st, Err ''builtin file policy rule_id must not be empty'')
      else if bm_get (owner_rules st builtin_policy_owner) rule_id \<noteq> None
      then (st, Err (''duplicate builtin file policy rule id '' @ rule_id))
      else case absolute_scope path of
        Inl e \<Rightarrow> (st, Err e)
      | Inr scope \<Rightarrow>
     (case scope_bind host scope of
        Inl e \<Rightarrow> (st, Err e)
      | Inr execution_scope \<Rightarrow>
          (let (st, sequence) = next_sequence st
           in (put_rule st builtin_policy_owner
                 (builtin_stored_rule rule_id scope execution_scope (er_revision st) sequence),
               Ok ()))))"

fun install_builtin_allow_rules ::
    "Host \<Rightarrow> EnforcementRules \<Rightarrow> (string \<times> string) list \<Rightarrow> EnforcementRules \<times> (string + unit)" where
  "install_builtin_allow_rules host st [] = (rebuild_effective st, Ok ())"
| "install_builtin_allow_rules host st ((rule_id, path) # rest) =
     (case insert_builtin_allow_rule host st rule_id path of
        (st, Inl e) \<Rightarrow> (st, Err e)
      | (st, Inr _) \<Rightarrow> install_builtin_allow_rules host st rest)"

section \<open>Validation of a patch\<close>

definition validate_not_stale_rule :: "u64 \<Rightarrow> StoredPolicyRule \<Rightarrow> string + unit" where
  "validate_not_stale_rule base_revision existing =
     (if base_revision < sr_updated_revision existing
      then Err (''stale file policy request for rule '' @ sr_rule_id existing @ '': base_revision ''
                @ show_nat (unat base_revision) @ '' is older than rule revision ''
                @ show_nat (unat (sr_updated_revision existing)))
      else Ok ())"

fun validate_none_stale :: "u64 \<Rightarrow> StoredPolicyRule \<Rightarrow> StoredPolicyRule list \<Rightarrow> string + unit" where
  "validate_none_stale base_revision draft [] = Ok ()"
| "validate_none_stale base_revision draft (existing # rest) =
     (if has_same_logical_scope existing draft
      then bind_result (validate_not_stale_rule base_revision existing)
             (\<lambda>_. validate_none_stale base_revision draft rest)
      else validate_none_stale base_revision draft rest)"

definition validate_not_stale_upsert ::
    "EnforcementRules \<Rightarrow> string \<Rightarrow> u64 \<Rightarrow> StoredPolicyRule \<Rightarrow> string + unit" where
  "validate_not_stale_upsert st owner base_revision draft =
     (case bm_get (er_by_owner st) owner of
        None \<Rightarrow> Ok ()
      | Some rules \<Rightarrow>
          bind_result (case bm_get rules (sr_rule_id draft) of
                         None \<Rightarrow> Ok ()
                       | Some existing \<Rightarrow> validate_not_stale_rule base_revision existing)
            (\<lambda>_. validate_none_stale base_revision draft (bm_values rules)))"

definition validate_item ::
    "Host \<Rightarrow> EnforcementRules \<Rightarrow> string \<Rightarrow> FilePolicyRulesApplyGrant list \<Rightarrow> u64
      \<Rightarrow> FilePolicyPatchItem \<Rightarrow> string + unit" where
  "validate_item host st owner grants base_revision item =
     (if fi_op item = Upsert then
        (case fi_rule item of
           None \<Rightarrow> Err ''upsert requires rule''
         | Some draft \<Rightarrow>
             bind_result (validate_draft_grant grants draft) (\<lambda>_.
             bind_result (from_draft host owner draft (fi_rule_id item) (er_revision st) 1
                            (er_next_rule_id st)) (\<lambda>draft_rule.
             bind_result (validate_bound_grant host grants draft_rule) (\<lambda>_.
             bind_result (if er_coverage st = Fanotify then prepare_mark_directories host draft_rule
                          else Ok draft_rule) (\<lambda>draft_rule.
             validate_not_stale_upsert st owner base_revision draft_rule)))))
      else
        (case fi_rule_id item of
           None \<Rightarrow> Err ''rule_id is required''
         | Some rule_id \<Rightarrow>
        (case bm_get (owner_rules st owner) rule_id of
           None \<Rightarrow> Err (''rule '' @ rule_id @ '' not found for owner'')
         | Some existing \<Rightarrow>
             bind_result (validate_not_stale_rule base_revision existing) (\<lambda>_.
             bind_result (validate_rule_grant grants (sr_decision existing) (sr_scope existing)) (\<lambda>_.
             if fi_op item = Enable \<and> er_coverage st = Fanotify
             then bind_result (collect_mark_directories host existing) (\<lambda>_. Ok ())
             else Ok ())))))"

fun validate_items_from ::
    "Host \<Rightarrow> EnforcementRules \<Rightarrow> string \<Rightarrow> FilePolicyRulesApplyGrant list \<Rightarrow> u64 \<Rightarrow> nat
      \<Rightarrow> FilePolicyPatchItem list \<Rightarrow> FilePolicyApplyError list" where
  "validate_items_from host st owner grants base_revision index [] = []"
| "validate_items_from host st owner grants base_revision index (item # items) =
     (case validate_item host st owner grants base_revision item of
        Inl message \<Rightarrow>
          \<lparr>fx_item_index = of_nat index, fx_code = ''invalid-rule'', fx_message = message\<rparr>
          # validate_items_from host st owner grants base_revision (index + 1) items
      | Inr _ \<Rightarrow> validate_items_from host st owner grants base_revision (index + 1) items)"

definition validate_apply_items ::
    "Host \<Rightarrow> EnforcementRules \<Rightarrow> string \<Rightarrow> FilePolicyRulesApplyGrant list \<Rightarrow> u64
      \<Rightarrow> FilePolicyPatchItem list \<Rightarrow> FilePolicyApplyError list" where
  "validate_apply_items host st owner grants base_revision items =
     validate_items_from host st owner grants base_revision 0 items"

definition reject_invalid_precondition ::
    "EnforcementRules \<Rightarrow> FilePolicyApplyPrecondition \<Rightarrow> FilePolicyApplyResult option" where
  "reject_invalid_precondition st precondition =
     (if fp_apply_mode precondition = Aon then
        Some (apply_result_from_errors (er_revision st) 0
          [\<lparr>fx_item_index = 0, fx_code = ''unsupported-apply-mode'',
            fx_message = ''file policy apply_mode aon is temporarily disabled''\<rparr>])
      else if er_revision st < fp_base_revision precondition then
        Some (apply_result_from_errors (er_revision st) 0
          [\<lparr>fx_item_index = 0, fx_code = ''invalid-precondition'',
            fx_message = ''base_revision '' @ show_nat (unat (fp_base_revision precondition))
              @ '' is newer than current revision '' @ show_nat (unat (er_revision st))\<rparr>])
      else None)"

definition validate_apply ::
    "Host \<Rightarrow> EnforcementRules \<Rightarrow> string \<Rightarrow> FilePolicyRulesApplyGrant list
      \<Rightarrow> FilePolicyApplyRequest \<Rightarrow> FilePolicyApplyResult" where
  "validate_apply host st owner grants request =
     (case reject_invalid_precondition st (fq_precondition request) of
        Some result \<Rightarrow> result
      | None \<Rightarrow> apply_result_from_errors (er_revision st) 0
          (validate_apply_items host st owner grants
             (fp_base_revision (fq_precondition request)) (fq_items request)))"

section \<open>Application of a patch\<close>

definition supersede ::
    "StoredPolicyRule \<Rightarrow> (string, StoredPolicyRule) btree_map
      \<Rightarrow> (string, StoredPolicyRule) btree_map" where
  "supersede stored rules =
     fold bm_remove
       (map fst (filter (\<lambda>(rule_id, existing). is_host_auto existing
            \<and> has_same_logical_scope existing stored \<and> sr_rule_id existing \<noteq> sr_rule_id stored)
          (bm_entries rules)))
       rules"

definition store_upserted ::
    "EnforcementRules \<Rightarrow> string \<Rightarrow> StoredPolicyRule \<Rightarrow> u64 \<Rightarrow> EnforcementRules" where
  "store_upserted st owner stored next_rule_id =
     (let st = (if is_host_auto stored
                then st\<lparr>er_next_rule_id := saturating_add_u64 next_rule_id 1\<rparr> else st);
          rules = owner_rules st owner;
          rules = (if is_host_auto stored then supersede stored rules else rules)
      in st\<lparr>er_by_owner := bm_insert owner (bm_insert (sr_rule_id stored) stored rules)
              (er_by_owner st)\<rparr>)"

text \<open>
  The result is \<open>None\<close> when the search for a rule number does not end. The sequence number
  is taken before anything can fail.
\<close>

definition apply_upsert ::
    "Host \<Rightarrow> EnforcementRules \<Rightarrow> string \<Rightarrow> FilePolicyRulesApplyGrant list
      \<Rightarrow> FilePolicyPatchItem \<Rightarrow> u64 \<Rightarrow> (EnforcementRules \<times> (string + unit)) option" where
  "apply_upsert host st owner grants item mutation_revision =
     (case fi_rule item of
        None \<Rightarrow> Some (st, Err ''upsert requires rule'')
      | Some draft \<Rightarrow>
     (let (st1, sequence) = next_sequence st
      in case next_available_host_rule_number st1 owner of
           None \<Rightarrow> None
         | Some next_rule_id \<Rightarrow>
             Some (case bind_result (from_draft host owner draft (fi_rule_id item)
                             mutation_revision sequence next_rule_id) (\<lambda>stored.
                          bind_result (validate_bound_grant host grants stored) (\<lambda>_.
                          if er_coverage st1 = Fanotify then prepare_mark_directories host stored
                          else Ok stored)) of
                     Inl e \<Rightarrow> (st1, Err e)
                   | Inr stored \<Rightarrow>
                       (store_upserted st1 owner stored next_rule_id, Ok ()))))"

definition apply_delete ::
    "EnforcementRules \<Rightarrow> string \<Rightarrow> FilePolicyPatchItem \<Rightarrow> EnforcementRules \<times> (string + unit)" where
  "apply_delete st owner item =
     (case fi_rule_id item of
        None \<Rightarrow> (st, Err ''rule_id is required'')
      | Some rule_id \<Rightarrow>
          ((case bm_get (er_by_owner st) owner of
              None \<Rightarrow> st
            | Some rules \<Rightarrow>
                st\<lparr>er_by_owner := bm_insert owner (bm_remove rule_id rules) (er_by_owner st)\<rparr>),
           Ok ()))"

definition apply_enable ::
    "Host \<Rightarrow> EnforcementRules \<Rightarrow> string \<Rightarrow> FilePolicyPatchItem \<Rightarrow> u64
      \<Rightarrow> EnforcementRules \<times> (string + unit)" where
  "apply_enable host st owner item mutation_revision =
     (case fi_rule_id item of
        None \<Rightarrow> (st, Err ''rule_id is required'')
      | Some rule_id \<Rightarrow>
     (let (st1, sequence) = next_sequence st
      in case bm_get (owner_rules st1 owner) rule_id of
           None \<Rightarrow> (st1, Err (''rule '' @ rule_id @ '' not found for owner''))
         | Some rule \<Rightarrow>
             (let enabled = (fi_op item = Enable)
              in case (if enabled \<and> er_coverage st1 = Fanotify
                       then prepare_mark_directories host rule else Ok rule) of
                   Inl e \<Rightarrow> (st1, Err e)
                 | Inr rule \<Rightarrow>
                     (st1\<lparr>er_by_owner := bm_insert owner
                        (bm_insert rule_id
                           (rule\<lparr>sr_enabled := enabled, sr_updated_revision := mutation_revision,
                              sr_updated_sequence := sequence\<rparr>)
                           (owner_rules st1 owner)) (er_by_owner st1)\<rparr>,
                      Ok ()))))"

definition apply_item ::
    "Host \<Rightarrow> EnforcementRules \<Rightarrow> string \<Rightarrow> FilePolicyRulesApplyGrant list
      \<Rightarrow> FilePolicyPatchItem \<Rightarrow> u64 \<Rightarrow> (EnforcementRules \<times> (string + unit)) option" where
  "apply_item host st owner grants item mutation_revision =
     (case fi_op item of
        Upsert \<Rightarrow> apply_upsert host st owner grants item mutation_revision
      | Delete \<Rightarrow> Some (apply_delete st owner item)
      | _ \<Rightarrow> Some (apply_enable host st owner item mutation_revision))"

definition saturating_add_u32 :: "u32 \<Rightarrow> u32 \<Rightarrow> u32" where
  "saturating_add_u32 a b = (if a \<le> a + b then a + b else - 1)"

fun apply_items_from ::
    "Host \<Rightarrow> string \<Rightarrow> FilePolicyRulesApplyGrant list \<Rightarrow> u32 list \<Rightarrow> nat
      \<Rightarrow> FilePolicyPatchItem list \<Rightarrow> u32 \<Rightarrow> EnforcementRules
      \<Rightarrow> (EnforcementRules \<times> (string + u32)) option" where
  "apply_items_from host owner grants invalid index [] applied st = Some (st, Ok applied)"
| "apply_items_from host owner grants invalid index (item # items) applied st =
     (if of_nat index \<in> set invalid
      then apply_items_from host owner grants invalid (index + 1) items applied st
      else case apply_item host st owner grants item (saturating_add_u64 (er_revision st) 1) of
             None \<Rightarrow> None
           | Some (st, Inl e) \<Rightarrow> Some (st, Err e)
           | Some (st, Inr _) \<Rightarrow>
               apply_items_from host owner grants invalid (index + 1) items
                 (saturating_add_u32 applied 1) st)"

definition apply_request ::
    "Host \<Rightarrow> EnforcementRules \<Rightarrow> string \<Rightarrow> FilePolicyRulesApplyGrant list
      \<Rightarrow> FilePolicyApplyRequest
      \<Rightarrow> (EnforcementRules \<times> (string + FilePolicyApplyResult \<times> PathBuf list)) option" where
  "apply_request host st owner grants request =
     (case reject_invalid_precondition st (fq_precondition request) of
        Some result \<Rightarrow> Some (st, Ok (result, []))
      | None \<Rightarrow>
     (let errors = validate_apply_items host st owner grants
            (fp_base_revision (fq_precondition request)) (fq_items request)
      in case apply_items_from host owner grants (map fx_item_index errors) 0
                (fq_items request) 0 st of
           None \<Rightarrow> None
         | Some (st, Inl e) \<Rightarrow> Some (st, Err e)
         | Some (st, Inr applied) \<Rightarrow>
             (let st = (if 0 < applied then bump_revision st else st)
              in Some (st, Ok
                   (\<lparr>fr_status = (if errors = [] \<or> 0 < applied then Accepted else Rejected),
                     fr_new_revision = er_revision st, fr_applied_count = applied,
                     fr_rejected_count = of_nat (length errors), fr_errors = errors\<rparr>,
                    bm_values (er_mark_directories st))))))"

definition remove_owner :: "EnforcementRules \<Rightarrow> string \<Rightarrow> EnforcementRules \<times> PathBuf list" where
  "remove_owner st owner =
     (case bm_get (er_by_owner st) owner of
        None \<Rightarrow> (st, [])
      | Some _ \<Rightarrow>
          (let st = bump_revision (st\<lparr>er_by_owner := bm_remove owner (er_by_owner st)\<rparr>)
           in (st, bm_values (er_mark_directories st))))"

section \<open>Queries\<close>

definition find_path ::
    "EnforcementRules \<Rightarrow> FilePolicyOperation \<Rightarrow> PathBuf \<Rightarrow> EnforcementRule option" where
  "find_path st operation path =
     map_option sr_rule (find (\<lambda>r. rule_matches_path r operation path) (er_effective_rules st))"

definition has_operation_rules :: "EnforcementRules \<Rightarrow> FilePolicyOperation \<Rightarrow> bool" where
  "has_operation_rules st operation =
     list_ex (\<lambda>r. operation_matches (sr_operation r) operation) (er_effective_rules st)"

definition find_builtin_allow :: "EnforcementRules \<Rightarrow> PathBuf \<Rightarrow> EnforcementRule option" where
  "find_builtin_allow st path =
     map_option sr_rule
       (find (\<lambda>r. is_builtin_allow r \<and> rule_matches_path r Open path) (er_effective_rules st))"

definition builtin_ignore_marks :: "EnforcementRules \<Rightarrow> BuiltinIgnoreMark list" where
  "builtin_ignore_marks st =
     map (\<lambda>r. \<lparr>bi_path = display_base (sr_execution_scope r),
               bi_recursive = is_recursive (sr_execution_scope r)\<rparr>)
       (filter is_builtin_allow (er_effective_rules st))"

definition effective_rule_views :: "EnforcementRules \<Rightarrow> FilePolicyRuleView list" where
  "effective_rule_views st = map execution_view (er_effective_rules st)"

definition list_rules ::
    "EnforcementRules \<Rightarrow> FilePolicyListFilter \<Rightarrow> string option \<Rightarrow> u32 \<Rightarrow> FilePolicyListResult" where
  "list_rules st criteria cursor limit =
     (let start = (case cursor of
            None \<Rightarrow> 0
          | Some value \<Rightarrow>
              (case parse_unsigned (2 ^ 64) value of Inl _ \<Rightarrow> 0 | Inr n \<Rightarrow> n));
          limit = max (unat limit) 1;
          views = sort_key fv_rule_id
            (map rule_view (filter (\<lambda>r. matches_filter r criteria) (all_rules st)));
          total = length views;
          rules = take limit (drop start views);
          next = min (start + length rules) (2 ^ 64 - 1)
      in \<lparr>fs_rules = rules, fs_next_cursor = (if next < total then Some (show_nat next) else None),
          fs_source_revision = er_revision st\<rparr>)"

definition match_dry_run ::
    "Host \<Rightarrow> EnforcementRules \<Rightarrow> FilePolicyMatchDryRunRequest \<Rightarrow> FilePolicyDecision
      \<Rightarrow> string + FilePolicyMatchDryRunResult" where
  "match_dry_run host st request default_decision =
     bind_result (bind_result (absolute_scope (dq_path request)) (scope_bind host)) (\<lambda>path.
       let matched = find (\<lambda>r. operation_matches (sr_operation r) (dq_operation request)
             \<and> contains_scope (sr_execution_scope r) path) (er_effective_rules st)
       in Ok \<lparr>dr_matched = (matched \<noteq> None),
              dr_decision = (case matched of None \<Rightarrow> default_decision | Some r \<Rightarrow> sr_decision r),
              dr_rule_id = map_option sr_rule_id matched,
              dr_operation = dq_operation request, dr_canonical_path = display_path path,
              dr_source_revision = er_revision st\<rparr>)"


end
