(* ===== verification/File_Store.thy ===== *)
theory File_Store
  imports File_Policy
begin

text \<open>
  How the operations of the file policy store change the stored rules: the rules an owner
  holds, the frame of every operation, and the search for an unused rule number.
\<close>

section \<open>Stored rules of an owner\<close>

definition stored :: "EnforcementRules \<Rightarrow> string \<Rightarrow> string \<Rightarrow> StoredPolicyRule option" where
  "stored st owner rid = bm_get (owner_rules st owner) rid"

lemma all_rules_iff: "r \<in> set (all_rules st) \<longleftrightarrow> (\<exists>owner rid. stored st owner rid = Some r)"
proof
  assume "r \<in> set (all_rules st)"
  then obtain rules where "rules \<in> set (bm_values (er_by_owner st))" "r \<in> set (bm_values rules)"
    by (auto simp: all_rules_def)
  then obtain owner rid where "bm_get (er_by_owner st) owner = Some rules" "bm_get rules rid = Some r"
    by (auto simp: bm_values_iff)
  then show "\<exists>owner rid. stored st owner rid = Some r"
    by (intro exI [of _ owner] exI [of _ rid]) (simp add: stored_def owner_rules_def)
next
  assume "\<exists>owner rid. stored st owner rid = Some r"
  then obtain owner rid rules where "bm_get (er_by_owner st) owner = Some rules" "bm_get rules rid = Some r"
    by (auto simp: stored_def owner_rules_def split: option.splits)
  then have "rules \<in> set (bm_values (er_by_owner st))" "r \<in> set (bm_values rules)"
    unfolding bm_values_iff by blast+
  then show "r \<in> set (all_rules st)" by (auto simp: all_rules_def)
qed

lemma owner_rules_put [simp]:
  "owner_rules (st\<lparr>er_by_owner := bm_insert owner rules m\<rparr>) o'
     = (if o' = owner then rules else owner_rules (st\<lparr>er_by_owner := m\<rparr>) o')"
  by (simp add: owner_rules_def)

lemma owner_rules_same [simp]:
  "owner_rules (st\<lparr>er_by_owner := er_by_owner st\<rparr>) o' = owner_rules st o'"
  "owner_rules (st\<lparr>er_next_sequence := n\<rparr>) o' = owner_rules st o'"
  "owner_rules (st\<lparr>er_next_rule_id := n\<rparr>) o' = owner_rules st o'"
  "owner_rules (st\<lparr>er_revision := n\<rparr>) o' = owner_rules st o'"
  "owner_rules (rebuild_effective st) o' = owner_rules st o'"
  "owner_rules (bump_revision st) o' = owner_rules st o'"
  by (simp_all add: owner_rules_def rebuild_effective_def bump_revision_def Let_def)

lemma next_sequence_simps [simp]:
  "snd (next_sequence st) = er_next_sequence st"
  "owner_rules (fst (next_sequence st)) o' = owner_rules st o'"
  "er_by_owner (fst (next_sequence st)) = er_by_owner st"
  "er_revision (fst (next_sequence st)) = er_revision st"
  "er_coverage (fst (next_sequence st)) = er_coverage st"
  "er_effective_rules (fst (next_sequence st)) = er_effective_rules st"
  "er_next_rule_id (fst (next_sequence st)) = er_next_rule_id st"
  by (simp_all add: next_sequence_def)

lemma all_rules_simps [simp]:
  "all_rules (rebuild_effective st) = all_rules st"
  "all_rules (bump_revision st) = all_rules st"
  "all_rules (st\<lparr>er_revision := n\<rparr>) = all_rules st"
  by (simp_all add: all_rules_def rebuild_effective_def bump_revision_def Let_def)

lemma stored_simps [simp]:
  "stored (rebuild_effective st) o' i = stored st o' i"
  "stored (bump_revision st) o' i = stored st o' i"
  by (simp_all add: stored_def)

section \<open>Unused rule numbers\<close>

lemma of_nat_u64_inverse: "k < 2 ^ 64 \<Longrightarrow> unat (of_nat k :: u64) = k"
  by (simp add: unat_of_nat take_bit_nat_eq_self)

lemma host_rule_id_inject [simp]: "host_rule_id a = host_rule_id b \<longleftrightarrow> a = b"
  by (simp add: host_rule_id_def word_unat_eq_iff)

lemma available_number_fresh:
  assumes "available_number rules n = Some k"
  shows "bm_get rules (host_rule_id k) = None"
  by (rule available_number.raw_induct [OF _ assms,
        where P = "\<lambda>rules n k. bm_get rules (host_rule_id k) = None"])
    (auto split: if_splits)

lemma available_number_step:
  "available_number rules n =
     (if bm_get rules (host_rule_id n) \<noteq> None
      then available_number rules (saturating_add_u64 n 1) else Some n)"
  by (subst available_number.simps) simp

lemma available_number_reaches:
  assumes "bm_get rules (host_rule_id (n + of_nat k)) = None" and "unat n + k < 2 ^ 64"
  shows "available_number rules n \<noteq> None"
  using assms
proof (induction k arbitrary: n)
  case 0
  then show ?case by (simp add: available_number_step)
next
  case (Suc k)
  have "unat n + unat (1 :: u64) < 2 ^ 64" using Suc.prems(2) by simp
  then have add: "saturating_add_u64 n 1 = n + 1" and un: "unat (n + 1) = unat n + 1"
    by (simp_all add: saturating_add_u64_def unat_word_ariths)
  have "available_number rules (n + 1) \<noteq> None"
    using Suc.prems un by (intro Suc.IH) (simp_all add: add.assoc)
  then show ?case by (simp add: available_number_step [of rules n] add)
qed

text \<open>Fewer stored rules than remaining numbers: some number is unused.\<close>

lemma unused_number_exists:
  fixes rules :: "(string, StoredPolicyRule) btree_map" and n :: u64
  defines "sz \<equiv> length (bm_keys rules)"
  assumes "unat n + sz < 2 ^ 64"
  shows "\<exists>k \<le> sz. bm_get rules (host_rule_id (n + of_nat k)) = None"
proof (rule ccontr)
  assume "\<not> ?thesis"
  then have used: "host_rule_id (n + of_nat k) \<in> set (bm_keys rules)" if "k \<le> sz" for k
    using that by (auto simp: bm_keys_iff)
  have inj: "inj_on (\<lambda>k. host_rule_id (n + of_nat k)) {..sz}"
  proof (rule inj_onI)
    fix i j
    assume ij: "i \<in> {..sz}" "j \<in> {..sz}"
      and "host_rule_id (n + of_nat i) = host_rule_id (n + of_nat j)"
    then have "(of_nat i :: u64) = of_nat j" by simp
    moreover have "i < 2 ^ 64" "j < 2 ^ 64" using ij assms(2) by auto
    ultimately show "i = j" by (metis of_nat_u64_inverse)
  qed
  have "(\<lambda>k. host_rule_id (n + of_nat k)) ` {..sz} \<subseteq> set (bm_keys rules)" using used by auto
  then have "card {..sz} \<le> card (set (bm_keys rules))"
    using inj by (metis card_image card_mono finite_set)
  also have "\<dots> \<le> sz" unfolding sz_def by (rule card_length)
  finally show False by simp
qed

lemma available_number_terminates:
  assumes "unat n + length (bm_keys rules) < 2 ^ 64"
  shows "available_number rules n \<noteq> None"
proof -
  from assms obtain k where "k \<le> length (bm_keys rules)"
    and "bm_get rules (host_rule_id (n + of_nat k)) = None"
    using unused_number_exists by blast
  then show ?thesis using assms by (intro available_number_reaches [of rules n k]) simp_all
qed

section \<open>Grants\<close>

definition grant_bound :: "Host \<Rightarrow> FilePolicyRulesApplyGrant \<Rightarrow> string + PathScope" where
  "grant_bound host grant = bind_result (absolute_scope (fg_path_scope grant)) (scope_bind host)"

definition granted :: "Host \<Rightarrow> FilePolicyRulesApplyGrant list \<Rightarrow> StoredPolicyRule \<Rightarrow> bool" where
  "granted host grants r \<longleftrightarrow>
     (\<exists>grant \<in> set grants. fg_decision grant = sr_decision r
        \<and> (\<exists>bound. grant_bound host grant = Ok bound \<and> contains_scope bound (sr_execution_scope r)))"

lemma validate_bound_grant_Ok:
  "validate_bound_grant host grants r = Inr u \<Longrightarrow> granted host grants r"
proof (induction grants)
  case (Cons grant grants)
  show ?case
  proof (cases "fg_decision grant = sr_decision r
      \<and> (\<exists>bound. grant_bound host grant = Ok bound \<and> contains_scope bound (sr_execution_scope r))")
    case True
    then show ?thesis unfolding granted_def by (meson list.set_intros(1))
  next
    case False
    with Cons.prems have "validate_bound_grant host grants r = Inr u"
      by (auto simp: grant_bound_def [symmetric] split: if_splits sum.splits)
    with Cons.IH show ?thesis unfolding granted_def by (meson list.set_intros(2))
  qed
qed simp

section \<open>Rules made from drafts\<close>

text \<open>
  What every stored rule satisfies: it is stored under its owner and its identifier, and
  the rule it enforces has the same identity, operation and bound path.
\<close>

text \<open>
  The decision that is enforced for the decision of a rule: an allow or deny rule decides on the spot, a gray
  rule asks a plugin, the one it names if it names one.
\<close>

definition decision_agrees :: "FilePolicyDecision \<Rightarrow> u64 option \<Rightarrow> RuleDecision \<Rightarrow> bool" where
  "decision_agrees decision gray_target enforced \<longleftrightarrow>
     (case decision of
        FilePolicyDecision.Allow \<Rightarrow> enforced = Local EnforcementDecision.Allow
      | FilePolicyDecision.Deny \<Rightarrow> enforced = Local EnforcementDecision.Deny
      | Gray \<Rightarrow>
          (case enforced of
             Local _ \<Rightarrow> False
           | SyncPlugin instance_id timeout limit fallback \<Rightarrow>
               (\<forall>target. gray_target = Some target \<longrightarrow>
                  instance_id = show_nat (unat target) \<and> timeout = 30000 \<and> limit = 32
                  \<and> fallback = EnforcementDecision.Deny))
      | Default \<Rightarrow> False)"

lemma from_policy_agrees:
  "rule_decision_from_policy decision gray_target = Inr enforced \<Longrightarrow> decision_agrees decision gray_target enforced"
  by (cases decision) (auto simp: rule_decision_from_policy_def decision_agrees_def split: option.splits)

lemma static_decision_agrees: "decision_agrees (static_policy_decision enforced) None enforced"
  by (auto simp: static_policy_decision_def decision_agrees_def split: RuleDecision.splits EnforcementDecision.splits)

definition rule_wf :: "string \<Rightarrow> string \<Rightarrow> StoredPolicyRule \<Rightarrow> bool" where
  "rule_wf owner rid r \<longleftrightarrow>
     sr_rule_id r = rid \<and> sr_owner_instance_id r = owner
     \<and> en_rule_id (sr_rule r) = rid \<and> en_owner_instance_id (sr_rule r) = owner
     \<and> en_operation (sr_rule r) = operation_as_str (sr_operation r)
     \<and> en_path (sr_rule r) = display_base (sr_execution_scope r)
     \<and> decision_agrees (sr_decision r) (sr_gray_target r) (en_decision (sr_rule r))
     \<and> (\<exists>names. (\<forall>n \<in> set names. valid_name n) \<and> display_base (sr_execution_scope r) = abs_path names)"

lemma scope_bind_abs:
  assumes "scope_bind host s = Inr s'"
  shows "\<exists>names. names_ok host names \<and> display_base s' = abs_path names"
proof -
  from assms obtain p where p: "policy_path_bind host (display_base s) = Inr p"
    and s': "s' = (case s of Exact _ \<Rightarrow> Exact p | Recursive _ \<Rightarrow> Recursive p)"
    by (auto simp: scope_bind_def)
  have "display_base s' = p" by (cases s) (simp_all add: s')
  with policy_bind_result [OF p] show ?thesis by auto
qed

lemma from_draft_Ok:
  assumes "from_draft host owner draft item_rule_id revision sequence n = Inr r"
  obtains scope where "absolute_scope (fd_path draft) = Inr scope"
    and "sr_rule_id r = draft_rule_id draft item_rule_id n"
    and "normalized_scope (display_path scope) = Inr (sr_scope r)"
    and "scope_bind host scope = Inr (sr_execution_scope r)"
    and "sr_operation r = fd_operation draft" and "sr_decision r = fd_decision draft"
    and "sr_updated_revision r = revision" and "sr_updated_sequence r = sequence"
    and "sr_tier r = Plugin" and "sr_owner_instance_id r = owner" and "sr_enabled r"
    and "is_host_auto r \<longleftrightarrow> item_rule_id = None \<and> fd_rule_id draft = None"
    and "rule_wf owner (sr_rule_id r) r"
proof -
  from assms obtain scope ex sc dec where
    scope: "absolute_scope (fd_path draft) = Inr scope" "scope_bind host scope = Inr ex"
      "normalized_scope (display_path scope) = Inr sc"
    and dec: "rule_decision_from_policy (fd_decision draft) (fd_gray_target draft) = Inr dec"
    and r: "r = \<lparr>sr_owner_instance_id = owner, sr_rule_id = draft_rule_id draft item_rule_id n,
          sr_tier = Plugin,
          sr_identity = (if item_rule_id \<noteq> None \<or> fd_rule_id draft \<noteq> None then Explicit else HostAuto),
          sr_decision = fd_decision draft, sr_operation = fd_operation draft,
          sr_scope = sc, sr_execution_scope = ex, sr_mark_directories = bm_empty,
          sr_gray_target = fd_gray_target draft, sr_priority = fd_priority draft,
          sr_enabled = True, sr_updated_revision = revision, sr_updated_sequence = sequence,
          sr_rule = \<lparr>en_owner_instance_id = owner, en_rule_id = draft_rule_id draft item_rule_id n,
            en_decision = dec, en_operation = operation_as_str (fd_operation draft),
            en_path = display_base ex\<rparr>\<rparr>"
    by (auto simp: from_draft_def stored_rule_new_def Let_def split: if_splits)
  have "rule_wf owner (sr_rule_id r) r"
    using scope_bind_abs [OF scope(2)] from_policy_agrees [OF dec] by (auto simp: r rule_wf_def names_ok_def)
  moreover have "is_host_auto r \<longleftrightarrow> item_rule_id = None \<and> fd_rule_id draft = None"
    by (simp add: r is_host_auto_def)
  ultimately show ?thesis using scope by (intro that [of scope]) (simp_all add: r)
qed

lemma prepare_mark_directories_Ok:
  "prepare_mark_directories host r = Inr r' \<Longrightarrow> \<exists>ds. r' = r\<lparr>sr_mark_directories := ds\<rparr>"
  by (auto simp: prepare_mark_directories_def)

text \<open>A rule with other mark directories or another switch position is otherwise the same.\<close>

definition same_rule :: "StoredPolicyRule \<Rightarrow> StoredPolicyRule \<Rightarrow> bool" where
  "same_rule r r' \<longleftrightarrow>
     (\<exists>ds e rev sq. r' = r\<lparr>sr_mark_directories := ds, sr_enabled := e, sr_updated_revision := rev,
        sr_updated_sequence := sq\<rparr>)"

lemma same_rule_sel:
  assumes "same_rule r r'"
  shows "sr_rule_id r' = sr_rule_id r" and "sr_owner_instance_id r' = sr_owner_instance_id r"
    and "sr_scope r' = sr_scope r" and "sr_execution_scope r' = sr_execution_scope r"
    and "sr_decision r' = sr_decision r" and "sr_operation r' = sr_operation r"
    and "sr_rule r' = sr_rule r" and "sr_tier r' = sr_tier r" and "sr_priority r' = sr_priority r"
    and "is_host_auto r' = is_host_auto r" and "sr_gray_target r' = sr_gray_target r"
  using assms by (auto simp: same_rule_def is_host_auto_def)

lemma same_rule_wf: "same_rule r r' \<Longrightarrow> rule_wf owner rid r' = rule_wf owner rid r"
  by (simp add: rule_wf_def same_rule_sel)

lemma same_rule_refl [simp]: "same_rule r r"
  unfolding same_rule_def
  by (rule exI [of _ "sr_mark_directories r"], rule exI [of _ "sr_enabled r"],
      rule exI [of _ "sr_updated_revision r"], rule exI [of _ "sr_updated_sequence r"]) simp

lemma same_rule_trans:
  assumes "same_rule a b" and "same_rule b c"
  shows "same_rule a c"
proof -
  from assms obtain ds e rev sq where "c = a\<lparr>sr_mark_directories := ds, sr_enabled := e,
      sr_updated_revision := rev, sr_updated_sequence := sq\<rparr>"
    unfolding same_rule_def by (elim exE) simp
  then show ?thesis unfolding same_rule_def by blast
qed

lemma same_rule_mark: "same_rule r (r\<lparr>sr_mark_directories := ds\<rparr>)"
proof -
  have "r\<lparr>sr_mark_directories := ds\<rparr> = r\<lparr>sr_mark_directories := ds, sr_enabled := sr_enabled r,
      sr_updated_revision := sr_updated_revision r, sr_updated_sequence := sr_updated_sequence r\<rparr>"
    by simp
  then show ?thesis unfolding same_rule_def by blast
qed

lemma granted_same: "same_rule r r' \<Longrightarrow> granted host grants r' = granted host grants r"
  by (simp add: granted_def same_rule_sel)


section \<open>The effect of a patch item\<close>

lemma bm_get_fold_remove:
  "bm_get (fold bm_remove ks m) k = (if k \<in> set ks then None else bm_get m k)"
  by (induction ks arbitrary: m) auto

lemma supersede_get:
  "bm_get (supersede s rules) rid =
     (case bm_get rules rid of
        None \<Rightarrow> None
      | Some r \<Rightarrow> if is_host_auto r \<and> has_same_logical_scope r s \<and> sr_rule_id r \<noteq> sr_rule_id s
                  then None else Some r)"
proof -
  have "rid \<in> set (map fst (filter (\<lambda>(i, r). is_host_auto r \<and> has_same_logical_scope r s
        \<and> sr_rule_id r \<noteq> sr_rule_id s) (bm_entries rules)))
    \<longleftrightarrow> (\<exists>r. bm_get rules rid = Some r \<and> is_host_auto r \<and> has_same_logical_scope r s
        \<and> sr_rule_id r \<noteq> sr_rule_id s)"
    by (force simp flip: bm_entries_iff)
  then show ?thesis
    unfolding supersede_def bm_get_fold_remove by (auto split: option.split)
qed

definition patched ::
    "Host \<Rightarrow> FilePolicyRulesApplyGrant list \<Rightarrow> u64 \<Rightarrow> string \<Rightarrow> string
      \<Rightarrow> StoredPolicyRule option \<Rightarrow> StoredPolicyRule \<Rightarrow> bool" where
  "patched host grants rv owner rid before r \<longleftrightarrow>
     before = Some r
     \<or> (\<exists>r0. before = Some r0 \<and> same_rule r0 r \<and> sr_updated_revision r = rv)
     \<or> rule_wf owner rid r \<and> granted host grants r \<and> sr_updated_revision r = rv"

definition patch_effect ::
    "Host \<Rightarrow> FilePolicyRulesApplyGrant list \<Rightarrow> u64 \<Rightarrow> string
      \<Rightarrow> EnforcementRules \<Rightarrow> EnforcementRules \<Rightarrow> bool" where
  "patch_effect host grants rv owner st st' \<longleftrightarrow>
     er_revision st' = er_revision st
     \<and> er_coverage st' = er_coverage st
     \<and> (\<forall>o'. o' \<noteq> owner \<longrightarrow> owner_rules st' o' = owner_rules st o')
     \<and> (\<forall>rid r. stored st' owner rid = Some r
          \<longrightarrow> patched host grants rv owner rid (stored st owner rid) r)"

lemma patch_effect_refl [simp]: "patch_effect host grants rv owner st st"
  by (simp add: patch_effect_def patched_def)

lemma patch_effect_sequence [simp]:
  "patch_effect host grants rv owner st (fst (next_sequence st))"
  by (simp add: patch_effect_def patched_def stored_def)

lemma patched_trans:
  assumes "\<And>r0. b = Some r0 \<Longrightarrow> patched host grants rv owner rid a r0"
    and "patched host grants rv owner rid b r"
  shows "patched host grants rv owner rid a r"
proof -
  from assms(2) consider "b = Some r"
    | r0 where "b = Some r0" "same_rule r0 r" "sr_updated_revision r = rv"
    | "rule_wf owner rid r \<and> granted host grants r \<and> sr_updated_revision r = rv"
    unfolding patched_def by blast
  then show ?thesis
  proof cases
    case 1
    then show ?thesis by (rule assms(1))
  next
    case (2 r0)
    from assms(1) [OF 2(1)] 2(2,3) show ?thesis
      unfolding patched_def by (metis same_rule_trans same_rule_wf granted_same)
  next
    case 3
    then show ?thesis by (simp add: patched_def)
  qed
qed

lemma patch_effect_trans:
  assumes "patch_effect host grants rv owner a b" and "patch_effect host grants rv owner b c"
  shows "patch_effect host grants rv owner a c"
proof -
  have "patched host grants rv owner rid (stored a owner rid) r" if "stored c owner rid = Some r" for rid r
    by (rule patched_trans [of "stored b owner rid"])
      (use assms that in \<open>simp_all add: patch_effect_def\<close>)
  with assms show ?thesis by (simp add: patch_effect_def)
qed

lemma store_upserted_simps [simp]:
  "owner_rules (store_upserted st owner s n) o' =
     (if o' = owner
      then bm_insert (sr_rule_id s) s
        (if is_host_auto s then supersede s (owner_rules st owner) else owner_rules st owner)
      else owner_rules st o')"
  "er_revision (store_upserted st owner s n) = er_revision st"
  "er_coverage (store_upserted st owner s n) = er_coverage st"
  by (cases "is_host_auto s"; simp add: store_upserted_def Let_def owner_rules_def)+

lemma upsert_Ok:
  assumes "apply_upsert host st owner grants item rv = Some (st', out)"
  obtains (failed) e where "out = Err e" and "patch_effect host grants rv owner st st'"
      and "owner_rules st' = owner_rules st"
  | (upserted) draft n s s' where "out = Ok ()" and "fi_rule item = Some draft"
      and "next_available_host_rule_number st owner = Some n"
      and "from_draft host owner draft (fi_rule_id item) rv (er_next_sequence st) n = Inr s"
      and "validate_bound_grant host grants s = Inr ()" and "same_rule s s'"
      and "sr_updated_revision s' = rv"
      and "st' = store_upserted (fst (next_sequence st)) owner s' n"
proof (cases "fi_rule item")
  case None
  with assms show ?thesis by (intro failed) (auto simp: apply_upsert_def)
next
  case (Some draft)
  let ?st = "fst (next_sequence st)"
  from assms Some obtain n where n: "next_available_host_rule_number st owner = Some n"
    by (auto simp: apply_upsert_def next_available_host_rule_number_def case_prod_beta
        split: option.splits)
  let ?made = "bind_result (from_draft host owner draft (fi_rule_id item) rv (er_next_sequence st) n)
      (\<lambda>s. bind_result (validate_bound_grant host grants s) (\<lambda>_.
        if er_coverage st = Fanotify then prepare_mark_directories host s else Ok s))"
  from n have step: "apply_upsert host st owner grants item rv = Some (case ?made of
      Inl e \<Rightarrow> (?st, Err e) | Inr s \<Rightarrow> (store_upserted ?st owner s n, Ok ()))"
    unfolding apply_upsert_def Some
    by (simp only: option.case next_sequence_simps case_prod_beta Let_def
        next_available_host_rule_number_def)
  show ?thesis
  proof (cases ?made)
    case (Inl e)
    with assms step have "(st', out) = (?st, Err e)" by (simp only: sum.case option.inject)
    then show ?thesis by (intro failed) (auto simp: fun_eq_iff)
  next
    case (Inr s')
    then obtain s where s: "from_draft host owner draft (fi_rule_id item) rv (er_next_sequence st) n = Inr s"
      "validate_bound_grant host grants s = Inr ()"
      and s': "(if er_coverage st = Fanotify then prepare_mark_directories host s else Ok s) = Inr s'"
      by auto
    have same: "same_rule s s'" and rv': "sr_updated_revision s' = sr_updated_revision s"
      using s' by (auto dest!: prepare_mark_directories_Ok intro: same_rule_mark split: if_splits)
    from assms step Inr have "out = Ok ()" and "st' = store_upserted ?st owner s' n"
      by (simp_all only: sum.case option.inject prod.inject)
    moreover have "sr_updated_revision s = rv" using s(1) by (rule from_draft_Ok)
    ultimately show ?thesis using upserted [OF _ Some n s same] rv' by simp
  qed
qed


lemma owner_rules_store: "owner_rules (st\<lparr>er_by_owner := er_by_owner st'\<rparr>) o' = owner_rules st' o'"
  by (simp add: owner_rules_def)

lemma same_rule_switch:
  assumes "same_rule r r'"
  shows "same_rule r (r'\<lparr>sr_enabled := e, sr_updated_revision := n, sr_updated_sequence := k\<rparr>)"
proof -
  have "r'\<lparr>sr_enabled := e, sr_updated_revision := n, sr_updated_sequence := k\<rparr>
      = r'\<lparr>sr_mark_directories := sr_mark_directories r', sr_enabled := e, sr_updated_revision := n,
          sr_updated_sequence := k\<rparr>"
    by simp
  then have "same_rule r' (r'\<lparr>sr_enabled := e, sr_updated_revision := n, sr_updated_sequence := k\<rparr>)"
    unfolding same_rule_def by blast
  with assms show ?thesis by (rule same_rule_trans)
qed

lemma apply_upsert_effect:
  assumes "apply_upsert host st owner grants item rv = Some (st', out)"
  shows "patch_effect host grants rv owner st st'"
  using assms
proof (cases rule: upsert_Ok)
  case (upserted draft n s s')
  from upserted(4) have wf: "rule_wf owner (sr_rule_id s) s" by (rule from_draft_Ok)
  have "granted host grants s'"
    using validate_bound_grant_Ok [OF upserted(5)] upserted(6) by (simp add: granted_same)
  moreover have "rule_wf owner (sr_rule_id s') s'"
    using wf upserted(6) by (simp add: same_rule_wf same_rule_sel)
  ultimately have "patched host grants rv owner (sr_rule_id s') before s'" for before
    using upserted(7) by (simp add: patched_def)
  then show ?thesis
    by (auto simp: upserted(8) patch_effect_def stored_def patched_def supersede_get
        split: option.splits if_splits)
qed

lemma apply_delete_effect:
  "patch_effect host grants rv owner st (fst (apply_delete st owner item))"
proof (cases "fi_rule_id item")
  case (Some rid)
  then show ?thesis
    by (auto simp: apply_delete_def patch_effect_def patched_def stored_def owner_rules_def
        split: option.splits if_splits)
qed (simp add: apply_delete_def)

lemma apply_enable_effect:
  "patch_effect host grants rv owner st (fst (apply_enable host st owner item rv))"
proof (cases "fi_rule_id item")
  case (Some rid)
  let ?enabled = "fi_op item = Enable"
  let ?prepared = "\<lambda>rule. if ?enabled \<and> er_coverage st = Fanotify then prepare_mark_directories host rule else Ok rule"
  show ?thesis
  proof (cases "stored st owner rid")
    case None
    with Some show ?thesis by (simp add: apply_enable_def case_prod_beta stored_def)
  next
    case stored: (Some rule)
    show ?thesis
    proof (cases "?prepared rule")
      case (Inl e)
      with Some stored show ?thesis
        by (simp add: apply_enable_def case_prod_beta stored_def Let_def del: split_paired_All)
    next
      case (Inr rule')
      then have "same_rule rule rule'"
        by (auto dest!: prepare_mark_directories_Ok intro: same_rule_mark split: if_splits)
      with Some stored Inr show ?thesis
        by (auto simp: apply_enable_def case_prod_beta stored_def Let_def patch_effect_def patched_def
            same_rule_switch owner_rules_store)
    qed
  qed
qed (simp add: apply_enable_def)

lemma apply_item_effect:
  "apply_item host st owner grants item rv = Some (st', out) \<Longrightarrow> patch_effect host grants rv owner st st'"
  using apply_delete_effect [of host grants rv owner st item]
    apply_enable_effect [of host grants rv owner st item]
  by (auto simp: apply_item_def intro: apply_upsert_effect split: FilePolicyPatchOp.splits)

lemma apply_items_effect:
  "apply_items_from host owner grants invalid index items applied st = Some (st', out)
    \<Longrightarrow> patch_effect host grants (saturating_add_u64 (er_revision st) 1) owner st st'"
proof (induction items arbitrary: index applied st)
  case (Cons item items)
  let ?rv = "saturating_add_u64 (er_revision st) 1"
  show ?case
  proof (cases "of_nat index \<in> set invalid")
    case True
    with Cons show ?thesis by simp
  next
    case False
    with Cons.prems obtain st1 res where item: "apply_item host st owner grants item ?rv = Some (st1, res)"
      by (auto split: option.splits)
    then have first: "patch_effect host grants ?rv owner st st1" by (rule apply_item_effect)
    then have same: "er_revision st1 = er_revision st" by (simp add: patch_effect_def)
    show ?thesis
    proof (cases res)
      case (Inl e)
      with Cons.prems False item first show ?thesis by simp
    next
      case (Inr u)
      with Cons.prems False item have
        "apply_items_from host owner grants invalid (index + 1) items (saturating_add_u32 applied 1) st1
          = Some (st', out)" by simp
      from Cons.IH [OF this] have "patch_effect host grants ?rv owner st1 st'" by (simp add: same)
      with first show ?thesis by (rule patch_effect_trans)
    qed
  qed
qed simp


section \<open>Stale requests\<close>

lemma validate_none_stale_Ok:
  "validate_none_stale base d rules = Inr u \<Longrightarrow> r \<in> set rules \<Longrightarrow> has_same_logical_scope r d
    \<Longrightarrow> \<not> base < sr_updated_revision r"
  by (induction rules)
    (auto simp: validate_not_stale_rule_def split: if_splits)

lemma validate_not_stale_upsert_Ok:
  assumes "validate_not_stale_upsert st owner base d = Inr u" and "stored st owner rid = Some r"
    and "rid = sr_rule_id d \<or> has_same_logical_scope r d"
  shows "\<not> base < sr_updated_revision r"
proof -
  from assms(2) obtain rules where rules: "bm_get (er_by_owner st) owner = Some rules" "bm_get rules rid = Some r"
    by (auto simp: stored_def owner_rules_def split: option.splits)
  then have "r \<in> set (bm_values rules)" by (auto simp: bm_values_iff)
  with assms rules show ?thesis
    by (auto simp: validate_not_stale_upsert_def validate_not_stale_rule_def
        dest: validate_none_stale_Ok split: if_splits)
qed

lemma upsert_keeps_stale:
  assumes valid: "validate_item host st owner grants base item = Inr u" and op: "fi_op item = Upsert"
    and r: "stored st owner rid = Some r" "base < sr_updated_revision r" "rule_wf owner rid r"
    and now: "stored st1 owner rid = Some r"
    and step: "apply_upsert host st1 owner grants item rv = Some (st2, out)"
  shows "stored st2 owner rid = Some r"
  using step
proof (cases rule: upsert_Ok)
  case failed
  with now show ?thesis by (simp add: stored_def)
next
  case (upserted draft n s s')
  from valid op upserted(2) obtain d d' where
    d: "from_draft host owner draft (fi_rule_id item) (er_revision st) 1 (er_next_rule_id st) = Inr d"
    and d': "(if er_coverage st = Fanotify then prepare_mark_directories host d else Ok d) = Inr d'"
    and fresh: "validate_not_stale_upsert st owner base d' = Inr ()"
    by (auto simp: validate_item_def)
  have same: "same_rule d d'"
    using d' by (auto dest!: prepare_mark_directories_Ok intro: same_rule_mark split: if_splits)
  have differ: "rid \<noteq> sr_rule_id d'" "\<not> has_same_logical_scope r d'"
    using validate_not_stale_upsert_Ok [OF fresh r(1)] r(2) by auto
  have scopes: "sr_scope d = sr_scope s" "sr_operation d = sr_operation s"
    "sr_owner_instance_id d = sr_owner_instance_id s"
    "sr_rule_id s = draft_rule_id draft (fi_rule_id item) n"
    "sr_rule_id d = draft_rule_id draft (fi_rule_id item) (er_next_rule_id st)"
    by (rule from_draft_Ok [OF d], rule from_draft_Ok [OF upserted(4)], simp)+
  then have "\<not> has_same_logical_scope r s'"
    using differ(2) same upserted(6) by (simp add: has_same_logical_scope_def same_rule_sel)
  moreover have "rid \<noteq> sr_rule_id s'"
  proof (cases "fi_rule_id item = None \<and> fd_rule_id draft = None")
    case True
    then have "sr_rule_id s' = host_rule_id n"
      using scopes upserted(6) by (simp add: draft_rule_id_def same_rule_sel)
    moreover from upserted(3) have "bm_get (owner_rules st1 owner) (host_rule_id n) = None"
      unfolding next_available_host_rule_number_def by (rule available_number_fresh)
    ultimately show ?thesis using now by (auto simp: stored_def)
  next
    case False
    then have "sr_rule_id s = sr_rule_id d" using scopes by (auto simp: draft_rule_id_def split: option.splits)
    with differ(1) same upserted(6) show ?thesis by (simp add: same_rule_sel)
  qed
  ultimately show ?thesis using now by (simp add: upserted(8) stored_def supersede_get)
qed

lemma item_keeps_stale:
  assumes valid: "validate_item host st owner grants base item = Inr u"
    and r: "stored st owner rid = Some r" "base < sr_updated_revision r" "rule_wf owner rid r"
    and now: "stored st1 owner rid = Some r"
    and step: "apply_item host st1 owner grants item rv = Some (st2, out)"
  shows "stored st2 owner rid = Some r"
proof (cases "fi_op item = Upsert")
  case True
  from valid True r now show ?thesis
    by (rule upsert_keeps_stale) (use step True in \<open>simp add: apply_item_def\<close>)
next
  case False
  with valid obtain i e where i: "fi_rule_id item = Some i" and e: "stored st owner i = Some e"
    "\<not> base < sr_updated_revision e"
    by (auto simp: validate_item_def stored_def validate_not_stale_rule_def split: option.splits if_splits)
  from e r(1,2) have "i \<noteq> rid" by auto
  from step False consider "st2 = fst (apply_delete st1 owner item)"
    | "st2 = fst (apply_enable host st1 owner item rv)"
    by (cases "fi_op item") (auto simp: apply_item_def)
  then show ?thesis
    using i now \<open>i \<noteq> rid\<close>
    by cases (auto simp: apply_delete_def apply_enable_def stored_def owner_rules_def case_prod_beta Let_def
        split: option.splits sum.splits)
qed

lemma invalid_indices:
  "validate_item host st owner grants base item = Inl e
    \<Longrightarrow> of_nat index \<in> fx_item_index ` set (validate_items_from host st owner grants base index (item # items))"
  by simp

lemma validate_items_suffix:
  "set (validate_items_from host st owner grants base (index + 1) items)
    \<subseteq> set (validate_items_from host st owner grants base index (item # items))"
  by (auto split: sum.split)

lemma items_keep_stale:
  assumes r: "stored st owner rid = Some r" "base < sr_updated_revision r" "rule_wf owner rid r"
  shows "apply_items_from host owner grants invalid index items applied st1 = Some (st2, out)
    \<Longrightarrow> fx_item_index ` set (validate_items_from host st owner grants base index items) \<subseteq> set invalid
    \<Longrightarrow> stored st1 owner rid = Some r \<Longrightarrow> stored st2 owner rid = Some r"
proof (induction items arbitrary: index applied st1)
  case (Cons item items)
  have rest: "fx_item_index ` set (validate_items_from host st owner grants base (index + 1) items) \<subseteq> set invalid"
    using validate_items_suffix Cons.prems(2) by (meson image_mono order_trans)
  show ?case
  proof (cases "of_nat index \<in> set invalid")
    case True
    with Cons rest show ?thesis by simp
  next
    case False
    then have "\<exists>u. validate_item host st owner grants base item = Inr u"
      using Cons.prems(2) invalid_indices by (metis old.sum.exhaust subsetD)
    with False Cons.prems obtain st' res u where
      item: "apply_item host st1 owner grants item (saturating_add_u64 (er_revision st1) 1) = Some (st', res)"
      and valid: "validate_item host st owner grants base item = Inr u"
      by (auto split: option.splits)
    have "stored st' owner rid = Some r" by (rule item_keeps_stale [OF valid r Cons.prems(3) item])
    then show ?thesis
      using False Cons.prems(1) item rest Cons.IH by (cases res) auto
  qed
qed simp


end
