(* ===== verification/File_Policy_System.thy ===== *)
theory File_Policy_System
  imports File_Store
begin

text \<open>
  The rule store as a system: the states the daemon publishes. A store starts from the
  static rules file, builtin allow rules are added, plugins apply patches and leave. The
  callers apply to a copy and publish it when the operation returns \<open>Ok\<close>, so only those
  outcomes are steps. The file system may differ from step to step.
\<close>

section \<open>Outcome of a request\<close>

definition requested_revision :: "EnforcementRules \<Rightarrow> u64" where
  "requested_revision st = saturating_add_u64 (er_revision st) 1"

lemma saturating_add_u32_pos: "0 < saturating_add_u32 a 1"
proof -
  have "saturating_add_u32 a 1 \<noteq> 0"
    by (cases "a = 0") (auto simp: saturating_add_u32_def word_le_0_iff)
  then show ?thesis by (simp add: word_gt_0)
qed

lemma items_applied_pos:
  "apply_items_from host owner grants invalid index items applied st = Some (st', Inr n)
    \<Longrightarrow> 0 < applied \<Longrightarrow> 0 < n"
proof (induction items arbitrary: index applied st)
  case (Cons item items)
  from Cons.prems(1) show ?case
    by (auto split: if_splits option.splits sum.splits
        intro: Cons.IH Cons.prems(2) saturating_add_u32_pos)
qed simp

lemma items_none_applied:
  "apply_items_from host owner grants invalid index items applied st = Some (st', Inr 0) \<Longrightarrow> st' = st"
proof (induction items arbitrary: index applied st)
  case (Cons item items)
  have no: "apply_items_from host owner grants invalid i items (saturating_add_u32 applied 1) s
      \<noteq> Some (st', Inr 0)" for i s
    using items_applied_pos saturating_add_u32_pos by fastforce
  from Cons show ?case by (auto split: if_splits option.splits sum.splits simp: no)
qed simp

lemma request_Ok:
  assumes "apply_request host st owner grants request = Some (st', Inr res)"
  obtains (unchanged) "st' = st"
  | (bumped) mid where "patch_effect host grants (requested_revision st) owner st mid"
      and "st' = bump_revision mid"
      and "\<And>rid r. stored st owner rid = Some r \<Longrightarrow> rule_wf owner rid r
        \<Longrightarrow> fp_base_revision (fq_precondition request) < sr_updated_revision r
        \<Longrightarrow> stored st' owner rid = Some r"
proof (cases "reject_invalid_precondition st (fq_precondition request)")
  case (Some r)
  with assms show ?thesis by (intro unchanged) (simp add: apply_request_def)
next
  case None
  let ?base = "fp_base_revision (fq_precondition request)"
  let ?errors = "validate_apply_items host st owner grants ?base (fq_items request)"
  from assms None obtain mid n where
    items: "apply_items_from host owner grants (map fx_item_index ?errors) 0 (fq_items request) 0 st
      = Some (mid, Inr n)"
    and st': "st' = (if 0 < n then bump_revision mid else mid)"
    by (auto simp: apply_request_def Let_def split: option.splits sum.splits)
  show ?thesis
  proof (cases "0 < n")
    case True
    have "stored st' owner rid = Some r"
      if "stored st owner rid = Some r" "rule_wf owner rid r" "?base < sr_updated_revision r" for rid r
      using items_keep_stale [OF that(1,3,2) items] that(1) True st' by (simp add: validate_apply_items_def)
    with apply_items_effect [OF items] True st' show ?thesis
      by (intro bumped [of mid]) (simp_all add: requested_revision_def)
  next
    case False
    then have "n = 0" by (simp add: word_gt_0)
    with items have "mid = st" by (simp add: items_none_applied)
    with False st' show ?thesis by (intro unchanged) simp
  qed
qed

section \<open>The invariant\<close>

definition rules_inv :: "EnforcementRules \<Rightarrow> bool" where
  "rules_inv st \<longleftrightarrow>
     (\<forall>owner rid r. stored st owner rid = Some r
        \<longrightarrow> rule_wf owner rid r \<and> sr_updated_revision r \<le> er_revision st)"

definition store_inv :: "EnforcementRules \<Rightarrow> bool" where
  "store_inv st \<longleftrightarrow> rules_inv st \<and> er_effective_rules st = effective_order (all_rules st)"

lemma rebuild_simps [simp]:
  "er_effective_rules (rebuild_effective st) = effective_order (all_rules st)"
  "er_revision (rebuild_effective st) = er_revision st"
  "er_effective_rules (bump_revision st) = effective_order (all_rules st)"
  "er_revision (bump_revision st) = saturating_add_u64 (er_revision st) 1"
  by (simp_all add: rebuild_effective_def bump_revision_def Let_def)

lemma rebuild_inv: "rules_inv st \<Longrightarrow> store_inv (rebuild_effective st)"
  by (simp add: store_inv_def rules_inv_def)

lemma saturating_mono: "a \<le> saturating_add_u64 a 1"
proof (cases "unat a + unat (1 :: u64) < 2 ^ 64")
  case True
  then show ?thesis by (simp add: saturating_add_u64_def word_le_nat_alt unat_word_ariths)
next
  case False
  then show ?thesis by (simp add: saturating_add_u64_def word_order.extremum)
qed

lemma bump_inv:
  assumes "\<And>owner rid r. stored st owner rid = Some r
      \<Longrightarrow> rule_wf owner rid r \<and> sr_updated_revision r \<le> saturating_add_u64 (er_revision st) 1"
  shows "store_inv (bump_revision st)"
  using assms by (simp add: store_inv_def rules_inv_def)

lemma request_inv:
  assumes inv: "store_inv st" and req: "apply_request host st owner grants request = Some (st', Inr res)"
  shows "store_inv st'"
  using req
proof (cases rule: request_Ok)
  case (bumped mid)
  have rev: "er_revision mid = er_revision st" using bumped(1) by (simp add: patch_effect_def)
  show ?thesis unfolding bumped(2)
  proof (rule bump_inv)
    fix o' rid r
    assume r: "stored mid o' rid = Some r"
    show "rule_wf o' rid r \<and> sr_updated_revision r \<le> saturating_add_u64 (er_revision mid) 1"
    proof (cases "o' = owner")
      case True
      with r bumped(1) have "patched host grants (requested_revision st) owner rid (stored st owner rid) r"
        by (simp add: patch_effect_def)
      then consider "stored st owner rid = Some r"
        | r0 where "stored st owner rid = Some r0" "same_rule r0 r" "sr_updated_revision r = requested_revision st"
        | "rule_wf owner rid r" "sr_updated_revision r = requested_revision st"
        unfolding patched_def by blast
      then show ?thesis
      proof cases
        case 1
        with inv True show ?thesis
          unfolding rev store_inv_def rules_inv_def by (blast intro: order_trans saturating_mono)
      next
        case (2 r0)
        with inv True show ?thesis
          by (simp add: rev store_inv_def rules_inv_def same_rule_wf requested_revision_def)
      next
        case 3
        with True show ?thesis by (simp add: rev requested_revision_def)
      qed
    next
      case False
      with r bumped(1) have "stored st o' rid = Some r" by (simp add: patch_effect_def stored_def)
      with inv show ?thesis
        unfolding rev store_inv_def rules_inv_def by (blast intro: order_trans saturating_mono)
    qed
  qed
qed (use inv in simp)

lemma remove_owner_stored:
  "stored (fst (remove_owner st owner)) o' rid = (if o' = owner then None else stored st o' rid)"
  by (auto simp: remove_owner_def stored_def owner_rules_def Let_def bump_revision_def
      rebuild_effective_def split: option.split)

lemma remove_owner_inv: "store_inv st \<Longrightarrow> store_inv (fst (remove_owner st owner))"
proof (cases "bm_get (er_by_owner st) owner")
  case (Some rules)
  assume inv: "store_inv st"
  let ?st = "st\<lparr>er_by_owner := bm_remove owner (er_by_owner st)\<rparr>"
  have "stored ?st o' rid = Some r \<Longrightarrow> stored st o' rid = Some r" for o' rid r
    by (auto simp: stored_def owner_rules_def split: if_splits)
  with inv have "rule_wf o' rid r \<and> sr_updated_revision r \<le> er_revision st"
    if "stored ?st o' rid = Some r" for o' rid r
    using that unfolding store_inv_def rules_inv_def by blast
  then have "rule_wf o' rid r \<and> sr_updated_revision r \<le> saturating_add_u64 (er_revision ?st) 1"
    if "stored ?st o' rid = Some r" for o' rid r
    using that order_trans [OF _ saturating_mono] by simp
  then have "store_inv (bump_revision ?st)" by (rule bump_inv)
  with Some show ?thesis by (simp add: remove_owner_def Let_def)
qed (simp add: remove_owner_def)

lemma put_rule_stored [simp]:
  "stored (put_rule st owner r) o' rid =
     (if o' = owner \<and> rid = sr_rule_id r then Some r else stored st o' rid)"
  by (auto simp: stored_def put_rule_def owner_rules_def)

lemma put_rule_simps [simp]:
  "er_revision (put_rule st owner r) = er_revision st"
  "er_coverage (put_rule st owner r) = er_coverage st"
  by (simp_all add: put_rule_def)

lemma stored_next_sequence [simp]: "stored (fst (next_sequence st)) o' rid = stored st o' rid"
  by (simp add: stored_def)

lemma put_rule_inv:
  assumes "rules_inv st" and "rule_wf owner (sr_rule_id r) r" and "sr_updated_revision r = er_revision st"
  shows "rules_inv (put_rule (fst (next_sequence st)) owner r)"
  using assms by (simp add: rules_inv_def)

lemma operation_from_wire_Ok: "operation_from_wire s = Inr op \<Longrightarrow> operation_as_str op = s"
  by (auto simp: operation_from_wire_def split: if_splits)

lemma bound_names:
  "scope_bind host s = Inr s' \<Longrightarrow>
    \<exists>names. (\<forall>n \<in> set names. valid_name n) \<and> display_base s' = abs_path names"
  using scope_bind_abs unfolding names_ok_def by blast

lemma insert_static_rule_inv:
  assumes inv: "rules_inv st" and ins: "insert_static_rule host st rule = Inr st'"
    and owner: "en_owner_instance_id rule = static_policy_owner"
  shows "rules_inv st'"
proof -
  let ?st = "fst (next_sequence st)"
  from ins obtain scope sc ex op r' where bound: "scope_bind host scope = Inr ex"
    and op: "operation_from_wire (en_operation rule) = Inr op"
    and r': "(if er_coverage st = Fanotify
        then prepare_mark_directories host
          (static_stored_rule rule op sc ex (er_revision ?st) (snd (next_sequence st)))
        else Ok (static_stored_rule rule op sc ex (er_revision ?st) (snd (next_sequence st)))) = Inr r'"
    and st': "st' = put_rule ?st static_policy_owner r'"
    unfolding insert_static_rule_def Let_def case_prod_beta by auto
  let ?r = "static_stored_rule rule op sc ex (er_revision ?st) (snd (next_sequence st))"
  have wf: "rule_wf static_policy_owner (sr_rule_id ?r) ?r"
    using owner op bound_names [OF bound]
    by (simp add: rule_wf_def operation_from_wire_Ok static_stored_rule_def static_decision_agrees)
  have same: "same_rule ?r r'"
    using r' by (auto dest!: prepare_mark_directories_Ok intro: same_rule_mark split: if_splits)
  have "sr_updated_revision r' = sr_updated_revision ?r"
    using r' by (auto dest!: prepare_mark_directories_Ok split: if_splits)
  then have rev: "sr_updated_revision r' = er_revision st" by (simp add: static_stored_rule_def)
  show ?thesis unfolding st'
    by (rule put_rule_inv [OF inv]) (use wf same rev in \<open>simp_all add: same_rule_wf same_rule_sel\<close>)
qed

lemma parse_rule_owner: "parse_rule raw = Inr rule \<Longrightarrow> en_owner_instance_id rule = static_policy_owner"
  by (auto simp: parse_rule_def parse_local_rule_def parse_sync_plugin_rule_def Let_def
      split: list.splits if_splits)

lemma parse_lines_inv:
  "parse_lines host n ls ids st = Inr st' \<Longrightarrow> rules_inv st \<Longrightarrow> rules_inv st'"
proof (induction ls arbitrary: n ids st)
  case (Cons l ls)
  from Cons.prems(1) consider "parse_lines host (n + 1) ls ids st = Inr st'"
    | rule st1 ids' where "parse_rule (trim l) = Inr rule" "insert_static_rule host st rule = Inr st1"
        "parse_lines host (n + 1) ls ids' st1 = Inr st'"
    by (auto simp: Let_def split: if_splits)
  then show ?case
  proof cases
    case 1
    with Cons show ?thesis by blast
  next
    case (2 rule st1 ids')
    with Cons show ?thesis by (blast intro: insert_static_rule_inv parse_rule_owner)
  qed
qed simp

lemma values_empty [simp]: "bm_values (bm_empty :: ('k::linorder, 'v) btree_map) = []"
  by (simp add: bm_values_def bm_empty.rep_eq)

lemma empty_inv: "rules_inv (empty_with_coverage coverage)" "store_inv (empty_with_coverage coverage)"
  by (simp_all add: store_inv_def rules_inv_def empty_with_coverage_def stored_def owner_rules_def
      all_rules_def effective_order_def)

lemma parse_rules_inv: "parse_rules host raw coverage = Inr st \<Longrightarrow> store_inv st"
  by (auto simp: parse_rules_def intro: rebuild_inv parse_lines_inv empty_inv)

lemma load_inv:
  assumes "load_with_coverage host content path coverage = Inr st"
  shows "store_inv st"
  using assms
  by (cases content) (auto simp: load_with_coverage_def intro: parse_rules_inv empty_inv split: if_splits)

lemma builtin_rule_inv:
  assumes "insert_builtin_allow_rule host st rid path = (st', Inr u)" and "rules_inv st"
  shows "rules_inv st'"
proof -
  from assms(1) obtain scope ex where bound: "scope_bind host scope = Inr ex"
    and st': "st' = put_rule (fst (next_sequence st)) builtin_policy_owner
        (builtin_stored_rule rid scope ex (er_revision st) (er_next_sequence st))"
    by (auto simp: insert_builtin_allow_rule_def case_prod_beta Let_def split: if_splits sum.splits)
  show ?thesis unfolding st'
    by (rule put_rule_inv [OF assms(2)])
      (use bound_names [OF bound] in \<open>simp_all add: builtin_stored_rule_def rule_wf_def decision_agrees_def\<close>)
qed

lemma install_builtin_inv:
  "install_builtin_allow_rules host st rules = (st', Inr u) \<Longrightarrow> rules_inv st \<Longrightarrow> store_inv st'"
proof (induction rules arbitrary: st)
  case (Cons rule rules)
  obtain rid path where rule: "rule = (rid, path)" by (cases rule)
  from Cons.prems(1) obtain st1 v where "insert_builtin_allow_rule host st rid path = (st1, Inr v)"
    and "install_builtin_allow_rules host st1 rules = (st', Inr u)"
    by (auto simp: rule split: prod.splits sum.splits)
  with Cons show ?case by (blast intro: builtin_rule_inv)
qed (auto intro: rebuild_inv)

section \<open>The system\<close>

definition file_start :: "EnforcementRules \<Rightarrow> bool" where
  "file_start st \<longleftrightarrow> (\<exists>host content path coverage. load_with_coverage host content path coverage = Ok st)"

inductive file_step :: "EnforcementRules \<Rightarrow> EnforcementRules \<Rightarrow> bool" where
  applied: "apply_request host st owner grants request = Some (st', Ok res) \<Longrightarrow> file_step st st'"
| left: "file_step st (fst (remove_owner st owner))"
| builtin: "install_builtin_allow_rules host st rules = (st', Ok ()) \<Longrightarrow> file_step st st'"

interpretation file_rules: guarded_system file_start file_step store_inv
proof
  show "store_inv st" if "file_start st" for st
    using that unfolding file_start_def by (blast intro: load_inv)
  show "store_inv t" if "store_inv s" and "file_step s t" for s t
    using that(2,1)
  proof cases
    case builtin
    with that(1) show ?thesis
      by (intro install_builtin_inv) (auto simp: store_inv_def rules_inv_def)
  qed (auto intro: request_inv remove_owner_inv)
qed

abbreviation file_reachable :: "EnforcementRules \<Rightarrow> bool" where
  "file_reachable \<equiv> reachable file_start file_step"

end
