(* ===== verification/Policy_Lookup.thy ===== *)
theory Policy_Lookup
  imports Prelude
begin

text \<open>
  What the access policies promise of a lookup, as an interface. A store holds rules, a
  query is matched by some of them, and a lookup answers with the one that beats every
  other matching rule. The file, command and network policies are instances.
\<close>

locale decision_table =
  fixes inv :: "'st \<Rightarrow> bool"
    and rules :: "'st \<Rightarrow> 'r set"
    and matches :: "'r \<Rightarrow> 'q \<Rightarrow> bool"
    and beats :: "'r \<Rightarrow> 'r \<Rightarrow> bool"
    and lookup :: "'st \<Rightarrow> 'q \<Rightarrow> 'r option"
  assumes lookup_best: "inv st \<Longrightarrow> lookup st q = Some r
      \<Longrightarrow> r \<in> rules st \<and> matches r q \<and> (\<forall>r' \<in> rules st. matches r' q \<longrightarrow> r' = r \<or> beats r r')"
    and lookup_none: "inv st \<Longrightarrow> lookup st q = None \<Longrightarrow> r \<in> rules st \<Longrightarrow> \<not> matches r q"
    and beats_asym: "beats r r' \<Longrightarrow> \<not> beats r' r"
begin

lemma lookup_iff:
  assumes "inv st"
  shows "lookup st q = Some r \<longleftrightarrow>
    r \<in> rules st \<and> matches r q \<and> (\<forall>r' \<in> rules st. matches r' q \<longrightarrow> r' = r \<or> beats r r')"
    (is "?L \<longleftrightarrow> ?R")
proof
  assume ?R
  show ?L
  proof (cases "lookup st q")
    case None
    with \<open>?R\<close> lookup_none [OF assms None] show ?thesis by blast
  next
    case (Some s)
    with lookup_best [OF assms Some] \<open>?R\<close> have "s = r \<or> beats s r \<and> beats r s" by blast
    with Some beats_asym show ?thesis by blast
  qed
qed (rule lookup_best [OF assms])

lemma lookup_None_iff:
  "inv st \<Longrightarrow> lookup st q = None \<longleftrightarrow> (\<forall>r \<in> rules st. \<not> matches r q)"
  using lookup_none lookup_best by (metis not_None_eq)

text \<open>The answer depends on the matching rules only.\<close>

lemma lookup_local:
  assumes "inv s" and "inv t" and "\<And>r. matches r q \<Longrightarrow> r \<in> rules s \<longleftrightarrow> r \<in> rules t"
  shows "lookup s q = lookup t q"
proof (cases "lookup s q")
  case None
  with assms have "lookup t q = None" by (metis lookup_None_iff)
  with None show ?thesis by simp
next
  case (Some r)
  with assms(1) have "r \<in> rules s \<and> matches r q \<and> (\<forall>r' \<in> rules s. matches r' q \<longrightarrow> r' = r \<or> beats r r')"
    by (rule lookup_best)
  then have "lookup t q = Some r" unfolding lookup_iff [OF assms(2)] using assms(3) by blast
  with Some show ?thesis by simp
qed

end

section \<open>The first match in a sorted list\<close>

lemma find_first:
  assumes "find P xs = Some x"
  obtains us vs where "xs = us @ x # vs" and "P x" and "\<forall>u \<in> set us. \<not> P u"
proof -
  from assms obtain i where "i < length xs" "P (xs ! i)" "x = xs ! i" "\<forall>j < i. \<not> P (xs ! j)"
    by (auto simp: find_Some_iff)
  then show ?thesis
    by (intro that [of "take i xs" "drop (Suc i) xs"])
      (auto simp: id_take_nth_drop [symmetric] in_set_conv_nth)
qed

text \<open>
  A stable sort by \<open>f\<close> of a list that is strictly ascending in \<open>g\<close> puts first, among the
  elements with a property, the least in \<open>f\<close> and then in \<open>g\<close>.
\<close>

lemma find_sort_key_best:
  fixes f :: "'a \<Rightarrow> 'b::linorder" and g :: "'a \<Rightarrow> 'c::linorder"
  assumes g: "sorted (map g xs)" "distinct (map g xs)"
    and found: "find P (sort_key f xs) = Some x" and y: "y \<in> set xs" "P y" "y \<noteq> x"
  shows "f x < f y \<or> f x = f y \<and> g x < g y"
proof -
  from found obtain us vs where split: "sort_key f xs = us @ x # vs" and "\<forall>u \<in> set us. \<not> P u"
    by (rule find_first)
  have "set (us @ x # vs) = set xs" unfolding split [symmetric] by simp
  with y \<open>\<forall>u \<in> set us. \<not> P u\<close> have "y \<in> set vs" and "x \<in> set xs" by auto
  have "sorted (map f (us @ x # vs))" unfolding split [symmetric] by simp
  then have le: "f x \<le> f y" using \<open>y \<in> set vs\<close> by (auto simp: sorted_append)
  show ?thesis
  proof (cases "f x = f y")
    case True
    have "filter (\<lambda>z. f z = f x) xs = filter (\<lambda>z. f z = f x) us @ x # filter (\<lambda>z. f z = f x) vs"
      using sort_key_stable [of f "f x" xs] by (simp add: split)
    moreover have "sorted (map g (filter (\<lambda>z. f z = f x) xs))" using g(1) by (rule sorted_filter)
    ultimately have "g x \<le> g y" using \<open>y \<in> set vs\<close> True by (auto simp: sorted_append)
    moreover have "g x \<noteq> g y"
      using g(2) \<open>x \<in> set xs\<close> y by (auto simp: distinct_map dest: inj_onD)
    ultimately show ?thesis using True by simp
  qed (use le in simp)
qed

lemma find_sort_key_mem:
  assumes "find P (sort_key f xs) = Some x"
  shows "x \<in> set xs \<and> P x"
proof -
  from assms have "x \<in> set (sort_key f xs) \<and> P x"
    by (cases rule: find_first) (simp del: set_sort)
  then show ?thesis by simp
qed

lemma find_sort_key_None: "find P (sort_key f xs) = None \<longleftrightarrow> (\<forall>x \<in> set xs. \<not> P x)"
  by (auto simp: find_None_iff)

section \<open>Rules by owner and identifier\<close>

definition nested_values :: "('o::linorder, ('i::linorder, 'r) btree_map) btree_map \<Rightarrow> 'r list" where
  "nested_values m = concat (map bm_values (bm_values m))"

lemma nested_values_iff:
  "r \<in> set (nested_values m) \<longleftrightarrow> (\<exists>o' rs i. bm_get m o' = Some rs \<and> bm_get rs i = Some r)"
proof -
  have "r \<in> set (nested_values m) \<longleftrightarrow> (\<exists>rs. rs \<in> set (bm_values m) \<and> r \<in> set (bm_values rs))"
    by (auto simp: nested_values_def)
  then show ?thesis unfolding bm_values_iff by blast
qed

lemma nested_entries_sorted:
  assumes "ascending es"
  shows "sorted_wrt (<) (concat (map (\<lambda>(o', rs). map (\<lambda>(i, _). (o', i)) (bm_entries rs)) es))"
  using assms
proof (induction es)
  case (Cons e es)
  obtain o' rs where e: "e = (o', rs)" by (cases e)
  have "sorted_wrt (<) (map (\<lambda>(i, _). (o', i)) (bm_entries rs))"
    using bm_entries_ascending [of rs]
    by (auto simp: ascending_def sorted_wrt_map case_prod_beta elim!: sorted_wrt_mono_rel [rotated])
  moreover have "o' < o''" if "(o'', rs') \<in> set es" for o'' rs'
    using Cons.prems that by (force simp: ascending_def e)
  ultimately show ?case
    using Cons by (auto simp: e ascending_def sorted_wrt_append)
qed simp

lemma nested_values_sorted:
  assumes "\<And>o' rs i r. bm_get m o' = Some rs \<Longrightarrow> bm_get rs i = Some r \<Longrightarrow> name r = (o', i)"
  shows "sorted (map name (nested_values m))" and "distinct (map name (nested_values m))"
proof -
  have "map (\<lambda>e. name (snd e)) (bm_entries rs) = map (\<lambda>(i, _). (o', i)) (bm_entries rs)"
    if "(o', rs) \<in> set (bm_entries m)" for o' rs
    using that assms [of o' rs] by (intro map_cong) (auto simp: bm_entries_iff)
  then have "map name (nested_values m)
      = concat (map (\<lambda>(o', rs). map (\<lambda>(i, _). (o', i)) (bm_entries rs)) (bm_entries m))"
    unfolding nested_values_def bm_values_def map_concat map_map
    by (intro arg_cong [of _ _ concat] map_cong refl)
      (auto simp: comp_def)
  then have "sorted_wrt (<) (map name (nested_values m))"
    using nested_entries_sorted bm_entries_ascending by metis
  then show "sorted (map name (nested_values m))" and "distinct (map name (nested_values m))"
    by (simp_all add: strict_sorted_iff)
qed

section \<open>Rules with revisions\<close>

text \<open>
  A store stamps a rule with the revision at which it was last written, and only a rule
  written after a state can replace one of that state. Then a name and a revision identify
  a rule for good.
\<close>

locale revisioned_store = guarded_system start step inv
  for start :: "'s \<Rightarrow> bool" and step :: "'s \<Rightarrow> 's \<Rightarrow> bool" and inv :: "'s \<Rightarrow> bool" +
  fixes find_rule :: "'s \<Rightarrow> 'n \<Rightarrow> 'r option"
    and revision :: "'s \<Rightarrow> u64"
    and rule_revision :: "'r \<Rightarrow> u64"
  assumes step_revision: "inv s \<Longrightarrow> step s t \<Longrightarrow> revision s \<le> revision t"
    and rule_revision_le: "inv s \<Longrightarrow> find_rule s n = Some r \<Longrightarrow> rule_revision r \<le> revision s"
    and step_rule: "inv s \<Longrightarrow> step s t \<Longrightarrow> find_rule t n = Some r
      \<Longrightarrow> find_rule s n = Some r \<or> revision s < rule_revision r"

sublocale revisioned_store \<subseteq> forward_system start step inv
  "\<lambda>s t. revision s \<le> revision t
     \<and> (\<forall>n r. find_rule t n = Some r \<longrightarrow> find_rule s n = Some r \<or> revision s < rule_revision r)"
proof
  show "revision s \<le> revision t
      \<and> (\<forall>n r. find_rule t n = Some r \<longrightarrow> find_rule s n = Some r \<or> revision s < rule_revision r)"
    if "inv s" "step s t" for s t
    using that step_revision step_rule by blast
  show "revision s \<le> revision u
      \<and> (\<forall>n r. find_rule u n = Some r \<longrightarrow> find_rule s n = Some r \<or> revision s < rule_revision r)"
    if "revision s \<le> revision t
        \<and> (\<forall>n r. find_rule t n = Some r \<longrightarrow> find_rule s n = Some r \<or> revision s < rule_revision r)"
      "revision t \<le> revision u
        \<and> (\<forall>n r. find_rule u n = Some r \<longrightarrow> find_rule t n = Some r \<or> revision t < rule_revision r)"
    for s t u
    using that by (meson le_less_trans order_trans)
qed simp_all

context revisioned_store
begin

lemma revision_identifies:
  assumes "inv s" and "step\<^sup>*\<^sup>* s t" and "find_rule s n = Some r" and "find_rule t n = Some r'"
    and "rule_revision r' = rule_revision r"
  shows "r' = r"
proof -
  from steps_fwd [OF assms(2,1)] assms(4) have "find_rule s n = Some r' \<or> revision s < rule_revision r'"
    by blast
  moreover from assms(5) rule_revision_le [OF assms(1,3)] have "\<not> revision s < rule_revision r'" by simp
  ultimately show ?thesis using assms(3) by simp
qed

end

end
