(* ===== verification/Path_Properties.thy ===== *)
theory Path_Properties
  imports File_Scope
begin

text \<open>
  Properties of policy paths: what binding returns, that it is a fixed point, its relation
  to the lexical normal form, and containment of scopes.
\<close>

section \<open>Binding without links\<close>

lemma push_components_all:
  assumes "length (filter (\<lambda>c. c \<noteq> CurDir) cs) \<le> n"
  shows "push_components n (rev cs) pending
    = Ok (n - length (filter (\<lambda>c. c \<noteq> CurDir) cs),
          map step_of_component (filter (\<lambda>c. c \<noteq> CurDir) cs) @ pending)"
  using assms
proof (induction cs arbitrary: pending)
  case (Cons c cs)
  then show ?case
    by (cases "n - length (filter (\<lambda>c. c \<noteq> CurDir) cs)") (auto simp: push_components_append)
qed simp

lemma bind_loop_plain:
  assumes "\<And>p. plain host p" and "\<forall>m. Normal m \<in> set cs \<longrightarrow> valid_name m" and "RootDir \<notin> set cs"
    and "\<forall>m \<in> set pre. valid_name m"
  shows "bind_loop host n (map step_of_component (filter (\<lambda>c. c \<noteq> CurDir) cs)) links (abs_path pre)
    = Ok (normalize_components (abs_path pre) cs)"
  using assms(2-4)
proof (induction cs arbitrary: pre)
  case (Cons c cs)
  show ?case
  proof (cases c)
    case (Normal m)
    with Cons.prems have m: "valid_name m" by simp
    have "plain host (abs_path (pre @ [m]))" by (rule assms(1))
    then show ?thesis
      using Cons.IH [of "pre @ [m]"] Cons.prems m Normal
      by (auto simp: plain_def Let_def split: sum.splits)
  next
    case ParentDir
    have "\<forall>m \<in> set (butlast pre). valid_name m" using Cons.prems(3) by (auto dest: in_set_butlastD)
    then show ?thesis using Cons.IH [of "butlast pre"] Cons.prems ParentDir by simp
  qed (use Cons in auto)
qed simp

lemma components_root:
  assumes "path_is_absolute path"
  obtains cs where "path_components path = RootDir # cs" and "RootDir \<notin> set cs"
proof -
  have "RootDir \<notin> set (part_components x)" for x by (simp add: part_components_def)
  with assms show ?thesis by (intro that) (auto simp: path_components_def)
qed

lemma bind_plain:
  assumes "\<And>p. plain host p" and "path_is_absolute path"
    and "steps_from_environment (host_path_max_steps host) = Ok steps"
    and "length (path_components path) \<le> steps"
  shows "policy_path_bind host path = normalized_absolute_path path"
proof -
  from assms(2) obtain cs where cs: "path_components path = RootDir # cs" "RootDir \<notin> set cs"
    by (rule components_root)
  have "length (filter (\<lambda>c. c \<noteq> CurDir) (RootDir # cs)) \<le> steps"
    using assms(4) by (simp add: cs) (meson le_trans length_filter_le Suc_le_mono)
  then have "push_steps steps path [] =
      Ok (steps - length (filter (\<lambda>c. c \<noteq> CurDir) (RootDir # cs)),
          Root # map step_of_component (filter (\<lambda>c. c \<noteq> CurDir) cs))"
    unfolding push_steps_def cs(1) by (subst push_components_all) simp_all
  moreover have "\<forall>m. Normal m \<in> set cs \<longrightarrow> valid_name m"
    using components_valid [of _ path] by (auto simp: cs)
  ultimately show ?thesis
    using bind_loop_plain [OF assms(1), of cs "[]"] assms(2,3) cs
    by (simp add: policy_path_bind_def normalized_absolute_path_def abs_path_def)
qed

section \<open>A path below a path\<close>

lemma split_on_append_any: "split_on sep (s @ sep # t) = split_on sep s @ split_on sep t"
  by (induction s) (auto simp: Cons_eq_append_conv split: list.splits)

lemma components_below:
  assumes "q \<noteq> []"
  shows "path_components (q @ ''/x'') = path_components q @ [Normal ''x'']"
proof -
  have x: "part_components ''x'' = [Normal ''x'']" by (simp add: part_components_def)
  obtain c r where q: "q = c # r" using assms by (cases q) auto
  show ?thesis
  proof (cases "path_is_absolute q")
    case True
    then show ?thesis
      using split_on_append_any [of "CHR ''/''" r "''x''"] x
      by (simp add: q path_components_def path_is_absolute_def)
  next
    case False
    have "split_on CHR ''/'' (q @ ''/x'') = split_on CHR ''/'' q @ [''x'']"
      using split_on_append_any [of "CHR ''/''" q "''x''"] by simp
    with False x show ?thesis
      by (cases "split_on CHR ''/'' q") (simp_all add: q path_components_def path_is_absolute_def)
  qed
qed

lemma path_below: "\<exists>p. path_starts_with p q \<and> \<not> path_eq p q"
proof (cases "q = []")
  case True
  then show ?thesis
    by (intro exI [of _ "''/''"])
      (simp add: path_starts_with_def path_eq_def path_components_def path_is_absolute_def
        part_components_def starts_with_iff)
next
  case False
  then show ?thesis
    by (intro exI [of _ "q @ ''/x''"])
      (simp add: path_starts_with_def path_eq_def components_below starts_with_iff)
qed

lemma containment_iff:
  "contains_scope s t \<longleftrightarrow> (\<forall>p. scope_matches_path t p \<longrightarrow> scope_matches_path s p)"
proof
  assume incl: "\<forall>p. scope_matches_path t p \<longrightarrow> scope_matches_path s p"
  then have base: "scope_matches_path s (display_base t)"
    by (cases t) (simp_all add: path_eq_simps)
  show "contains_scope s t"
  proof (cases s)
    case (Recursive base)
    with base show ?thesis by (cases t) simp_all
  next
    case (Exact e)
    show ?thesis
    proof (cases t)
      case (Recursive q)
      obtain p where "path_starts_with p q" "\<not> path_eq p q" using path_below by blast
      with incl base Exact Recursive show ?thesis by (auto simp: path_eq_def)
    qed (use base Exact in simp)
  qed
qed (blast intro: contains_scope_matches)

section \<open>Properties\<close>

text \<open>
  (C14) A bound policy path is absolute, has no empty, \<open>.\<close> or \<open>..\<close> component, and no
  symbolic link at any of its prefixes. Binding it again returns the same path: the step
  budget that sufficed for the original suffices for the result.
\<close>

theorem bind_canonical:
  assumes "policy_path_bind host path = Ok p"
  shows "(\<exists>names. p = abs_path names \<and> (\<forall>n \<in> set names. valid_name n)
      \<and> (\<forall>k. 0 < k \<longrightarrow> k \<le> length names \<longrightarrow> plain host (abs_path (take k names))))
    \<and> policy_path_bind host p = Ok p"
proof -
  from policy_bind_result [OF assms] obtain names steps where p: "p = abs_path names"
    and ok: "names_ok host names" "steps_from_environment (host_path_max_steps host) = Inr steps"
      "length names < steps"
    by blast
  have "policy_path_bind host p = Ok p" unfolding p using ok by (rule bind_fixed)
  with p ok(1) show ?thesis unfolding names_ok_def link_free_def by blast
qed

text \<open>A host with the link \<open>/a\<close> to \<open>/b/../c\<close> and no other file.\<close>

definition linked_host :: Host where
  "linked_host =
     \<lparr>host_path_max_steps = EnvNotPresent,
      host_symlink_metadata = (\<lambda>p. if p = ''/a'' then Ok True
        else Err \<lparr>fe_kind = NotFound, fe_text = ''not found''\<rparr>),
      host_read_link = (\<lambda>p. if p = ''/a'' then Ok ''b/../c''
        else Err \<lparr>fe_kind = NotFound, fe_text = ''not found''\<rparr>),
      host_metadata_is_dir = (\<lambda>p. Ok True), host_read_dir = (\<lambda>p. Entries [])\<rparr>"

lemma linked_host_bind: "policy_path_bind linked_host ''/./a//x'' = Ok ''/c/x''"
  by code_simp

theorem bind_canonical_witness:
  "policy_path_bind linked_host ''/./a//x'' = Ok ''/c/x''
   \<and> policy_path_bind linked_host ''/c/x'' = Ok ''/c/x''"
  using bind_canonical [OF linked_host_bind] linked_host_bind by blast

text \<open>
  (C15) Where no component of the file system is a symbolic link and the budget covers the
  path, binding a path computes its lexical normal form: the path that the policy enforces is the
  path that it shows.
\<close>

theorem bind_is_lexical:
  assumes "\<And>p. plain host p" and "path_is_absolute path"
    and "steps_from_environment (host_path_max_steps host) = Ok steps"
    and "length (path_components path) \<le> steps"
  shows "policy_path_bind host path = normalized_absolute_path path"
  using assms by (rule bind_plain)

definition bare_host :: Host where
  "bare_host = linked_host\<lparr>host_symlink_metadata := (\<lambda>p. Ok False)\<rparr>"

theorem bind_is_lexical_witness:
  "policy_path_bind bare_host ''/a/./b/../c'' = normalized_absolute_path ''/a/./b/../c''"
proof (rule bind_is_lexical)
  show "plain bare_host p" for p by (simp add: plain_def bare_host_def)
  show "path_is_absolute ''/a/./b/../c''" by code_simp
  show "steps_from_environment (host_path_max_steps bare_host) = Ok 4096"
    by (simp add: steps_from_environment_def bare_host_def linked_host_def)
  show "length (path_components ''/a/./b/../c'') \<le> 4096" by code_simp
qed

text \<open>
  (C16) Containment of path scopes, on which every grant check rests, is exactly inclusion
  of the paths that the scopes match.
\<close>

theorem containment_is_inclusion:
  "contains_scope s t \<longleftrightarrow> (\<forall>p. scope_matches_path t p \<longrightarrow> scope_matches_path s p)"
  by (rule containment_iff)

theorem containment_is_inclusion_witness:
  "scope_matches_path (Recursive ''/a/b'') ''/a/b/c'' \<and> scope_matches_path (Recursive ''/a'') ''/a/b/c''"
proof -
  have "contains_scope (Recursive ''/a'') (Recursive ''/a/b'')" by code_simp
  moreover have "scope_matches_path (Recursive ''/a/b'') ''/a/b/c''" by code_simp
  ultimately show ?thesis unfolding containment_is_inclusion by blast
qed

end
