(* ===== verification/File_Policy_Properties.thy ===== *)
theory File_Policy_Properties
  imports File_Policy_System Policy_Lookup Path_Properties
begin

text \<open>
  Properties of the file policy: how a lookup decides, what a patch of a plugin can and
  cannot change, and what a dry run predicts.
\<close>

section \<open>The file policy as a decision table\<close>

definition file_rules :: "EnforcementRules \<Rightarrow> StoredPolicyRule set" where
  "file_rules st = {r. (\<exists>owner rid. stored st owner rid = Some r) \<and> sr_enabled r}"

fun file_matches :: "StoredPolicyRule \<Rightarrow> FilePolicyOperation \<times> PathBuf \<Rightarrow> bool" where
  "file_matches r (operation, path) = rule_matches_path r operation path"

text \<open>
  Precedence: the builtin tier first, then the higher priority, then the later change, then the
  order of owners and identifiers.
\<close>

definition file_beats :: "StoredPolicyRule \<Rightarrow> StoredPolicyRule \<Rightarrow> bool" where
  "file_beats r r' \<longleftrightarrow>
     tier_rank (sr_tier r') < tier_rank (sr_tier r)
     \<or> tier_rank (sr_tier r') = tier_rank (sr_tier r)
       \<and> (sint (sr_priority r') < sint (sr_priority r)
          \<or> sr_priority r' = sr_priority r
            \<and> (sr_updated_sequence r' < sr_updated_sequence r
               \<or> sr_updated_sequence r' = sr_updated_sequence r
                 \<and> (sr_owner_instance_id r, sr_rule_id r) < (sr_owner_instance_id r', sr_rule_id r')))"

lemma file_beats_key:
  "file_beats r r' \<longleftrightarrow>
     rule_key r < rule_key r'
     \<or> rule_key r = rule_key r'
       \<and> (sr_owner_instance_id r, sr_rule_id r) < (sr_owner_instance_id r', sr_rule_id r')"
  by (auto simp: file_beats_def rule_key_def word_less_def 
      intro: signed_word_eqI unsigned_word_eqI signed_word_eqI [OF sym] unsigned_word_eqI [OF sym])

definition file_lookup :: "EnforcementRules \<Rightarrow> FilePolicyOperation \<times> PathBuf \<Rightarrow> StoredPolicyRule option" where
  "file_lookup st q = find (\<lambda>r. file_matches r q) (er_effective_rules st)"

lemma find_path_lookup: "find_path st operation path = map_option sr_rule (file_lookup st (operation, path))"
  by (simp add: find_path_def file_lookup_def)

lemma effective_names:
  assumes "store_inv st"
  shows "sorted (map (\<lambda>r. (sr_owner_instance_id r, sr_rule_id r)) (filter sr_enabled (all_rules st)))"
    and "distinct (map (\<lambda>r. (sr_owner_instance_id r, sr_rule_id r)) (filter sr_enabled (all_rules st)))"
proof -
  let ?name = "\<lambda>r. (sr_owner_instance_id r, sr_rule_id r)"
  have name: "?name r = (o', i)" if "bm_get (er_by_owner st) o' = Some rs" "bm_get rs i = Some r" for o' rs i r
  proof -
    from that have "stored st o' i = Some r" by (simp add: stored_def owner_rules_def)
    with assms have "rule_wf o' i r" by (simp add: store_inv_def rules_inv_def)
    then show ?thesis by (simp add: rule_wf_def)
  qed
  have all: "all_rules st = nested_values (er_by_owner st)"
    by (simp add: all_rules_def nested_values_def)
  show "sorted (map ?name (filter sr_enabled (all_rules st)))"
    unfolding all using name by (intro sorted_filter nested_values_sorted(1)) blast
  show "distinct (map ?name (filter sr_enabled (all_rules st)))"
    unfolding all using name by (intro distinct_map_filter nested_values_sorted(2)) blast
qed

interpretation file_table: decision_table store_inv file_rules file_matches file_beats file_lookup
proof
  fix st q r
  assume inv: "store_inv st"
  then have eff: "file_lookup st q
      = find (\<lambda>r. file_matches r q) (sort_key rule_key (filter sr_enabled (all_rules st)))"
    by (simp add: file_lookup_def store_inv_def effective_order_def)
  have rules: "file_rules st = set (filter sr_enabled (all_rules st))"
    by (auto simp: file_rules_def all_rules_iff)
  {
    assume "file_lookup st q = Some r"
    then have found: "find (\<lambda>r. file_matches r q) (sort_key rule_key (filter sr_enabled (all_rules st))) = Some r"
      by (simp add: eff)
    have "r' = r \<or> file_beats r r'" if "r' \<in> file_rules st" "file_matches r' q" for r'
      using find_sort_key_best [OF effective_names [OF inv] found] that
      unfolding rules file_beats_key by blast
    with find_sort_key_mem [OF found]
    show "r \<in> file_rules st \<and> file_matches r q \<and> (\<forall>r' \<in> file_rules st. file_matches r' q \<longrightarrow> r' = r \<or> file_beats r r')"
      unfolding rules by blast
  next
    assume "file_lookup st q = None" "r \<in> file_rules st"
    then show "\<not> file_matches r q" by (simp add: eff rules find_sort_key_None)
  }
next
  show "\<not> file_beats r' r" if "file_beats r r'" for r r'
    using that by (auto simp: file_beats_key)
qed

section \<open>An example\<close>

text \<open>A plugin denies opening \<open>/a/x\<close>, for which it holds a grant.\<close>

definition file_example_request :: FilePolicyApplyRequest where
  "file_example_request =
     \<lparr>fq_items = [\<lparr>fi_op = Upsert, fi_rule_id = Some ''r1'',
        fi_rule = Some \<lparr>fd_rule_id = None, fd_decision = FilePolicyDecision.Deny, fd_operation = Open,
          fd_path = ''/a/x'', fd_gray_target = None, fd_priority = 0\<rparr>\<rparr>],
      fq_precondition = \<lparr>fp_base_revision = 0, fp_mutation_id = ''m'', fp_reason = None,
        fp_correlation_id = None, fp_apply_mode = Partial\<rparr>\<rparr>"

definition file_example_grants :: "FilePolicyRulesApplyGrant list" where
  "file_example_grants = [\<lparr>fg_decision = FilePolicyDecision.Deny, fg_path_scope = ''/a/**''\<rparr>]"

definition file_example_store :: EnforcementRules where
  "file_example_store = empty_with_coverage Lsm"

definition file_example_outcome where
  "file_example_outcome = apply_request bare_host file_example_store ''p'' file_example_grants file_example_request"

definition file_example_patched :: EnforcementRules where
  "file_example_patched = fst (the file_example_outcome)"

lemma file_example_step:
  "\<exists>res. apply_request bare_host file_example_store ''p'' file_example_grants file_example_request
    = Some (file_example_patched, Ok res)"
proof -
  have "(case file_example_outcome of Some (_, Inr _) \<Rightarrow> True | _ \<Rightarrow> False)" by code_simp
  then show ?thesis
    by (auto simp: file_example_patched_def file_example_outcome_def split: option.splits prod.splits sum.splits)
qed

lemma file_example_reachable: "file_reachable file_example_store" "file_reachable file_example_patched"
proof -
  have "load_with_coverage bare_host (Err \<lparr>fe_kind = NotFound, fe_text = []\<rparr>) ''/rules'' Lsm
      = Ok file_example_store"
    by (simp add: load_with_coverage_def file_example_store_def)
  then show start: "file_reachable file_example_store"
    unfolding file_start_def by (blast intro: reachable.intros)
  from file_example_step show "file_reachable file_example_patched"
    by (blast intro: reachable.intros start file_step.applied)
qed

definition file_example_rule :: StoredPolicyRule where
  "file_example_rule = the (stored file_example_patched ''p'' ''r1'')"

lemma file_example_stored: "stored file_example_patched ''p'' ''r1'' = Some file_example_rule"
proof -
  have "stored file_example_patched ''p'' ''r1'' \<noteq> None" by code_simp
  then show ?thesis by (auto simp: file_example_rule_def)
qed

section \<open>Properties\<close>

text \<open>
  (C17) A lookup answers with the rule that takes precedence: it returns an enforced rule
  exactly when it is that of an enabled stored rule that matches the operation and path and
  beats every other enabled stored rule that matches: by its tier, then by its priority, then
  by the later change, then by the order of owners and identifiers.
\<close>

theorem find_path_decides:
  assumes "file_reachable st"
  shows "find_path st operation path = Some e \<longleftrightarrow>
    (\<exists>r \<in> file_rules st. sr_rule r = e \<and> rule_matches_path r operation path
       \<and> (\<forall>r' \<in> file_rules st. rule_matches_path r' operation path \<longrightarrow> r' = r \<or> file_beats r r'))"
  using file_table.lookup_iff [OF file_rules.reachable_inv [OF assms], of "(operation, path)"]
  by (auto simp: find_path_lookup)

theorem find_path_decides_witness:
  "\<exists>r \<in> file_rules file_example_patched. rule_matches_path r Open ''/a/x''
     \<and> sr_rule r = \<lparr>en_owner_instance_id = ''p'', en_rule_id = ''r1'',
         en_decision = Local EnforcementDecision.Deny, en_operation = ''open'', en_path = ''/a/x''\<rparr>"
proof -
  have "find_path file_example_patched Open ''/a/x'' = Some \<lparr>en_owner_instance_id = ''p'', en_rule_id = ''r1'',
         en_decision = Local EnforcementDecision.Deny, en_operation = ''open'', en_path = ''/a/x''\<rparr>"
    by code_simp
  then show ?thesis unfolding find_path_decides [OF file_example_reachable(2)] by blast
qed

text \<open>
  (C20) A plugin decides only where it has rules: a patch of one owner leaves the answer to
  a query unchanged unless a rule of that owner matches the query, before or after.
\<close>

theorem patch_is_local:
  assumes "file_reachable st" and "apply_request host st owner grants request = Some (st', Ok res)"
    and "\<And>rid r. stored st owner rid = Some r \<Longrightarrow> \<not> rule_matches_path r operation path"
    and "\<And>rid r. stored st' owner rid = Some r \<Longrightarrow> \<not> rule_matches_path r operation path"
  shows "find_path st' operation path = find_path st operation path"
proof -
  have frame: "stored st' o' rid = stored st o' rid" if "o' \<noteq> owner" for o' rid
    using assms(2) that
    by (cases rule: request_Ok) (simp_all add: patch_effect_def stored_def)
  have "stored st' o' rid = Some r \<longleftrightarrow> stored st o' rid = Some r"
    if "rule_matches_path r operation path" for o' rid r
    using assms(3,4) [of rid r] frame [of o' rid] that by (cases "o' = owner") auto
  then have "r \<in> file_rules st' \<longleftrightarrow> r \<in> file_rules st" if "file_matches r (operation, path)" for r
    using that by (simp add: file_rules_def)
  moreover have "store_inv st" "store_inv st'"
    using assms(1,2) file_rules.reachable_inv request_inv by blast+
  ultimately have "file_lookup st' (operation, path) = file_lookup st (operation, path)"
    by (intro file_table.lookup_local) simp_all
  then show ?thesis by (simp add: find_path_lookup)
qed

theorem patch_is_local_witness:
  "find_path file_example_patched Open ''/b'' = find_path file_example_store Open ''/b''"
proof -
  have "list_all (\<lambda>r. \<not> rule_matches_path r Open ''/b'') (all_rules file_example_store)"
    and "list_all (\<lambda>r. \<not> rule_matches_path r Open ''/b'') (all_rules file_example_patched)" by code_simp+
  then have "\<not> rule_matches_path r Open ''/b''"
    if "stored file_example_store ''p'' rid = Some r \<or> stored file_example_patched ''p'' rid = Some r" for rid r
    using that unfolding list_all_iff Ball_def all_rules_iff by blast
  with file_example_step patch_is_local [OF file_example_reachable(1)] show ?thesis by blast
qed

text \<open>
  (C18) A plugin cannot decide beyond its grants: after a patch, every rule of its owner
  either was there before with the same decision, operation and scope, or there is a grant
  for its decision that, resolved on the file system at hand, covers every path the rule
  matches.
\<close>

theorem patch_is_confined:
  assumes "apply_request host st owner grants request = Some (st', Ok res)"
    and "stored st' owner rid = Some r"
  shows "(\<exists>r0. stored st owner rid = Some r0 \<and> sr_decision r0 = sr_decision r
        \<and> sr_operation r0 = sr_operation r \<and> sr_execution_scope r0 = sr_execution_scope r)
    \<or> (\<exists>grant \<in> set grants. fg_decision grant = sr_decision r
        \<and> (\<exists>bound. grant_bound host grant = Ok bound
            \<and> (\<forall>path. scope_matches_path (sr_execution_scope r) path \<longrightarrow> scope_matches_path bound path)))"
  using assms(1)
proof (cases rule: request_Ok)
  case unchanged
  with assms(2) show ?thesis by blast
next
  case (bumped mid)
  with assms(2) have "patched host grants (requested_revision st) owner rid (stored st owner rid) r"
    by (simp add: patch_effect_def)
  then consider "stored st owner rid = Some r"
    | r0 where "stored st owner rid = Some r0" "same_rule r0 r" | "granted host grants r"
    unfolding patched_def by blast
  then show ?thesis
  proof cases
    case (2 r0)
    then show ?thesis by (simp add: same_rule_sel)
  next
    case 3
    then show ?thesis unfolding granted_def containment_iff by blast
  qed blast
qed

theorem patch_is_confined_witness:
  "stored file_example_store ''p'' ''r1'' = None
   \<and> (\<exists>grant \<in> set file_example_grants. fg_decision grant = sr_decision file_example_rule
        \<and> (\<exists>bound. grant_bound bare_host grant = Ok bound
            \<and> scope_matches_path bound ''/a/x''))"
proof -
  have none: "stored file_example_store ''p'' ''r1'' = None" by code_simp
  from file_example_step obtain res where
    "apply_request bare_host file_example_store ''p'' file_example_grants file_example_request = Some (file_example_patched, Ok res)"
    by blast
  from patch_is_confined [OF this file_example_stored] none
  have "\<exists>grant \<in> set file_example_grants. fg_decision grant = sr_decision file_example_rule
      \<and> (\<exists>bound. grant_bound bare_host grant = Ok bound
          \<and> (\<forall>path. scope_matches_path (sr_execution_scope file_example_rule) path
              \<longrightarrow> scope_matches_path bound path))" by simp
  moreover have "scope_matches_path (sr_execution_scope file_example_rule) ''/a/x''" by code_simp
  ultimately show ?thesis using none by blast
qed

text \<open>
  (C19) A patch never touches the rules of another owner, nor a rule of its own owner that
  changed after the revision the patch was based on.
\<close>

theorem patch_respects_others:
  assumes "file_reachable st" and "apply_request host st owner grants request = Some (st', Ok res)"
    and "stored st o' rid = Some r"
    and "o' \<noteq> owner \<or> fp_base_revision (fq_precondition request) < sr_updated_revision r"
  shows "stored st' o' rid = Some r"
  using assms(2)
proof (cases rule: request_Ok)
  case unchanged
  with assms(3) show ?thesis by simp
next
  case (bumped mid)
  show ?thesis
  proof (cases "o' = owner")
    case True
    with assms(1,3) have "rule_wf owner rid r"
      using file_rules.reachable_inv by (auto simp: store_inv_def rules_inv_def)
    with bumped(3) True assms(3,4) show ?thesis by simp
  next
    case False
    with bumped(1,2) assms(3) show ?thesis by (simp add: patch_effect_def stored_def)
  qed
qed

theorem patch_respects_others_witness:
  "stored (fst (the (apply_request bare_host file_example_patched ''p'' file_example_grants file_example_request)))
     ''p'' ''r1'' = Some file_example_rule"
proof -
  let ?out = "apply_request bare_host file_example_patched ''p'' file_example_grants file_example_request"
  have "(case ?out of Some (_, Inr _) \<Rightarrow> True | _ \<Rightarrow> False)" by code_simp
  then obtain res where "?out = Some (fst (the ?out), Ok res)"
    by (auto split: option.splits prod.splits sum.splits)
  then show ?thesis
  proof (rule patch_respects_others [OF file_example_reachable(2) _ file_example_stored])
    show "''p'' \<noteq> ''p'' \<or> fp_base_revision (fq_precondition file_example_request) < sr_updated_revision file_example_rule"
      by code_simp
  qed
qed

text \<open>
  (C21) Every stored rule is well formed: it is kept under its owner and identifier, the
  rule that is enforced names the same owner, identifier, operation and bound path and has the
  same decision: it allows or denies on the spot as the rule says, and for a gray rule it asks a plugin,
  the one the rule names with the default time limit, concurrency and fallback if it names one. The path is
  absolute and without \<open>.\<close> and \<open>..\<close>, and the rule was last changed at or before the current revision.
\<close>

theorem stored_rules_well_formed:
  assumes "file_reachable st" and "stored st owner rid = Some r"
  shows "sr_owner_instance_id r = owner \<and> sr_rule_id r = rid
    \<and> en_owner_instance_id (sr_rule r) = owner \<and> en_rule_id (sr_rule r) = rid
    \<and> en_operation (sr_rule r) = operation_as_str (sr_operation r)
    \<and> sr_decision r \<noteq> Default
    \<and> (sr_decision r = FilePolicyDecision.Allow \<longleftrightarrow> en_decision (sr_rule r) = Local EnforcementDecision.Allow)
    \<and> (sr_decision r = FilePolicyDecision.Deny \<longleftrightarrow> en_decision (sr_rule r) = Local EnforcementDecision.Deny)
    \<and> (sr_decision r = Gray \<longrightarrow> (\<forall>target. sr_gray_target r = Some target \<longrightarrow>
         en_decision (sr_rule r) = SyncPlugin (show_nat (unat target)) 30000 32 EnforcementDecision.Deny))
    \<and> en_path (sr_rule r) = display_base (sr_execution_scope r)
    \<and> (\<exists>names. (\<forall>n \<in> set names. valid_name n) \<and> en_path (sr_rule r) = abs_path names)
    \<and> sr_updated_revision r \<le> er_revision st"
proof -
  have wf: "rule_wf owner rid r" and rev: "sr_updated_revision r \<le> er_revision st"
    using file_rules.reachable_inv [OF assms(1)] assms(2) by (simp_all add: store_inv_def rules_inv_def)
  then have "decision_agrees (sr_decision r) (sr_gray_target r) (en_decision (sr_rule r))"
    by (simp add: rule_wf_def)
  then have "sr_decision r \<noteq> Default
      \<and> (sr_decision r = FilePolicyDecision.Allow \<longleftrightarrow> en_decision (sr_rule r) = Local EnforcementDecision.Allow)
      \<and> (sr_decision r = FilePolicyDecision.Deny \<longleftrightarrow> en_decision (sr_rule r) = Local EnforcementDecision.Deny)
      \<and> (sr_decision r = Gray \<longrightarrow> (\<forall>target. sr_gray_target r = Some target \<longrightarrow>
         en_decision (sr_rule r) = SyncPlugin (show_nat (unat target)) 30000 32 EnforcementDecision.Deny))"
    by (cases "sr_decision r") (auto simp: decision_agrees_def split: RuleDecision.splits)
  with wf rev show ?thesis by (auto simp: rule_wf_def)
qed

theorem stored_rules_well_formed_witness:
  "en_rule_id (sr_rule file_example_rule) = ''r1'' \<and> sr_updated_revision file_example_rule \<le> er_revision file_example_patched
    \<and> en_decision (sr_rule file_example_rule) = Local EnforcementDecision.Deny"
proof -
  have "sr_decision file_example_rule = FilePolicyDecision.Deny" by code_simp
  with stored_rules_well_formed [OF file_example_reachable(2) file_example_stored] show ?thesis by simp
qed

text \<open>
  (C22) When an owner leaves, its rules are gone and those of the others stay, so that no
  lookup answers with a rule of that owner any more.
\<close>

theorem remove_owner_effect:
  assumes "file_reachable st"
  shows "stored (fst (remove_owner st owner)) o' rid = (if o' = owner then None else stored st o' rid)
    \<and> (find_path (fst (remove_owner st owner)) operation path = Some e
        \<longrightarrow> en_owner_instance_id e \<noteq> owner)"
proof (intro conjI impI)
  let ?st = "fst (remove_owner st owner)"
  show "stored ?st o' rid = (if o' = owner then None else stored st o' rid)"
    by (rule remove_owner_stored)
  have inv: "store_inv ?st"
    using assms by (intro remove_owner_inv file_rules.reachable_inv)
  assume "find_path ?st operation path = Some e"
  then obtain r o'' rid'' where "e = sr_rule r" and r: "stored ?st o'' rid'' = Some r"
    using file_table.lookup_best [OF inv] by (force simp: find_path_lookup file_rules_def)
  moreover from r have "o'' \<noteq> owner" by (simp add: remove_owner_stored split: if_splits)
  moreover from r inv have "rule_wf o'' rid'' r" by (simp add: store_inv_def rules_inv_def)
  ultimately show "en_owner_instance_id e \<noteq> owner" by (simp add: rule_wf_def)
qed

theorem remove_owner_effect_witness:
  "stored file_example_patched ''p'' ''r1'' \<noteq> None
   \<and> stored (fst (remove_owner file_example_patched ''p'')) ''p'' ''r1'' = None"
  using remove_owner_effect [OF file_example_reachable(2), of "''p''" "''p''" "''r1''"] file_example_stored by simp

text \<open>
  A dry run of a single path predicts the lookup on the bound path: it reports a
  match exactly when the lookup finds a rule, and it names the same rule.
\<close>

theorem dry_run_predicts:
  assumes "file_reachable st" and "match_dry_run host st request fallback = Ok res"
    and "strip_suffix ''/**'' (dq_path request) = None"
    and "policy_path_bind host (dq_path request) = Ok path"
  shows "dr_matched res = (find_path st (dq_operation request) path \<noteq> None)
    \<and> dr_rule_id res = map_option en_rule_id (find_path st (dq_operation request) path)"
proof -
  let ?q = "(dq_operation request, path)"
  have exact: "contains_scope s (Exact path) = scope_matches_path s path" for s
    by (cases s) simp_all
  from assms(2-4) have "dr_matched res = (file_lookup st ?q \<noteq> None)"
    and rid: "dr_rule_id res = map_option sr_rule_id (file_lookup st ?q)"
    by (auto simp: match_dry_run_def absolute_scope_def scope_from_text_def absolute_path_def
        scope_bind_def Let_def file_lookup_def rule_matches_path_def exact split: if_splits)
  moreover have "en_rule_id (sr_rule r) = sr_rule_id r" if "file_lookup st ?q = Some r" for r
    using file_table.lookup_best [OF file_rules.reachable_inv [OF assms(1)] that]
      file_rules.reachable_inv [OF assms(1)]
    by (auto simp: file_rules_def store_inv_def rules_inv_def rule_wf_def)
  ultimately show ?thesis
    unfolding find_path_lookup by (cases "file_lookup st ?q") auto
qed

theorem dry_run_predicts_witness:
  "find_path file_example_patched Open ''/a/x'' \<noteq> None
   \<and> (\<exists>res. match_dry_run bare_host file_example_patched \<lparr>dq_path = ''/a//x'', dq_operation = Open\<rparr> FilePolicyDecision.Allow
        = Ok res \<and> dr_matched res)"
proof -
  let ?req = "\<lparr>dq_path = ''/a//x'', dq_operation = Open\<rparr>"
  let ?out = "match_dry_run bare_host file_example_patched ?req FilePolicyDecision.Allow"
  have "(case ?out of Inr _ \<Rightarrow> True | _ \<Rightarrow> False)" by code_simp
  then obtain res where res: "?out = Ok res" by (auto split: sum.splits)
  have "strip_suffix ''/**'' (dq_path ?req) = None" by code_simp
  moreover have "policy_path_bind bare_host (dq_path ?req) = Ok ''/a/x''" by code_simp
  ultimately have "dr_matched res = (find_path file_example_patched (dq_operation ?req) ''/a/x'' \<noteq> None)"
    using dry_run_predicts [OF file_example_reachable(2) res] by blast
  moreover have "find_path file_example_patched (dq_operation ?req) ''/a/x'' \<noteq> None" by code_simp
  ultimately show ?thesis using res by simp
qed

lemma available_number_stuck:
  assumes "bm_get rules (host_rule_id (- 1)) \<noteq> None"
  shows "available_number rules (- 1) = None"
proof (rule ccontr)
  assume "available_number rules (- 1) \<noteq> None"
  then obtain k where k: "available_number rules (- 1) = Some k" by blast
  have "n = - 1 \<longrightarrow> k = - 1" if "available_number rules n = Some k" for n k
    by (rule available_number.raw_induct [OF _ that, where P = "\<lambda>rules n k. n = - 1 \<longrightarrow> k = - 1"])
      (auto simp: saturating_add_u64_def unsigned_minus_1_eq_mask mask_eq_exp_minus_1 split: if_splits)
  from this [OF k] have "k = - 1" by simp
  with available_number_fresh [OF k] assms show False by simp
qed

text \<open>
  (C23) The search for the number of a generated rule identifier returns an unused
  identifier as long as the numbers left exceed the rules of the owner; at the largest number
  a used identifier makes it run forever.
\<close>

theorem rule_number_search:
  "(unat (er_next_rule_id st) + length (bm_keys (owner_rules st owner)) < 2 ^ 64
      \<longrightarrow> (\<exists>n. next_available_host_rule_number st owner = Some n
            \<and> stored st owner (host_rule_id n) = None))
   \<and> (er_next_rule_id st = - 1 \<and> stored st owner (host_rule_id (- 1)) \<noteq> None
      \<longrightarrow> next_available_host_rule_number st owner = None)"
  unfolding next_available_host_rule_number_def stored_def
  using available_number_terminates [of "er_next_rule_id st" "owner_rules st owner"]
    available_number_fresh [of "owner_rules st owner" "er_next_rule_id st"]
    available_number_stuck [of "owner_rules st owner"]
  by force


theorem rule_number_search_witness:
  "\<exists>n. next_available_host_rule_number file_example_patched ''p'' = Some n
    \<and> stored file_example_patched ''p'' (host_rule_id n) = None"
proof -
  have "unat (er_next_rule_id file_example_patched) + length (bm_keys (owner_rules file_example_patched ''p'')) < 2 ^ 64"
    by code_simp
  with rule_number_search [of file_example_patched "''p''"] show ?thesis by blast
qed

end
