(* ===== verification/Command_Policy.thy ===== *)
theory Command_Policy
  imports File_Scope
begin

text \<open>
  The command policy, \<open>crates/access_control/src/policy/command\<close>: argument patterns
  (\<open>args.rs\<close>), executable paths (\<open>path.rs\<close>), stored rules (\<open>rule.rs\<close>), validation and grants
  (\<open>validation.rs\<close>), the parser of static rules (\<open>parser.rs\<close>) and the store (\<open>store.rs\<close>). The
  JSON codec is a parameter.
\<close>

section \<open>Vocabulary\<close>

datatype CommandPolicyDecision = Default | Allow | Deny | Gray

primrec command_decision_as_str :: "CommandPolicyDecision \<Rightarrow> string" where
  "command_decision_as_str CommandPolicyDecision.Default = ''default''"
| "command_decision_as_str CommandPolicyDecision.Allow = ''allow''"
| "command_decision_as_str CommandPolicyDecision.Deny = ''deny''"
| "command_decision_as_str CommandPolicyDecision.Gray = ''gray''"

definition command_decision_from_wire :: "string \<Rightarrow> string + CommandPolicyDecision" where
  "command_decision_from_wire value =
     (if value = ''default'' then Ok CommandPolicyDecision.Default
      else if value = ''allow'' then Ok CommandPolicyDecision.Allow
      else if value = ''deny'' then Ok CommandPolicyDecision.Deny
      else if value = ''gray'' then Ok CommandPolicyDecision.Gray
      else Err (''unsupported command policy decision '' @ value
                @ ''; expected default, allow, deny, or gray''))"

datatype CommandPolicyPatchOp = Upsert | Delete

datatype CommandPolicyApplyStatus = Accepted | Rejected

record CommandPolicyRuleDraft =
  cd_rule_id :: "string option"
  cd_decision :: CommandPolicyDecision
  cd_executable :: string
  cd_args :: "string list option"
  cd_gray_target :: "string option"
  cd_priority :: i32

record CommandPolicyPatchItem =
  ci_op :: CommandPolicyPatchOp
  ci_rule_id :: "string option"
  ci_rule :: "CommandPolicyRuleDraft option"

record CommandPolicyApplyRequest =
  cq_base_revision :: u64
  cq_mutation_id :: string
  cq_reason :: "string option"
  cq_items :: "CommandPolicyPatchItem list"

record CommandPolicyApplyError =
  ce_item_index :: u32
  ce_code :: string
  ce_message :: string

record CommandPolicyApplyResult =
  ca_status :: CommandPolicyApplyStatus
  ca_new_revision :: u64
  ca_applied_count :: u32
  ca_rejected_count :: u32
  ca_errors :: "CommandPolicyApplyError list"

record CommandPolicyRuleView =
  cv_rule_id :: string
  cv_owner_instance_id :: string
  cv_decision :: CommandPolicyDecision
  cv_executable :: string
  cv_args :: "string list option"
  cv_gray_target :: "string option"
  cv_priority :: i32
  cv_rule_revision :: u64
  cv_updated_sequence :: u64

record CommandPolicyListFilter =
  cf_decision :: "CommandPolicyDecision option"
  cf_executable_prefix :: "string option"

record CommandPolicyListResult =
  cl_rules :: "CommandPolicyRuleView list"
  cl_next_cursor :: "string option"
  cl_source_revision :: u64

record CommandPolicyMatchDryRunRequest =
  cm_executable :: string
  cm_args :: "string list"

record CommandPolicyMatchDryRunResult =
  cr_matched :: bool
  cr_decision :: CommandPolicyDecision
  cr_rule_id :: "string option"
  cr_owner_instance_id :: "string option"
  cr_resolved_executable :: string
  cr_rule_revision :: "u64 option"
  cr_source_revision :: u64

record CommandPolicyRulesApplyGrant =
  cg_decision :: CommandPolicyDecision
  cg_path_scope :: string

text \<open>The JSON codec: reading an array of strings, with the text of the error, and writing it.\<close>

record JsonCodec =
  json_read_strings :: "string \<Rightarrow> string + string list"
  json_write_strings :: "string list \<Rightarrow> string"

section \<open>Argument patterns\<close>

datatype CommandArgsPattern = Any | Exact "string list" | Prefix "string list"

datatype CommandArgsScope = AnyScope | ExactScope "string list" | PrefixScope "string list"

fun parse_args_from :: "nat \<Rightarrow> nat \<Rightarrow> string list \<Rightarrow> string + unit" where
  "parse_args_from len index [] = Ok ()"
| "parse_args_from len index (arg # args) =
     (if CHR 0x00 \<in> set arg
      then Err (''command rule args['' @ show_nat index @ ''] contains NUL'')
      else if arg = ''*'' \<and> index + 1 \<noteq> len
      then Err ''command rule args wildcard * is only allowed as the final item''
      else parse_args_from len (index + 1) args)"

definition command_args_parse :: "string list option \<Rightarrow> string + CommandArgsPattern" where
  "command_args_parse args =
     (case args of
        None \<Rightarrow> Ok CommandArgsPattern.Any
      | Some args \<Rightarrow>
          bind_result (parse_args_from (length args) 0 args) (\<lambda>_.
            if args \<noteq> [] \<and> last args = ''*'' then Ok (Prefix (butlast args))
            else Ok (CommandArgsPattern.Exact args)))"

fun command_args_matches :: "CommandArgsPattern \<Rightarrow> string list \<Rightarrow> bool" where
  "command_args_matches CommandArgsPattern.Any args = True"
| "command_args_matches (CommandArgsPattern.Exact expected) args = (expected = args)"
| "command_args_matches (Prefix prefix) args = starts_with args prefix"

fun requires_snapshot :: "CommandArgsPattern \<Rightarrow> bool" where
  "requires_snapshot CommandArgsPattern.Any = False"
| "requires_snapshot (Prefix prefix) = (prefix \<noteq> [])"
| "requires_snapshot (CommandArgsPattern.Exact _) = True"

fun command_args_view :: "CommandArgsPattern \<Rightarrow> string list option" where
  "command_args_view CommandArgsPattern.Any = None"
| "command_args_view (CommandArgsPattern.Exact args) = Some args"
| "command_args_view (Prefix prefix) = Some (prefix @ [''*''])"

fun command_args_logical_scope :: "CommandArgsPattern \<Rightarrow> CommandArgsScope" where
  "command_args_logical_scope CommandArgsPattern.Any = AnyScope"
| "command_args_logical_scope (Prefix []) = AnyScope"
| "command_args_logical_scope (CommandArgsPattern.Exact args) = ExactScope args"
| "command_args_logical_scope (Prefix prefix) = PrefixScope prefix"

definition command_args_describe :: "JsonCodec \<Rightarrow> CommandArgsPattern \<Rightarrow> string" where
  "command_args_describe json pattern =
     (case command_args_view pattern of None \<Rightarrow> ''<any>'' | Some args \<Rightarrow> json_write_strings json args)"

section \<open>Executable paths\<close>

definition normalize_absolute :: "string \<Rightarrow> string + PathBuf" where
  "normalize_absolute raw =
     (if raw = [] then Err ''command executable must not be empty''
      else if CHR 0x00 \<in> set raw then Err ''command executable contains NUL''
      else if \<not> path_is_absolute raw then Err (''command executable '' @ raw @ '' must be absolute'')
      else Ok (normalize_components ''/'' (path_components raw)))"

section \<open>Stored rules\<close>

definition command_static_owner :: string where
  "command_static_owner = ''actrail.static''"

definition generated_rule_id_prefix :: string where
  "generated_rule_id_prefix = ''command-rule''"

record StoredCommandRule =
  sc_owner_instance_id :: string
  sc_rule_id :: string
  sc_decision :: CommandPolicyDecision
  sc_executable :: PathBuf
  sc_execution_executable :: PathBuf
  sc_args :: CommandArgsPattern
  sc_gray_target :: "string option"
  sc_priority :: i32
  sc_rule_revision :: u64
  sc_updated_sequence :: u64

definition validate_id :: "string \<Rightarrow> string + unit" where
  "validate_id rule_id =
     (if trim rule_id = [] then Err ''command rule id must not be empty''
      else if list_ex is_whitespace rule_id
      then Err (''command rule id '' @ rule_id @ '' must not contain whitespace'')
      else Ok ())"

definition validate_shape :: "CommandPolicyRuleDraft \<Rightarrow> string + unit" where
  "validate_shape draft =
     (case (cd_decision draft, cd_gray_target draft) of
        (CommandPolicyDecision.Default, _) \<Rightarrow> Err ''command rule decision cannot be default''
      | (CommandPolicyDecision.Gray, None) \<Rightarrow> Err ''gray command rule requires gray_target''
      | (CommandPolicyDecision.Gray, Some target) \<Rightarrow>
          if trim target = [] then Err ''gray command rule target must not be empty'' else Ok ()
      | (_, Some _) \<Rightarrow> Err ''allow/deny command rule must not include gray_target''
      | _ \<Rightarrow> Ok ())"

definition command_rule_id :: "string option \<Rightarrow> string option \<Rightarrow> u64 \<Rightarrow> string" where
  "command_rule_id item_rule_id draft_id generated =
     (case item_rule_id of
        Some rule_id \<Rightarrow> rule_id
      | None \<Rightarrow>
          (case draft_id of
             Some rule_id \<Rightarrow> rule_id
           | None \<Rightarrow> generated_rule_id_prefix @ ''-'' @ show_nat (unat generated)))"

definition command_from_draft ::
    "Host \<Rightarrow> string \<Rightarrow> string option \<Rightarrow> CommandPolicyRuleDraft \<Rightarrow> u64 \<Rightarrow> u64 \<Rightarrow> u64
      \<Rightarrow> string + StoredCommandRule" where
  "command_from_draft host owner item_rule_id draft rule_revision updated_sequence generated =
     (let rule_id = command_rule_id item_rule_id (cd_rule_id draft) generated
      in
      bind_result (validate_id rule_id) (\<lambda>_.
      bind_result (validate_shape draft) (\<lambda>_.
      bind_result (normalize_absolute (cd_executable draft)) (\<lambda>executable.
      bind_result (policy_path_bind host (cd_executable draft)) (\<lambda>execution_executable.
      bind_result (command_args_parse (cd_args draft)) (\<lambda>args.
      Ok \<lparr>sc_owner_instance_id = owner, sc_rule_id = rule_id, sc_decision = cd_decision draft,
          sc_executable = executable, sc_execution_executable = execution_executable,
          sc_args = args, sc_gray_target = cd_gray_target draft, sc_priority = cd_priority draft,
          sc_rule_revision = rule_revision, sc_updated_sequence = updated_sequence\<rparr>))))))"

definition command_rule_view :: "StoredCommandRule \<Rightarrow> CommandPolicyRuleView" where
  "command_rule_view r =
     \<lparr>cv_rule_id = sc_rule_id r, cv_owner_instance_id = sc_owner_instance_id r,
      cv_decision = sc_decision r, cv_executable = sc_executable r,
      cv_args = command_args_view (sc_args r), cv_gray_target = sc_gray_target r,
      cv_priority = sc_priority r, cv_rule_revision = sc_rule_revision r,
      cv_updated_sequence = sc_updated_sequence r\<rparr>"

definition command_matches_filter :: "StoredCommandRule \<Rightarrow> CommandPolicyListFilter \<Rightarrow> bool" where
  "command_matches_filter r criteria \<longleftrightarrow>
     (case cf_decision criteria of None \<Rightarrow> True | Some d \<Rightarrow> d = sc_decision r)
     \<and> (case cf_executable_prefix criteria of
          None \<Rightarrow> True | Some prefix \<Rightarrow> starts_with (sc_executable r) prefix)"

section \<open>Grants\<close>

datatype CommandGrantScope = Exact PathBuf | Recursive PathBuf

definition command_grant_parse :: "string \<Rightarrow> string + CommandGrantScope" where
  "command_grant_parse raw =
     (let recursive_base = strip_suffix ''/**'' raw;
          check = (case recursive_base of Some base \<Rightarrow> base | None \<Rightarrow> raw)
      in if CHR ''*'' \<in> set check
         then Err (''command policy grant '' @ raw @ '' may only use /** as its final suffix'')
         else case recursive_base of
           Some base \<Rightarrow>
             if base = [] then Err ''command policy recursive grant base must not be empty''
             else bind_result (normalize_absolute base) (\<lambda>p. Ok (CommandGrantScope.Recursive p))
         | None \<Rightarrow> bind_result (normalize_absolute raw) (\<lambda>p. Ok (CommandGrantScope.Exact p)))"

fun command_grant_contains :: "CommandGrantScope \<Rightarrow> PathBuf \<Rightarrow> bool" where
  "command_grant_contains (CommandGrantScope.Exact path) executable = path_eq path executable"
| "command_grant_contains (CommandGrantScope.Recursive base) executable =
     path_starts_with executable base"

text \<open>The scope is the result of parsing the raw text, so the base of a recursive scope exists.\<close>

fun bound_contains :: "Host \<Rightarrow> CommandGrantScope \<Rightarrow> string \<Rightarrow> PathBuf \<Rightarrow> string + bool" where
  "bound_contains host (CommandGrantScope.Exact _) raw_scope executable =
     bind_result (policy_path_bind host raw_scope) (\<lambda>p. Ok (path_eq p executable))"
| "bound_contains host (CommandGrantScope.Recursive _) raw_scope executable =
     bind_result (policy_path_bind host (the (strip_suffix ''/**'' raw_scope)))
       (\<lambda>p. Ok (path_starts_with executable p))"

definition command_grant_covers ::
    "Host \<Rightarrow> StoredCommandRule \<Rightarrow> CommandPolicyRulesApplyGrant \<Rightarrow> bool" where
  "command_grant_covers host r grant \<longleftrightarrow>
     cg_decision grant = sc_decision r
     \<and> (case command_grant_parse (cg_path_scope grant) of
          Inl _ \<Rightarrow> False
        | Inr scope \<Rightarrow>
            command_grant_contains scope (sc_executable r)
            \<and> bound_contains host scope (cg_path_scope grant) (sc_execution_executable r) = Ok True)"

definition command_validate_bound_grant ::
    "Host \<Rightarrow> CommandPolicyRulesApplyGrant list \<Rightarrow> StoredCommandRule \<Rightarrow> string + unit" where
  "command_validate_bound_grant host grants r =
     (if list_ex (command_grant_covers host r) grants then Ok ()
      else Err (''missing command-policy.rules.apply grant for bound target ''
                @ sc_execution_executable r @ '' of '' @ sc_executable r))"

definition command_validate_draft_grant ::
    "CommandPolicyRulesApplyGrant list \<Rightarrow> CommandPolicyRuleDraft \<Rightarrow> string + unit" where
  "command_validate_draft_grant grants draft =
     bind_result (normalize_absolute (cd_executable draft)) (\<lambda>executable.
       if list_ex (\<lambda>grant. cg_decision grant = cd_decision draft
            \<and> (case command_grant_parse (cg_path_scope grant) of
                 Inl _ \<Rightarrow> False | Inr scope \<Rightarrow> command_grant_contains scope executable)) grants
       then Ok ()
       else Err (''missing command-policy.rules.apply grant for ''
                 @ command_decision_as_str (cd_decision draft) @ '' '' @ executable))"

section \<open>Validation\<close>

definition command_apply_error :: "u32 \<Rightarrow> string \<Rightarrow> string \<Rightarrow> CommandPolicyApplyError" where
  "command_apply_error item_index code message =
     \<lparr>ce_item_index = item_index, ce_code = code, ce_message = message\<rparr>"

definition command_validate_request ::
    "u64 \<Rightarrow> string \<Rightarrow> CommandPolicyApplyRequest \<Rightarrow> CommandPolicyApplyError list" where
  "command_validate_request revision owner request =
     (if trim owner = [] \<or> owner = command_static_owner
      then [command_apply_error 0 ''invalid-owner''
             ''command policy owner must be a non-static plugin instance id''] else [])
     @ (if cq_base_revision request \<noteq> revision
        then [command_apply_error 0 ''revision-conflict''
               (''command policy base revision '' @ show_nat (unat (cq_base_revision request))
                @ '' does not match current revision '' @ show_nat (unat revision))] else [])
     @ (if trim (cq_mutation_id request) = []
        then [command_apply_error 0 ''invalid-mutation-id''
               ''command policy mutation_id must not be empty''] else [])
     @ (if cq_items request = []
        then [command_apply_error 0 ''empty-mutation''
               ''command policy apply requires at least one item''] else [])"

text \<open>The set of scopes seen so far holds the components of the path and the logical scope.\<close>

fun validate_owner_entries ::
    "JsonCodec \<Rightarrow> string \<Rightarrow> (Component list \<times> CommandArgsScope) list
      \<Rightarrow> (string \<times> StoredCommandRule) list \<Rightarrow> string + unit" where
  "validate_owner_entries json owner scopes [] = Ok ()"
| "validate_owner_entries json owner scopes ((key, rule) # entries) =
     (if key \<noteq> sc_rule_id rule
      then Err (''command policy owner '' @ owner @ '' has inconsistent rule id '' @ key)
      else
        (let scope = (path_components (sc_executable rule),
                      command_args_logical_scope (sc_args rule))
         in if scope \<in> set scopes
            then Err (''command policy owner '' @ owner @ '' has duplicate executable ''
                      @ sc_executable rule @ '' args '' @ command_args_describe json (sc_args rule))
            else validate_owner_entries json owner (scope # scopes) entries))"

definition validate_owner_rules ::
    "JsonCodec \<Rightarrow> string \<Rightarrow> (string, StoredCommandRule) btree_map \<Rightarrow> string + unit" where
  "validate_owner_rules json owner rules = validate_owner_entries json owner [] (bm_entries rules)"

definition command_accepted_result :: "u64 \<Rightarrow> u32 \<Rightarrow> CommandPolicyApplyResult" where
  "command_accepted_result revision applied_count =
     \<lparr>ca_status = CommandPolicyApplyStatus.Accepted, ca_new_revision = revision,
      ca_applied_count = applied_count, ca_rejected_count = 0, ca_errors = []\<rparr>"

definition command_rejected_result ::
    "u64 \<Rightarrow> CommandPolicyApplyError list \<Rightarrow> CommandPolicyApplyResult" where
  "command_rejected_result revision errors =
     \<lparr>ca_status = CommandPolicyApplyStatus.Rejected, ca_new_revision = revision,
      ca_applied_count = 0, ca_rejected_count = of_nat (length errors), ca_errors = errors\<rparr>"

section \<open>Static rules\<close>

definition command_usage :: string where
  "command_usage = ''expected: <id> <allow|deny> exec <absolute-path> [args-json <json-string-array>] priority <i32> or <id> gray sync-plugin <instance-id> exec <absolute-path> [args-json <json-string-array>] priority <i32>''"

definition static_command_fields :: "string list \<Rightarrow> (string \<times> string \<times> string \<times> string option) option" where
  "static_command_fields parts =
     (case parts of
        [rule_id, decision, kw, executable] \<Rightarrow>
          if (decision = ''allow'' \<or> decision = ''deny'') \<and> kw = ''exec''
          then Some (rule_id, decision, executable, None) else None
      | [rule_id, gray, sync, target, kw, executable] \<Rightarrow>
          if gray = ''gray'' \<and> sync = ''sync-plugin'' \<and> kw = ''exec''
          then Some (rule_id, ''gray'', executable, Some target) else None
      | _ \<Rightarrow> None)"

definition parse_static_command ::
    "Host \<Rightarrow> JsonCodec \<Rightarrow> string \<Rightarrow> u64 \<Rightarrow> string + StoredCommandRule" where
  "parse_static_command host json line sequence =
     (case rsplit_once '' priority '' line of
        None \<Rightarrow> Err command_usage
      | Some (scope, priority) \<Rightarrow>
     bind_result (case split_once '' args-json '' scope of
          Some (head, raw) \<Rightarrow>
            bind_result (map_err (\<lambda>e. ''args-json must be a JSON string array: '' @ e)
                           (json_read_strings json raw)) (\<lambda>args. Ok (head, Some args))
        | None \<Rightarrow> Ok (scope, None)) (\<lambda>(head, args).
     case static_command_fields (split_whitespace head) of
        None \<Rightarrow> Err command_usage
      | Some (rule_id, decision, executable, gray_target) \<Rightarrow>
          bind_result (validate_id rule_id) (\<lambda>_.
          bind_result (command_decision_from_wire decision) (\<lambda>decision.
          bind_result (map_err (\<lambda>e. ''priority must be an i32: '' @ e) (parse_i32 priority)) (\<lambda>priority.
          command_from_draft host command_static_owner (Some rule_id)
            \<lparr>cd_rule_id = Some rule_id, cd_decision = decision, cd_executable = executable,
             cd_args = args, cd_gray_target = gray_target, cd_priority = priority\<rparr>
            0 sequence 0)))))"

section \<open>The store\<close>

record CommandPolicyStore =
  cs_revision :: u64
  cs_next_rule_id :: u64
  cs_next_sequence :: u64
  cs_by_owner :: "(string, (string, StoredCommandRule) btree_map) btree_map"
  cs_effective_by_executable :: "(Component list, StoredCommandRule list) btree_map"

definition command_store_empty :: CommandPolicyStore where
  "command_store_empty =
     \<lparr>cs_revision = 0, cs_next_rule_id = 1, cs_next_sequence = 0, cs_by_owner = bm_empty,
      cs_effective_by_executable = bm_empty\<rparr>"

definition command_all_rules :: "CommandPolicyStore \<Rightarrow> StoredCommandRule list" where
  "command_all_rules st = concat (map bm_values (bm_values (cs_by_owner st)))"

text \<open>
  Rules are grouped by the bound executable, paths being compared by their components, and
  each group is sorted: priority and last change descending, then owner and identifier.
\<close>

definition command_rule_key :: "StoredCommandRule \<Rightarrow> int \<times> int \<times> string \<times> string" where
  "command_rule_key r = (- sint (sc_priority r), - uint (sc_updated_sequence r),
                         sc_owner_instance_id r, sc_rule_id r)"

definition group_rule ::
    "StoredCommandRule \<Rightarrow> (Component list, StoredCommandRule list) btree_map
      \<Rightarrow> (Component list, StoredCommandRule list) btree_map" where
  "group_rule r groups =
     (let key = path_components (sc_execution_executable r);
          group = (case bm_get groups key of None \<Rightarrow> [] | Some rules \<Rightarrow> rules)
      in bm_insert key (group @ [r]) groups)"

definition command_rebuild_effective :: "CommandPolicyStore \<Rightarrow> CommandPolicyStore" where
  "command_rebuild_effective st =
     st\<lparr>cs_effective_by_executable :=
          bm_map_values (sort_key command_rule_key) (fold group_rule (command_all_rules st) bm_empty)\<rparr>"

fun command_load_lines ::
    "Host \<Rightarrow> JsonCodec \<Rightarrow> PathBuf \<Rightarrow> nat \<Rightarrow> string list \<Rightarrow> u64
      \<Rightarrow> (string, StoredCommandRule) btree_map
      \<Rightarrow> string + u64 \<times> (string, StoredCommandRule) btree_map" where
  "command_load_lines host json path index [] sequence rules = Ok (sequence, rules)"
| "command_load_lines host json path index (raw_line # lines) sequence rules =
     (let line = trim raw_line
      in if line = [] \<or> hd line = CHR ''#''
         then command_load_lines host json path (index + 1) lines sequence rules
         else case checked_add_u64 sequence 1 of
           None \<Rightarrow> Err ''command policy sequence overflow''
         | Some sequence \<Rightarrow>
             bind_result (map_err (\<lambda>message. path @ '':'' @ show_nat (index + 1) @ '': '' @ message)
                            (parse_static_command host json line sequence)) (\<lambda>rule.
             if bm_get rules (sc_rule_id rule) \<noteq> None
             then Err (path @ '':'' @ show_nat (index + 1) @ '': duplicate command rule id'')
             else command_load_lines host json path (index + 1) lines sequence
                    (bm_insert (sc_rule_id rule) rule rules)))"

definition command_store_load ::
    "Host \<Rightarrow> JsonCodec \<Rightarrow> FsError + string \<Rightarrow> PathBuf \<Rightarrow> string + CommandPolicyStore" where
  "command_store_load host json content path =
     bind_result (case content of
          Inr raw \<Rightarrow> Ok raw
        | Inl e \<Rightarrow> if fe_kind e = NotFound then Ok []
                   else Err (''read command control rules '' @ path @ '' failed: '' @ fe_text e)) (\<lambda>raw.
     bind_result (command_load_lines host json path 0 (text_lines raw)
                    (cs_next_sequence command_store_empty) bm_empty) (\<lambda>(sequence, static_rules).
     bind_result (validate_owner_rules json command_static_owner static_rules) (\<lambda>_.
     let store = command_store_empty\<lparr>cs_next_sequence := sequence\<rparr>
     in if bm_entries static_rules = [] then Ok store
        else
          (let static_rules = bm_map_values (\<lambda>r. r\<lparr>sc_rule_revision := 1\<rparr>) static_rules
           in Ok (command_rebuild_effective
                (store\<lparr>cs_revision := 1,
                       cs_by_owner := bm_insert command_static_owner static_rules bm_empty\<rparr>)))))) "

section \<open>Queries\<close>

definition command_effective_rule_views :: "CommandPolicyStore \<Rightarrow> CommandPolicyRuleView list" where
  "command_effective_rule_views st =
     map (\<lambda>r. (command_rule_view r)\<lparr>cv_executable := sc_execution_executable r\<rparr>)
       (concat (bm_values (cs_effective_by_executable st)))"

definition command_find :: "CommandPolicyStore \<Rightarrow> PathBuf \<Rightarrow> string list \<Rightarrow> StoredCommandRule option" where
  "command_find st executable args =
     (case bm_get (cs_effective_by_executable st) (path_components executable) of
        None \<Rightarrow> None
      | Some rules \<Rightarrow> find (\<lambda>r. command_args_matches (sc_args r) args) rules)"

definition requires_args :: "CommandPolicyStore \<Rightarrow> PathBuf \<Rightarrow> bool" where
  "requires_args st executable =
     (case bm_get (cs_effective_by_executable st) (path_components executable) of
        None \<Rightarrow> False
      | Some rules \<Rightarrow> list_ex (\<lambda>r. requires_snapshot (sc_args r)) rules)"

definition command_owner_rules ::
    "CommandPolicyStore \<Rightarrow> string \<Rightarrow> (string, StoredCommandRule) btree_map" where
  "command_owner_rules st owner =
     (case bm_get (cs_by_owner st) owner of None \<Rightarrow> bm_empty | Some rules \<Rightarrow> rules)"

definition command_is_rule_current :: "CommandPolicyStore \<Rightarrow> StoredCommandRule \<Rightarrow> bool" where
  "command_is_rule_current st rule =
     (case bm_get (command_owner_rules st (sc_owner_instance_id rule)) (sc_rule_id rule) of
        None \<Rightarrow> False
      | Some current \<Rightarrow> sc_rule_revision current = sc_rule_revision rule)"

definition command_list ::
    "CommandPolicyStore \<Rightarrow> CommandPolicyListFilter \<Rightarrow> string option \<Rightarrow> u32
      \<Rightarrow> string + CommandPolicyListResult" where
  "command_list st criteria cursor limit =
     (if limit = 0 then Err ''command policy list limit must be positive''
      else
      bind_result (case cursor of
           None \<Rightarrow> Ok 0
         | Some raw \<Rightarrow> map_err (\<lambda>e. ''invalid command policy cursor '' @ raw @ '': '' @ e)
                         (parse_unsigned (2 ^ 64) raw)) (\<lambda>start.
      let views = sort_key (\<lambda>v. (cv_owner_instance_id v, cv_rule_id v))
            (map command_rule_view
               (filter (\<lambda>r. command_matches_filter r criteria) (command_all_rules st)));
          total = length views;
          rules = take (unat limit) (drop start views);
          next = min (start + length rules) (2 ^ 64 - 1)
      in Ok \<lparr>cl_rules = rules,
             cl_next_cursor = (if next < total then Some (show_nat next) else None),
             cl_source_revision = cs_revision st\<rparr>))"

definition command_match_dry_run ::
    "Host \<Rightarrow> CommandPolicyStore \<Rightarrow> CommandPolicyMatchDryRunRequest \<Rightarrow> CommandPolicyDecision
      \<Rightarrow> string + CommandPolicyMatchDryRunResult" where
  "command_match_dry_run host st request default_decision =
     bind_result (normalize_absolute (cm_executable request)) (\<lambda>_.
     bind_result (policy_path_bind host (cm_executable request)) (\<lambda>executable.
     let matched = command_find st executable (cm_args request)
     in Ok \<lparr>cr_matched = (matched \<noteq> None),
            cr_decision = (case matched of None \<Rightarrow> default_decision | Some r \<Rightarrow> sc_decision r),
            cr_rule_id = map_option sc_rule_id matched,
            cr_owner_instance_id = map_option sc_owner_instance_id matched,
            cr_resolved_executable = executable,
            cr_rule_revision = map_option sc_rule_revision matched,
            cr_source_revision = cs_revision st\<rparr>))"

section \<open>Patches\<close>

definition command_delete_item ::
    "(string, StoredCommandRule) btree_map \<Rightarrow> CommandPolicyPatchItem
      \<Rightarrow> (string, StoredCommandRule) btree_map \<times> (string + unit)" where
  "command_delete_item rules item =
     (if ci_rule item \<noteq> None then (rules, Err ''delete item must not include rule'')
      else case ci_rule_id item of
        None \<Rightarrow> (rules, Err ''delete item requires rule_id'')
      | Some rule_id \<Rightarrow>
          (case bm_get rules rule_id of
             None \<Rightarrow> (rules, Err (''command rule '' @ rule_id @ '' not found for owner''))
           | Some _ \<Rightarrow> (bm_remove rule_id rules, Ok ())))"

definition command_check_draft ::
    "string \<Rightarrow> CommandPolicyPatchItem \<Rightarrow> CommandPolicyRulesApplyGrant list \<Rightarrow> string + CommandPolicyRuleDraft" where
  "command_check_draft owner item grants =
     (case ci_rule item of
        None \<Rightarrow> Err ''upsert item requires rule''
      | Some draft \<Rightarrow>
     bind_result (case (ci_rule_id item, cd_rule_id draft) of
          (Some item_id, Some draft_id) \<Rightarrow>
            if item_id \<noteq> draft_id
            then Err (''item rule_id '' @ item_id @ '' does not match draft rule_id '' @ draft_id)
            else Ok ()
        | _ \<Rightarrow> Ok ()) (\<lambda>_.
     bind_result (command_validate_draft_grant grants draft) (\<lambda>_.
     bind_result (if cd_decision draft = CommandPolicyDecision.Gray
                  then case cd_gray_target draft of
                         None \<Rightarrow> Err ''gray command rule requires gray_target''
                       | Some target \<Rightarrow>
                           if target = owner then Err ''gray command rule cannot target its policy owner''
                           else Ok ()
                  else Ok ()) (\<lambda>_.
     Ok draft))))"

text \<open>
  The sequence number is taken once the draft is accepted, and kept when a later check
  fails.
\<close>

definition command_upsert_item ::
    "Host \<Rightarrow> CommandPolicyStore \<Rightarrow> string \<Rightarrow> (string, StoredCommandRule) btree_map
      \<Rightarrow> CommandPolicyPatchItem \<Rightarrow> u64 \<Rightarrow> CommandPolicyRulesApplyGrant list
      \<Rightarrow> CommandPolicyStore \<times> (string, StoredCommandRule) btree_map \<times> (string + unit)" where
  "command_upsert_item host st owner rules item next_revision grants =
     (case command_check_draft owner item grants of
        Inl e \<Rightarrow> (st, rules, Err e)
      | Inr draft \<Rightarrow>
     (case checked_add_u64 (cs_next_sequence st) 1 of
        None \<Rightarrow> (st, rules, Err ''command policy sequence overflow'')
      | Some sequence \<Rightarrow>
          (let st = st\<lparr>cs_next_sequence := sequence\<rparr>
           in case bind_result (command_from_draft host owner (ci_rule_id item) draft next_revision
                                 sequence (cs_next_rule_id st)) (\<lambda>rule.
                   bind_result (command_validate_bound_grant host grants rule) (\<lambda>_. Ok rule)) of
                Inl e \<Rightarrow> (st, rules, Err e)
              | Inr rule \<Rightarrow>
                  if ci_rule_id item = None \<and> cd_rule_id draft = None
                  then (case checked_add_u64 (cs_next_rule_id st) 1 of
                          None \<Rightarrow> (st, rules, Err ''command policy generated rule id overflow'')
                        | Some next \<Rightarrow>
                            (st\<lparr>cs_next_rule_id := next\<rparr>, bm_insert (sc_rule_id rule) rule rules, Ok ()))
                  else (st, bm_insert (sc_rule_id rule) rule rules, Ok ()))))"

definition command_apply_item ::
    "Host \<Rightarrow> CommandPolicyStore \<Rightarrow> string \<Rightarrow> (string, StoredCommandRule) btree_map
      \<Rightarrow> CommandPolicyPatchItem \<Rightarrow> u64 \<Rightarrow> CommandPolicyRulesApplyGrant list
      \<Rightarrow> CommandPolicyStore \<times> (string, StoredCommandRule) btree_map \<times> (string + unit)" where
  "command_apply_item host st owner rules item next_revision grants =
     (case ci_op item of
        CommandPolicyPatchOp.Delete \<Rightarrow> (st, command_delete_item rules item)
      | CommandPolicyPatchOp.Upsert \<Rightarrow>
          command_upsert_item host st owner rules item next_revision grants)"

fun command_apply_items ::
    "Host \<Rightarrow> string \<Rightarrow> u64 \<Rightarrow> CommandPolicyRulesApplyGrant list \<Rightarrow> nat
      \<Rightarrow> CommandPolicyPatchItem list \<Rightarrow> CommandPolicyStore \<Rightarrow> (string, StoredCommandRule) btree_map
      \<Rightarrow> CommandPolicyApplyError list
      \<Rightarrow> CommandPolicyStore \<times> (string, StoredCommandRule) btree_map \<times> CommandPolicyApplyError list" where
  "command_apply_items host owner next_revision grants index [] st rules errors = (st, rules, errors)"
| "command_apply_items host owner next_revision grants index (item # items) st rules errors =
     (case command_apply_item host st owner rules item next_revision grants of
        (st, rules, Inl message) \<Rightarrow>
          command_apply_items host owner next_revision grants (index + 1) items st rules
            (errors @ [command_apply_error (of_nat index) ''invalid-rule'' message])
      | (st, rules, Inr _) \<Rightarrow>
          command_apply_items host owner next_revision grants (index + 1) items st rules errors)"

definition command_candidate_after ::
    "Host \<Rightarrow> JsonCodec \<Rightarrow> CommandPolicyStore \<Rightarrow> string \<Rightarrow> CommandPolicyRulesApplyGrant list
      \<Rightarrow> CommandPolicyApplyRequest \<Rightarrow> CommandPolicyApplyError list + CommandPolicyStore" where
  "command_candidate_after host json st owner grants request =
     (let request_errors = command_validate_request (cs_revision st) owner request
      in if request_errors \<noteq> [] then Err request_errors
         else case checked_add_u64 (cs_revision st) 1 of
           None \<Rightarrow> Err [command_apply_error 0 ''revision-overflow'' ''command policy revision overflow'']
         | Some next_revision \<Rightarrow>
     (let candidate = st\<lparr>cs_by_owner := bm_remove owner (cs_by_owner st)\<rparr>;
          (candidate, owner_rules, errors) =
            command_apply_items host owner next_revision grants 0 (cq_items request) candidate
              (command_owner_rules st owner) [];
          errors = (if errors = []
                    then case validate_owner_rules json owner owner_rules of
                           Inl message \<Rightarrow> [command_apply_error 0 ''duplicate-scope'' message]
                         | Inr _ \<Rightarrow> []
                    else errors)
      in if errors \<noteq> [] then Err errors
         else
           (let by_owner = (if bm_entries owner_rules = []
                            then bm_remove owner (cs_by_owner candidate)
                            else bm_insert owner owner_rules (cs_by_owner candidate))
            in Ok (command_rebuild_effective
                 (candidate\<lparr>cs_by_owner := by_owner, cs_revision := next_revision\<rparr>)))))"

definition command_validate_apply ::
    "Host \<Rightarrow> JsonCodec \<Rightarrow> CommandPolicyStore \<Rightarrow> string \<Rightarrow> CommandPolicyRulesApplyGrant list
      \<Rightarrow> CommandPolicyApplyRequest \<Rightarrow> CommandPolicyApplyResult" where
  "command_validate_apply host json st owner grants request =
     (case command_candidate_after host json st owner grants request of
        Inr _ \<Rightarrow> command_accepted_result (cs_revision st) (of_nat (length (cq_items request)))
      | Inl errors \<Rightarrow> command_rejected_result (cs_revision st) errors)"

definition command_apply ::
    "Host \<Rightarrow> JsonCodec \<Rightarrow> CommandPolicyStore \<Rightarrow> string \<Rightarrow> CommandPolicyRulesApplyGrant list
      \<Rightarrow> CommandPolicyApplyRequest \<Rightarrow> CommandPolicyStore \<times> CommandPolicyApplyResult" where
  "command_apply host json st owner grants request =
     (case command_candidate_after host json st owner grants request of
        Inr candidate \<Rightarrow>
          (candidate, command_accepted_result (cs_revision candidate) (of_nat (length (cq_items request))))
      | Inl errors \<Rightarrow> (st, command_rejected_result (cs_revision st) errors))"

definition command_remove_owner ::
    "CommandPolicyStore \<Rightarrow> string \<Rightarrow> CommandPolicyStore \<times> (string + bool)" where
  "command_remove_owner st owner =
     (if owner = command_static_owner
      then (st, Err ''static command policy owner cannot be removed'')
      else if bm_get (cs_by_owner st) owner = None then (st, Ok False)
      else
        (let st = st\<lparr>cs_by_owner := bm_remove owner (cs_by_owner st)\<rparr>
         in case checked_add_u64 (cs_revision st) 1 of
              None \<Rightarrow> (st, Err ''command policy revision overflow'')
            | Some revision \<Rightarrow>
                (command_rebuild_effective (st\<lparr>cs_revision := revision\<rparr>), Ok True)))"

end
