(* ===== verification/Command_System.thy ===== *)
theory Command_System
  imports Command_Policy Policy_Lookup
begin

text \<open>
  The command policy store as a system: the effect of a patch on the stored rules, the
  invariant of the published stores, and the store as a decision table.
\<close>

section \<open>Stored rules\<close>

definition command_stored :: "CommandPolicyStore \<Rightarrow> string \<Rightarrow> string \<Rightarrow> StoredCommandRule option" where
  "command_stored st owner rid = bm_get (command_owner_rules st owner) rid"

lemma command_all_rules_iff:
  "r \<in> set (command_all_rules st) \<longleftrightarrow> (\<exists>owner rid. command_stored st owner rid = Some r)"
proof -
  have "r \<in> set (command_all_rules st)
      \<longleftrightarrow> (\<exists>o' rs i. bm_get (cs_by_owner st) o' = Some rs \<and> bm_get rs i = Some r)"
    using nested_values_iff [of r "cs_by_owner st"]
    by (simp add: command_all_rules_def nested_values_def)
  also have "\<dots> \<longleftrightarrow> (\<exists>owner rid. command_stored st owner rid = Some r)"
    unfolding command_stored_def command_owner_rules_def
    by (intro arg_cong [of _ _ Ex] ext) (auto split: option.splits)
  finally show ?thesis .
qed

lemma command_stored_rebuild [simp]:
  "command_stored (command_rebuild_effective st) o' i = command_stored st o' i"
  "command_stored (st\<lparr>cs_revision := n\<rparr>) o' i = command_stored st o' i"
  "command_stored (st\<lparr>cs_next_sequence := n\<rparr>) o' i = command_stored st o' i"
  by (simp_all add: command_stored_def command_owner_rules_def command_rebuild_effective_def)

section \<open>The effective rules\<close>

definition group_at :: "(Component list, StoredCommandRule list) btree_map \<Rightarrow> Component list \<Rightarrow> StoredCommandRule list" where
  "group_at m key = (case bm_get m key of None \<Rightarrow> [] | Some rules \<Rightarrow> rules)"

lemma group_at_fold:
  "group_at (fold group_rule rules m) key
     = group_at m key @ filter (\<lambda>r. path_components (sc_execution_executable r) = key) rules"
proof (induction rules arbitrary: m)
  case (Cons r rules)
  have "group_at (group_rule r m) key
      = group_at m key @ (if path_components (sc_execution_executable r) = key then [r] else [])"
    by (auto simp: group_at_def group_rule_def Let_def)
  with Cons show ?case by simp
qed simp


definition command_effective :: "CommandPolicyStore \<Rightarrow> bool" where
  "command_effective st \<longleftrightarrow>
     cs_effective_by_executable st = cs_effective_by_executable (command_rebuild_effective st)"

lemma rebuild_effective_idem [simp]: "command_effective (command_rebuild_effective st)"
  by (simp add: command_effective_def command_rebuild_effective_def command_all_rules_def)

lemma command_find_sorted:
  assumes "command_effective st"
  shows "command_find st executable args =
    find (\<lambda>r. command_args_matches (sc_args r) args)
      (sort_key command_rule_key
        (filter (\<lambda>r. path_eq (sc_execution_executable r) executable) (command_all_rules st)))"
proof -
  let ?key = "path_components executable"
  let ?groups = "fold group_rule (command_all_rules st) bm_empty"
  have eff: "cs_effective_by_executable st = bm_map_values (sort_key command_rule_key) ?groups"
    using assms by (simp add: command_effective_def command_rebuild_effective_def)
  have at: "group_at ?groups ?key
      = filter (\<lambda>r. path_eq (sc_execution_executable r) executable) (command_all_rules st)"
    by (simp add: group_at_fold path_eq_def) (simp add: group_at_def)
  show ?thesis
    unfolding at [symmetric] command_find_def eff
    by (cases "bm_get ?groups ?key") (simp_all add: group_at_def)
qed

section \<open>The effect of a patch\<close>

text \<open>A rule that a patch of an owner has written, within a grant.\<close>

definition command_made ::
    "Host \<Rightarrow> CommandPolicyRulesApplyGrant list \<Rightarrow> u64 \<Rightarrow> string \<Rightarrow> string \<Rightarrow> StoredCommandRule \<Rightarrow> bool" where
  "command_made host grants rv owner rid r \<longleftrightarrow>
     sc_rule_id r = rid \<and> sc_owner_instance_id r = owner \<and> sc_rule_revision r = rv
     \<and> (\<exists>grant \<in> set grants. command_grant_covers host r grant)"

lemma command_from_draft_Ok:
  "command_from_draft host owner item_id draft rv sq n = Inr r
    \<Longrightarrow> sc_owner_instance_id r = owner \<and> sc_rule_revision r = rv"
  by (auto simp: command_from_draft_def Let_def)

lemma command_bound_grant_Ok:
  "command_validate_bound_grant host grants r = Inr u
    \<Longrightarrow> \<exists>grant \<in> set grants. command_grant_covers host r grant"
  by (auto simp: command_validate_bound_grant_def list_ex_iff split: if_splits)

definition command_patch ::
    "Host \<Rightarrow> CommandPolicyRulesApplyGrant list \<Rightarrow> u64 \<Rightarrow> string
      \<Rightarrow> CommandPolicyStore \<times> (string, StoredCommandRule) btree_map
      \<Rightarrow> CommandPolicyStore \<times> (string, StoredCommandRule) btree_map \<Rightarrow> bool" where
  "command_patch host grants rv owner = (\<lambda>(st, rules) (st', rules').
     cs_by_owner st' = cs_by_owner st \<and> cs_revision st' = cs_revision st
     \<and> (\<forall>rid r. bm_get rules' rid = Some r
          \<longrightarrow> bm_get rules rid = Some r \<or> command_made host grants rv owner rid r))"

lemma command_patch_trans:
  "command_patch host grants rv owner a b \<Longrightarrow> command_patch host grants rv owner b c
    \<Longrightarrow> command_patch host grants rv owner a c"
  by (cases a; cases b; cases c) (simp add: command_patch_def, blast)

lemma command_upsert_effect:
  assumes "command_upsert_item host st owner rules item rv grants = (st', rules', out)"
  shows "command_patch host grants rv owner (st, rules) (st', rules')"
proof (cases "rules' = rules")
  case True
  with assms show ?thesis
    by (auto simp: command_upsert_item_def command_patch_def Let_def split: sum.splits option.splits if_splits)
next
  case False
  with assms obtain draft sq n r where
    made: "command_from_draft host owner (ci_rule_id item) draft rv sq n = Inr r"
      "command_validate_bound_grant host grants r = Inr ()"
    and upd: "rules' = bm_insert (sc_rule_id r) r rules" "cs_by_owner st' = cs_by_owner st"
      "cs_revision st' = cs_revision st"
    by (auto simp: command_upsert_item_def Let_def split: sum.splits option.splits if_splits)
  have "command_made host grants rv owner (sc_rule_id r) r"
    using command_from_draft_Ok [OF made(1)] command_bound_grant_Ok [OF made(2)]
    by (simp add: command_made_def)
  with upd show ?thesis by (simp add: command_patch_def)
qed

lemma command_apply_item_effect:
  assumes "command_apply_item host st owner rules item rv grants = (st', rules', out)"
  shows "command_patch host grants rv owner (st, rules) (st', rules')"
proof (cases "ci_op item")
  case Upsert
  with assms show ?thesis by (intro command_upsert_effect) (simp add: command_apply_item_def)
next
  case Delete
  with assms show ?thesis
    by (auto simp: command_apply_item_def command_delete_item_def command_patch_def
        split: if_splits option.splits)
qed

lemma command_apply_items_effect:
  "command_apply_items host owner rv grants i items st rules errs = (st', rules', errs')
    \<Longrightarrow> command_patch host grants rv owner (st, rules) (st', rules')"
proof (induction items arbitrary: i st rules errs)
  case Nil
  then show ?case by (simp add: command_patch_def)
next
  case (Cons item items)
  obtain st1 rules1 out where item: "command_apply_item host st owner rules item rv grants = (st1, rules1, out)"
    by (cases "command_apply_item host st owner rules item rv grants")
  with Cons.prems obtain errs1 where
    "command_apply_items host owner rv grants (i + 1) items st1 rules1 errs1 = (st', rules', errs')"
    by (cases out) auto
  with item show ?case by (blast intro: command_patch_trans command_apply_item_effect Cons.IH)
qed

section \<open>Distinct scopes\<close>

abbreviation scope_of :: "StoredCommandRule \<Rightarrow> Component list \<times> CommandArgsScope" where
  "scope_of r \<equiv> (path_components (sc_executable r), command_args_logical_scope (sc_args r))"

lemma validate_owner_entries_Ok:
  "validate_owner_entries json owner scopes es = Inr u
    \<Longrightarrow> (\<forall>(k, r) \<in> set es. k = sc_rule_id r) \<and> distinct (map (scope_of \<circ> snd) es)
      \<and> set (map (scope_of \<circ> snd) es) \<inter> set scopes = {}"
  by (induction json owner scopes es rule: validate_owner_entries.induct)
    (auto simp: Let_def split: if_splits)

definition scopes_distinct :: "(string, StoredCommandRule) btree_map \<Rightarrow> bool" where
  "scopes_distinct rules \<longleftrightarrow>
     (\<forall>i j r s. bm_get rules i = Some r \<longrightarrow> bm_get rules j = Some s \<longrightarrow> scope_of r = scope_of s \<longrightarrow> i = j)"

lemma validate_owner_rules_Ok:
  assumes "validate_owner_rules json owner rules = Inr u"
  shows "bm_get rules i = Some r \<Longrightarrow> sc_rule_id r = i" and "scopes_distinct rules"
proof -
  note ok = validate_owner_entries_Ok [OF assms [unfolded validate_owner_rules_def]]
  show "sc_rule_id r = i" if "bm_get rules i = Some r"
    using ok that by (force simp: bm_entries_iff [symmetric])
  have inj: "inj_on (scope_of \<circ> snd) (set (bm_entries rules))"
    using ok by (simp add: distinct_map)
  have "i = j" if "bm_get rules i = Some r" "bm_get rules j = Some s" "scope_of r = scope_of s" for i j r s
    using inj_onD [OF inj, of "(i, r)" "(j, s)"] that by (simp add: bm_entries_iff)
  then show "scopes_distinct rules" unfolding scopes_distinct_def by blast
qed

section \<open>The system\<close>

definition command_inv :: "CommandPolicyStore \<Rightarrow> bool" where
  "command_inv st \<longleftrightarrow>
     command_effective st
     \<and> (\<forall>owner rid r. command_stored st owner rid = Some r
          \<longrightarrow> sc_owner_instance_id r = owner \<and> sc_rule_id r = rid \<and> sc_rule_revision r \<le> cs_revision st)
     \<and> (\<forall>owner. scopes_distinct (command_owner_rules st owner))"

lemma command_candidate_Ok:
  assumes "command_candidate_after host json st owner grants request = Inr st'"
  obtains rv rules where "checked_add_u64 (cs_revision st) 1 = Some rv"
    and "cs_revision st' = rv" and "command_effective st'"
    and "owner \<noteq> command_static_owner" and "cq_base_revision request = cs_revision st"
    and "validate_owner_rules json owner rules = Inr ()"
    and "\<And>o'. command_owner_rules st' o' = (if o' = owner then rules else command_owner_rules st o')"
    and "\<And>rid r. bm_get rules rid = Some r
      \<Longrightarrow> command_stored st owner rid = Some r \<or> command_made host grants rv owner rid r"
proof -
  from assms obtain rv where req: "command_validate_request (cs_revision st) owner request = []"
    and rv: "checked_add_u64 (cs_revision st) 1 = Some rv"
    by (auto simp: command_candidate_after_def Let_def split: if_splits option.splits)
  let ?start = "st\<lparr>cs_by_owner := bm_remove owner (cs_by_owner st)\<rparr>"
  obtain cand rules errs where items: "command_apply_items host owner rv grants 0 (cq_items request) ?start
      (command_owner_rules st owner) [] = (cand, rules, errs)"
    by (cases "command_apply_items host owner rv grants 0 (cq_items request) ?start
      (command_owner_rules st owner) []")
  let ?by = "if bm_entries rules = [] then bm_remove owner (cs_by_owner cand)
      else bm_insert owner rules (cs_by_owner cand)"
  from assms req rv items have valid: "validate_owner_rules json owner rules = Inr ()"
    and st': "st' = command_rebuild_effective (cand\<lparr>cs_by_owner := ?by, cs_revision := rv\<rparr>)"
    by (auto simp: command_candidate_after_def Let_def split: if_splits sum.splits)
  from command_apply_items_effect [OF items]
  have bo: "cs_by_owner cand = bm_remove owner (cs_by_owner st)"
    and made: "\<And>rid r. bm_get rules rid = Some r
      \<Longrightarrow> bm_get (command_owner_rules st owner) rid = Some r \<or> command_made host grants rv owner rid r"
    by (simp_all add: command_patch_def)
  have "rules = bm_empty" if "bm_entries rules = []" using that by (metis bm_empty.rep_eq bm_entries_inject)
  then have "command_owner_rules st' o' = (if o' = owner then rules else command_owner_rules st o')" for o'
    by (auto simp: st' bo command_owner_rules_def command_rebuild_effective_def)
  moreover have "owner \<noteq> command_static_owner" "cq_base_revision request = cs_revision st"
    using req by (auto simp: command_validate_request_def split: if_splits)
  moreover have "command_effective st'" unfolding st' by (rule rebuild_effective_idem)
  moreover have "cs_revision st' = rv" by (simp add: st' command_rebuild_effective_def)
  ultimately show ?thesis
    using rv valid made by (intro that [of rv rules]) (simp_all add: command_stored_def)
qed



lemma command_apply_cases:
  assumes "command_apply host json st owner grants request = (st', res)"
  obtains (rejected) "st' = st" and "ca_status res = CommandPolicyApplyStatus.Rejected"
  | (accepted) "command_candidate_after host json st owner grants request = Inr st'"
      and "ca_status res = CommandPolicyApplyStatus.Accepted"
  using assms
  by (cases "command_candidate_after host json st owner grants request")
    (auto simp: command_apply_def command_accepted_result_def command_rejected_result_def)

lemma checked_step:
  assumes "checked_add_u64 n 1 = Some m"
  shows "n < m"
  using checked_add_u64_Some [OF assms] by (simp add: word_less_nat_alt)

lemma command_candidate_change:
  assumes cand: "command_candidate_after host json st owner grants request = Inr st'"
  shows "cs_revision st < cs_revision st'"
    and "command_stored st' o' rid = Some r \<Longrightarrow>
      command_stored st o' rid = Some r \<or> o' = owner \<and> command_made host grants (cs_revision st') owner rid r"
    and "o' \<noteq> owner \<Longrightarrow> command_stored st' o' rid = command_stored st o' rid"
proof -
  from cand obtain rv rules where rv: "checked_add_u64 (cs_revision st) 1 = Some rv"
    and rev: "cs_revision st' = rv"
    and at: "\<And>o'. command_owner_rules st' o' = (if o' = owner then rules else command_owner_rules st o')"
    and made: "\<And>rid r. bm_get rules rid = Some r
      \<Longrightarrow> command_stored st owner rid = Some r \<or> command_made host grants rv owner rid r"
    by (rule command_candidate_Ok) blast
  show "cs_revision st < cs_revision st'" unfolding rev using rv by (rule checked_step)
  show "command_stored st o' rid = Some r \<or> o' = owner \<and> command_made host grants (cs_revision st') owner rid r"
    if "command_stored st' o' rid = Some r"
    using that made [of rid r] unfolding command_stored_def at rev by (cases "o' = owner") auto
  show "command_stored st' o' rid = command_stored st o' rid" if "o' \<noteq> owner"
    using that by (simp add: command_stored_def at)
qed

lemma command_candidate_inv:
  assumes inv: "command_inv st" and cand: "command_candidate_after host json st owner grants request = Inr st'"
  shows "command_inv st'"
proof -
  from cand obtain rules where eff: "command_effective st'"
    and valid: "validate_owner_rules json owner rules = Inr ()"
    and at: "\<And>o'. command_owner_rules st' o' = (if o' = owner then rules else command_owner_rules st o')"
    by (rule command_candidate_Ok) blast
  have "sc_owner_instance_id r = o' \<and> sc_rule_id r = rid \<and> sc_rule_revision r \<le> cs_revision st'"
    if "command_stored st' o' rid = Some r" for o' rid r
    using command_candidate_change(2) [OF cand that]
  proof
    assume "command_stored st o' rid = Some r"
    with inv have "sc_owner_instance_id r = o' \<and> sc_rule_id r = rid \<and> sc_rule_revision r \<le> cs_revision st"
      by (simp add: command_inv_def)
    with command_candidate_change(1) [OF cand] show ?thesis by auto
  qed (simp add: command_made_def)
  moreover have "scopes_distinct (command_owner_rules st' o')" for o'
    using inv validate_owner_rules_Ok(2) [OF valid] by (simp add: at command_inv_def)
  ultimately show ?thesis using eff by (simp add: command_inv_def)
qed

lemma command_remove_Ok:
  assumes "command_remove_owner st owner = (st', Inr b)"
  obtains (absent) "st' = st" and "\<not> b"
  | (removed) rv where "checked_add_u64 (cs_revision st) 1 = Some rv" and "cs_revision st' = rv" and b
      and "command_effective st'" and "owner \<noteq> command_static_owner"
      and "\<And>o'. command_owner_rules st' o' = (if o' = owner then bm_empty else command_owner_rules st o')"
proof (cases "bm_get (cs_by_owner st) owner")
  case None
  with assms have "st' = st \<and> \<not> b" by (simp add: command_remove_owner_def split: if_splits)
  then show ?thesis using absent by blast
next
  case (Some rules)
  have static: "owner \<noteq> command_static_owner" using assms by (auto simp: command_remove_owner_def)
  let ?st = "\<lambda>rv. st\<lparr>cs_by_owner := bm_remove owner (cs_by_owner st), cs_revision := rv\<rparr>"
  from assms Some static obtain rv where rv: "checked_add_u64 (cs_revision st) 1 = Some rv"
    by (cases "checked_add_u64 (cs_revision st) 1") (simp_all add: command_remove_owner_def)
  with assms Some static have b and st': "st' = command_rebuild_effective (?st rv)"
    by (simp_all add: command_remove_owner_def)
  have "command_owner_rules st' o' = (if o' = owner then bm_empty else command_owner_rules st o')" for o'
    by (simp add: st' command_owner_rules_def command_rebuild_effective_def)
  moreover have "command_effective st'" unfolding st' by (rule rebuild_effective_idem)
  moreover have "cs_revision st' = rv" by (simp add: st' command_rebuild_effective_def)
  ultimately show ?thesis using removed rv \<open>b\<close> static by blast
qed

lemma command_remove_inv:
  assumes inv: "command_inv st" and rem: "command_remove_owner st owner = (st', Inr b)"
  shows "command_inv st'"
  using rem
proof (cases rule: command_remove_Ok)
  case (removed rv)
  have less: "cs_revision st < rv" using removed(1) by (rule checked_step)
  have "sc_owner_instance_id r = o' \<and> sc_rule_id r = rid \<and> sc_rule_revision r \<le> rv"
    if "command_stored st' o' rid = Some r" for o' rid r
  proof -
    from that have "command_stored st o' rid = Some r"
      by (simp add: command_stored_def removed(6) split: if_splits)
    with inv have "sc_owner_instance_id r = o' \<and> sc_rule_id r = rid \<and> sc_rule_revision r \<le> cs_revision st"
      by (simp add: command_inv_def)
    with less show ?thesis by auto
  qed
  moreover have "scopes_distinct (command_owner_rules st' o')" for o'
    using inv by (simp add: removed(6) command_inv_def) (simp add: scopes_distinct_def)
  ultimately show ?thesis using removed by (simp add: command_inv_def)
qed (use inv in simp)

lemma parse_static_command_owner:
  "parse_static_command host json line sq = Inr r \<Longrightarrow> sc_owner_instance_id r = command_static_owner"
  by (auto simp: parse_static_command_def dest!: command_from_draft_Ok split: option.splits prod.splits)

lemma command_load_lines_owner:
  "command_load_lines host json path i ls sq rules = Inr (sq', rules')
    \<Longrightarrow> (\<And>rid r. bm_get rules rid = Some r \<Longrightarrow> sc_owner_instance_id r = command_static_owner)
    \<Longrightarrow> bm_get rules' rid = Some r \<Longrightarrow> sc_owner_instance_id r = command_static_owner"
proof (induction host json path i ls sq rules rule: command_load_lines.induct)
  case (2 host json path i raw ls sq rules)
  show ?case
  proof (cases "trim raw = [] \<or> hd (trim raw) = CHR ''#''")
    case True
    with 2 show ?thesis by (simp add: Let_def)
  next
    case False
    with "2.prems"(1) obtain sq1 rule where sq: "checked_add_u64 sq 1 = Some sq1"
      and rule: "parse_static_command host json (trim raw) sq1 = Inr rule"
      and fresh: "bm_get rules (sc_rule_id rule) = None"
      and rest: "command_load_lines host json path (i + 1) ls sq1 (bm_insert (sc_rule_id rule) rule rules)
        = Inr (sq', rules')"
      by (auto simp: Let_def split: option.splits if_splits)
    show ?thesis
    proof (rule "2.IH"(2) [OF refl False sq _ rest])
      show "\<not> bm_get rules (sc_rule_id rule) \<noteq> None" using fresh by simp
      show "sc_owner_instance_id r = command_static_owner"
        if "bm_get (bm_insert (sc_rule_id rule) rule rules) rid = Some r" for rid r
        using that "2.prems"(2) parse_static_command_owner [OF rule] by (auto split: if_splits)
    qed (fact "2.prems"(3))
  qed
qed simp

lemma command_load_inv:
  assumes "command_store_load host json content path = Inr st"
  shows "command_inv st"
proof -
  from assms obtain raw sq rules where
    lines: "command_load_lines host json path 0 (text_lines raw) (cs_next_sequence command_store_empty) bm_empty
      = Inr (sq, rules)"
    and valid: "validate_owner_rules json command_static_owner rules = Inr ()"
    and st: "st = (if bm_entries rules = [] then command_store_empty\<lparr>cs_next_sequence := sq\<rparr>
      else command_rebuild_effective (command_store_empty\<lparr>cs_next_sequence := sq, cs_revision := 1,
        cs_by_owner := bm_insert command_static_owner
          (bm_map_values (\<lambda>r. r\<lparr>sc_rule_revision := 1\<rparr>) rules) bm_empty\<rparr>))"
    by (auto simp: command_store_load_def Let_def split: if_splits)
  have own: "sc_owner_instance_id r = command_static_owner" "sc_rule_id r = rid"
    if "bm_get rules rid = Some r" for rid r
    using command_load_lines_owner [OF lines _ that] validate_owner_rules_Ok(1) [OF valid that] by simp_all
  show ?thesis
  proof (cases "bm_entries rules = []")
    case True
    then show ?thesis
      by (simp add: st command_inv_def command_stored_def command_owner_rules_def command_store_empty_def
          command_effective_def command_rebuild_effective_def command_all_rules_def scopes_distinct_def
          bm_values_def bm_empty.rep_eq)
        (rule bm_ext, simp)
  next
    case False
    have at: "command_owner_rules st o' = (if o' = command_static_owner
        then bm_map_values (\<lambda>r. r\<lparr>sc_rule_revision := 1\<rparr>) rules else bm_empty)" for o'
      using False by (simp add: st command_owner_rules_def command_rebuild_effective_def)
    have "scopes_distinct (bm_map_values (\<lambda>r. r\<lparr>sc_rule_revision := 1\<rparr>) rules)"
      using validate_owner_rules_Ok(2) [OF valid] by (auto simp: scopes_distinct_def)
    moreover have "command_effective st" using False by (simp add: st)
    moreover have "cs_revision st = 1" using False by (simp add: st command_rebuild_effective_def)
    moreover have "sc_owner_instance_id r = o' \<and> sc_rule_id r = rid \<and> sc_rule_revision r = 1"
      if "command_stored st o' rid = Some r" for o' rid r
      using that own [of rid] by (auto simp: command_stored_def at split: if_splits)
    moreover have "scopes_distinct bm_empty" by (simp add: scopes_distinct_def)
    ultimately show ?thesis by (simp add: command_inv_def at)
  qed
qed

definition command_start :: "CommandPolicyStore \<Rightarrow> bool" where
  "command_start st \<longleftrightarrow> (\<exists>host json content path. command_store_load host json content path = Ok st)"

text \<open>
  The steps of the store. The removal of an owner is a step when it succeeds. It can fail in two ways: for the static
  owner, which changes nothing, and at the largest revision, where the store is left with its table of
  effective rules not rebuilt; no step leads there.
\<close>

inductive command_step :: "CommandPolicyStore \<Rightarrow> CommandPolicyStore \<Rightarrow> bool" where
  applied: "command_apply host json st owner grants request = (st', res) \<Longrightarrow> command_step st st'"
| removed: "command_remove_owner st owner = (st', Ok b) \<Longrightarrow> command_step st st'"

lemma command_step_change:
  assumes "command_step s t"
  shows "t = s \<or> cs_revision s < cs_revision t \<and> (\<forall>owner rid r. command_stored t owner rid = Some r
      \<longrightarrow> command_stored s owner rid = Some r \<or> cs_revision s < sc_rule_revision r)"
  using assms
proof cases
  case (applied host json owner grants request res)
  from applied(1) show ?thesis
  proof (cases rule: command_apply_cases)
    case accepted
    have "cs_revision s < sc_rule_revision r \<or> command_stored s o' rid = Some r"
      if "command_stored t o' rid = Some r" for o' rid r
      using command_candidate_change(1) [OF accepted(1)] command_candidate_change(2) [OF accepted(1) that]
      by (auto simp: command_made_def)
    with command_candidate_change(1) [OF accepted(1)] show ?thesis by blast
  qed simp
next
  case (removed owner b)
  from removed(1) show ?thesis
    by (cases rule: command_remove_Ok) (auto simp: command_stored_def dest: checked_step)
qed

interpretation command_rules: revisioned_store command_start command_step command_inv
  "\<lambda>st (owner, rid). command_stored st owner rid" cs_revision sc_rule_revision
proof
  show "command_inv s" if "command_start s" for s
    using that unfolding command_start_def by (blast intro: command_load_inv)
  show "command_inv t" if "command_inv s" "command_step s t" for s t
    using that(2)
  proof cases
    case applied
    then show ?thesis
      by (cases rule: command_apply_cases) (use that(1) in \<open>auto intro: command_candidate_inv\<close>)
  qed (use that(1) in \<open>auto intro: command_remove_inv\<close>)
  show "sc_rule_revision r \<le> cs_revision s"
    if "command_inv s" "(case n of (owner, rid) \<Rightarrow> command_stored s owner rid) = Some r" for s n r
    using that by (cases n) (simp add: command_inv_def)
  fix s t n r
  assume "command_inv s" and "command_step s t"
  then show "cs_revision s \<le> cs_revision t" using command_step_change by fastforce
next
  fix s t n r
  assume "command_step s t" and "(case n of (owner, rid) \<Rightarrow> command_stored t owner rid) = Some r"
  then show "(case n of (owner, rid) \<Rightarrow> command_stored s owner rid) = Some r \<or> cs_revision s < sc_rule_revision r"
    using command_step_change [of s t] by (cases n) auto
qed

abbreviation command_reachable :: "CommandPolicyStore \<Rightarrow> bool" where
  "command_reachable \<equiv> reachable command_start command_step"

section \<open>The command policy as a decision table\<close>

definition command_rules_of :: "CommandPolicyStore \<Rightarrow> StoredCommandRule set" where
  "command_rules_of st = {r. \<exists>owner rid. command_stored st owner rid = Some r}"

fun command_matches :: "StoredCommandRule \<Rightarrow> PathBuf \<times> string list \<Rightarrow> bool" where
  "command_matches r (executable, args) \<longleftrightarrow>
     path_eq (sc_execution_executable r) executable \<and> command_args_matches (sc_args r) args"

definition command_beats :: "StoredCommandRule \<Rightarrow> StoredCommandRule \<Rightarrow> bool" where
  "command_beats r r' \<longleftrightarrow>
     sint (sc_priority r') < sint (sc_priority r)
     \<or> sc_priority r' = sc_priority r
       \<and> (sc_updated_sequence r' < sc_updated_sequence r
          \<or> sc_updated_sequence r' = sc_updated_sequence r
            \<and> (sc_owner_instance_id r, sc_rule_id r) < (sc_owner_instance_id r', sc_rule_id r'))"

lemma command_beats_key: "command_beats r r' \<longleftrightarrow> command_rule_key r < command_rule_key r'"
  by (auto simp: command_beats_def command_rule_key_def word_less_def intro: signed_word_eqI unsigned_word_eqI)

lemma command_names:
  assumes "command_inv st"
  shows "sorted (map (\<lambda>r. (sc_owner_instance_id r, sc_rule_id r)) (command_all_rules st))"
    and "distinct (map (\<lambda>r. (sc_owner_instance_id r, sc_rule_id r)) (command_all_rules st))"
proof -
  let ?name = "\<lambda>r. (sc_owner_instance_id r, sc_rule_id r)"
  have name: "?name r = (o', i)" if "bm_get (cs_by_owner st) o' = Some rs" "bm_get rs i = Some r" for o' rs i r
  proof -
    from that have "command_stored st o' i = Some r" by (simp add: command_stored_def command_owner_rules_def)
    with assms show ?thesis by (simp add: command_inv_def)
  qed
  have all: "command_all_rules st = nested_values (cs_by_owner st)"
    by (simp add: command_all_rules_def nested_values_def)
  show "sorted (map ?name (command_all_rules st))" and "distinct (map ?name (command_all_rules st))"
    unfolding all using name by (intro nested_values_sorted; blast)+
qed

interpretation command_table: decision_table command_inv command_rules_of command_matches command_beats
  "\<lambda>st (executable, args). command_find st executable args"
proof
  fix st and q :: "PathBuf \<times> string list" and r
  assume inv: "command_inv st"
  obtain executable args where q: "q = (executable, args)" by (cases q)
  let ?rules = "filter (\<lambda>r. path_eq (sc_execution_executable r) executable) (command_all_rules st)"
  have find: "(case q of (executable, args) \<Rightarrow> command_find st executable args)
      = find (\<lambda>r. command_args_matches (sc_args r) args) (sort_key command_rule_key ?rules)"
    using inv by (simp add: q command_find_sorted command_inv_def)
  have rules: "r' \<in> command_rules_of st \<and> command_matches r' q
      \<longleftrightarrow> r' \<in> set ?rules \<and> command_args_matches (sc_args r') args" for r'
    by (auto simp: command_rules_of_def q command_all_rules_iff)
  {
    assume "(case q of (executable, args) \<Rightarrow> command_find st executable args) = Some r"
    then have found: "find (\<lambda>r. command_args_matches (sc_args r) args) (sort_key command_rule_key ?rules) = Some r"
      by (simp add: find)
    have "r' = r \<or> command_beats r r'" if "r' \<in> command_rules_of st" "command_matches r' q" for r'
      using find_sort_key_best [OF sorted_filter [OF command_names(1) [OF inv]]
          distinct_map_filter [OF command_names(2) [OF inv]] found, of r'] rules [of r'] that
      by (auto simp: command_beats_key command_rule_key_def)
    with find_sort_key_mem [OF found] rules [of r]
    show "r \<in> command_rules_of st \<and> command_matches r q
      \<and> (\<forall>r' \<in> command_rules_of st. command_matches r' q \<longrightarrow> r' = r \<or> command_beats r r')" by blast
  next
    assume "(case q of (executable, args) \<Rightarrow> command_find st executable args) = None"
      and "r \<in> command_rules_of st"
    then show "\<not> command_matches r q" using rules [of r] by (auto simp: find find_sort_key_None)
  }
qed (auto simp: command_beats_key)


end
