(* ===== verification/Command_Properties.thy ===== *)
theory Command_Properties
  imports Command_System Path_Properties
begin

text \<open>Properties of the command policy.\<close>

section \<open>An example\<close>

text \<open>A codec that knows one array, for static rules that use it.\<close>

definition example_json :: JsonCodec where
  "example_json =
     \<lparr>json_read_strings = (\<lambda>s. if s = ''[]'' then Ok [] else Err ''expected value''),
      json_write_strings = (\<lambda>_. ''[]'')\<rparr>"

definition command_example_store :: CommandPolicyStore where
  "command_example_store = projr (command_store_load bare_host example_json
     (Ok (''s1 allow exec /bin/sh priority 5'' @ [CHR 0x0A] @ ''s2 deny exec /bin/sh args-json [] priority 7'')) ''/rules'')"

definition command_example_grants :: "CommandPolicyRulesApplyGrant list" where
  "command_example_grants = [\<lparr>cg_decision = CommandPolicyDecision.Deny, cg_path_scope = ''/usr/**''\<rparr>]"

definition command_example_request :: CommandPolicyApplyRequest where
  "command_example_request =
     \<lparr>cq_base_revision = 1, cq_mutation_id = ''m'', cq_reason = None,
      cq_items = [\<lparr>ci_op = CommandPolicyPatchOp.Upsert, ci_rule_id = None,
        ci_rule = Some \<lparr>cd_rule_id = None, cd_decision = CommandPolicyDecision.Deny,
          cd_executable = ''/usr/bin/curl'', cd_args = Some [''-k'', ''*''], cd_gray_target = None,
          cd_priority = 1\<rparr>\<rparr>]\<rparr>"

definition command_example_patched :: CommandPolicyStore where
  "command_example_patched =
     fst (command_apply bare_host example_json command_example_store ''p'' command_example_grants
       command_example_request)"

lemma command_example_load:
  "command_store_load bare_host example_json
     (Ok (''s1 allow exec /bin/sh priority 5'' @ [CHR 0x0A] @ ''s2 deny exec /bin/sh args-json [] priority 7''))
     ''/rules'' = Ok command_example_store"
proof -
  have "\<not> isl (command_store_load bare_host example_json
     (Ok (''s1 allow exec /bin/sh priority 5'' @ [CHR 0x0A] @ ''s2 deny exec /bin/sh args-json [] priority 7''))
     ''/rules'')" by code_simp
  then show ?thesis by (simp add: command_example_store_def)
qed

lemma command_example_step:
  "command_apply bare_host example_json command_example_store ''p'' command_example_grants command_example_request
     = (command_example_patched, \<lparr>ca_status = CommandPolicyApplyStatus.Accepted, ca_new_revision = 2,
         ca_applied_count = 1, ca_rejected_count = 0, ca_errors = []\<rparr>)"
proof -
  have "snd (command_apply bare_host example_json command_example_store ''p'' command_example_grants
      command_example_request) = \<lparr>ca_status = CommandPolicyApplyStatus.Accepted, ca_new_revision = 2,
         ca_applied_count = 1, ca_rejected_count = 0, ca_errors = []\<rparr>" by code_simp
  then show ?thesis unfolding command_example_patched_def by (metis prod.collapse)
qed

lemma command_example_reachable: "command_reachable command_example_store" "command_reachable command_example_patched"
proof -
  show start: "command_reachable command_example_store"
    using command_example_load unfolding command_start_def by (blast intro: reachable.intros)
  show "command_reachable command_example_patched"
    by (rule reachable.intros(2) [OF start command_step.applied [OF command_example_step]])
qed

section \<open>Properties\<close>

text \<open>
  (C24) A command lookup answers with the stored rule for the executable and arguments that
  takes precedence: higher priority, then later change, then the order of owners and identifiers.
\<close>

theorem command_find_decides:
  assumes "command_reachable st"
  shows "command_find st executable args = Some r \<longleftrightarrow>
    r \<in> command_rules_of st \<and> command_matches r (executable, args)
    \<and> (\<forall>r' \<in> command_rules_of st. command_matches r' (executable, args) \<longrightarrow> r' = r \<or> command_beats r r')"
  using command_table.lookup_iff [OF command_rules.reachable_inv [OF assms], of "(executable, args)"] by simp

theorem command_find_decides_witness:
  "\<exists>r \<in> command_rules_of command_example_store. sc_rule_id r = ''s2'' \<and> command_matches r (''/bin/sh'', [])"
proof -
  have "map_option sc_rule_id (command_find command_example_store ''/bin/sh'' []) = Some ''s2''" by code_simp
  then obtain r where "command_find command_example_store ''/bin/sh'' [] = Some r" "sc_rule_id r = ''s2''" by auto
  then show ?thesis using command_find_decides [OF command_example_reachable(1)] by blast
qed

text \<open>
  (C25) Where the store says that no arguments are needed for an executable, the answer is the
  same for all arguments, so a caller may leave them out.
\<close>

theorem args_not_needed:
  assumes "\<not> requires_args st executable"
  shows "command_find st executable args = command_find st executable args'"
proof -
  have always: "command_args_matches p a" if "\<not> requires_snapshot p" for p a
    using that by (cases p) (simp_all add: starts_with_def)
  show ?thesis
  proof (cases "bm_get (cs_effective_by_executable st) (path_components executable)")
    case (Some rules)
    with assms have "\<forall>r \<in> set rules. \<not> requires_snapshot (sc_args r)"
      by (auto simp: requires_args_def list_ex_iff)
    then have "find (\<lambda>r. command_args_matches (sc_args r) args) rules
        = find (\<lambda>r. command_args_matches (sc_args r) args') rules"
      using always by (intro find_cong) auto
    with Some show ?thesis by (simp add: command_find_def)
  qed (simp add: command_find_def)
qed

definition plain_store :: CommandPolicyStore where
  "plain_store = projr (command_store_load bare_host example_json (Ok ''s1 deny exec /bin/cat priority 5'') ''/rules'')"

lemma plain_store_facts:
  "\<not> requires_args plain_store ''/bin/cat'' \<and> \<not> Option.is_none (command_find plain_store ''/bin/cat'' [])"
  by code_simp

theorem args_not_needed_witness:
  "command_find plain_store ''/bin/cat'' [''-l''] = command_find plain_store ''/bin/cat'' []
    \<and> command_find plain_store ''/bin/cat'' [] \<noteq> None"
  using args_not_needed [of plain_store "''/bin/cat''" "[''-l'']" "[]"] plain_store_facts
  by (simp add: Option.is_none_def)

text \<open>
  (C26) A command patch is atomic and confined. A rejected patch changes nothing. An accepted
  patch raises the revision, keeps every rule of other owners, and every rule of its owner afterwards is
  an old one or lies, by name and by its bound target, within a grant for its decision. Validation
  announces the outcome.
\<close>

theorem command_patch_atomic:
  assumes "command_apply host json st owner grants request = (st', res)"
  shows "ca_status (command_validate_apply host json st owner grants request) = ca_status res
    \<and> (if ca_status res = CommandPolicyApplyStatus.Rejected then st' = st
       else cs_revision st < cs_revision st'
         \<and> (\<forall>o' rid. o' \<noteq> owner \<longrightarrow> command_stored st' o' rid = command_stored st o' rid)
         \<and> (\<forall>rid r. command_stored st' owner rid = Some r
              \<longrightarrow> command_stored st owner rid = Some r
                \<or> (\<exists>grant \<in> set grants. command_grant_covers host r grant)))"
  using assms
proof (cases rule: command_apply_cases)
  case rejected
  with assms show ?thesis
    by (auto simp: command_apply_def command_validate_apply_def command_accepted_result_def
        command_rejected_result_def split: sum.splits)
next
  case accepted
  then show ?thesis
    using command_candidate_change [OF accepted(1)]
    by (simp add: command_validate_apply_def command_accepted_result_def) (metis command_made_def)
qed

theorem command_patch_atomic_witness:
  "cs_revision command_example_store < cs_revision command_example_patched"
  using command_patch_atomic [OF command_example_step] by simp

text \<open>
  (C27) A rule that was looked up and is later found current is still the rule in force: over any
  sequence of patches and departures, owner, identifier and revision identify a rule.
\<close>

theorem current_rule_in_force:
  assumes "command_reachable s" and "command_stored s owner rid = Some r"
    and "command_step\<^sup>*\<^sup>* s t" and "command_is_rule_current t r"
  shows "command_stored t owner rid = Some r"
proof -
  note inv = command_rules.reachable_inv [OF assms(1)]
  from inv assms(2) have "sc_owner_instance_id r = owner" "sc_rule_id r = rid" by (simp_all add: command_inv_def)
  with assms(4) obtain r' where r': "command_stored t owner rid = Some r'" "sc_rule_revision r' = sc_rule_revision r"
    by (auto simp: command_is_rule_current_def command_stored_def split: option.splits)
  with command_rules.revision_identifies [OF inv assms(3), of "(owner, rid)" r r'] assms(2) show ?thesis by simp
qed

definition command_example_rule :: StoredCommandRule where
  "command_example_rule = the (command_stored command_example_store ''actrail.static'' ''s1'')"

theorem current_rule_in_force_witness:
  "command_stored command_example_patched ''actrail.static'' ''s1'' = Some command_example_rule"
proof (rule current_rule_in_force)
  show "command_reachable command_example_store" by (rule command_example_reachable)
  have "command_stored command_example_store ''actrail.static'' ''s1'' \<noteq> None" by code_simp
  then show "command_stored command_example_store ''actrail.static'' ''s1'' = Some command_example_rule"
    by (auto simp: command_example_rule_def)
  show "command_step\<^sup>*\<^sup>* command_example_store command_example_patched"
    using command_step.applied [OF command_example_step] by blast
  show "command_is_rule_current command_example_patched command_example_rule" by code_simp
qed

end
