(* ===== verification/Net_Addr.thy ===== *)
theory Net_Addr
  imports Rust_Text
begin

text \<open>
  Internet addresses of the standard library as the network policy uses them: IPv4 and
  IPv6 addresses and socket addresses, their order, their textual form and the parser of it.
  A parser takes the rest of the input and returns a value and what is left.
\<close>

section \<open>Addresses\<close>

type_synonym Ipv4Addr = "u8 \<times> u8 \<times> u8 \<times> u8"

text \<open>The eight segments of an IPv6 address.\<close>

type_synonym Ipv6Addr = "u16 list"

datatype IpAddr = V4 Ipv4Addr | V6 Ipv6Addr

text \<open>A socket address of version 6 has a port, flow information and a scope.\<close>

datatype SocketAddr = SockV4 Ipv4Addr u16 | SockV6 Ipv6Addr u16 u32 u32

fun socket_ip :: "SocketAddr \<Rightarrow> IpAddr" where
  "socket_ip (SockV4 ip _) = V4 ip"
| "socket_ip (SockV6 ip _ _ _) = V6 ip"

fun ip_key :: "IpAddr \<Rightarrow> nat \<times> Ipv4Addr \<times> Ipv6Addr" where
  "ip_key (V4 ip) = (0, ip, [])"
| "ip_key (V6 ip) = (1, (0, 0, 0, 0), ip)"

lemma ip_key_inject [simp]: "ip_key a = ip_key b \<longleftrightarrow> a = b"
  by (cases a; cases b) simp_all

instantiation IpAddr :: linorder
begin

definition less_eq_IpAddr :: "IpAddr \<Rightarrow> IpAddr \<Rightarrow> bool" where
  "less_eq_IpAddr a b \<longleftrightarrow> ip_key a \<le> ip_key b"

definition less_IpAddr :: "IpAddr \<Rightarrow> IpAddr \<Rightarrow> bool" where
  "less_IpAddr a b \<longleftrightarrow> ip_key a < ip_key b"

instance
  by standard (auto simp: less_eq_IpAddr_def less_IpAddr_def less_le)

end

fun socket_key :: "SocketAddr \<Rightarrow> IpAddr \<times> u16 \<times> u32 \<times> u32" where
  "socket_key (SockV4 ip port) = (V4 ip, port, 0, 0)"
| "socket_key (SockV6 ip port flowinfo scope_id) = (V6 ip, port, flowinfo, scope_id)"

lemma socket_key_inject [simp]: "socket_key a = socket_key b \<longleftrightarrow> a = b"
  by (cases a; cases b) auto

instantiation SocketAddr :: linorder
begin

definition less_eq_SocketAddr :: "SocketAddr \<Rightarrow> SocketAddr \<Rightarrow> bool" where
  "less_eq_SocketAddr a b \<longleftrightarrow> socket_key a \<le> socket_key b"

definition less_SocketAddr :: "SocketAddr \<Rightarrow> SocketAddr \<Rightarrow> bool" where
  "less_SocketAddr a b \<longleftrightarrow> socket_key a < socket_key b"

instance
  by standard (auto simp: less_eq_SocketAddr_def less_SocketAddr_def less_le)

end

section \<open>Printing\<close>

fun show_ipv4 :: "Ipv4Addr \<Rightarrow> string" where
  "show_ipv4 (a, b, c, d) =
     show_nat (unat a) @ ''.'' @ show_nat (unat b) @ ''.'' @ show_nat (unat c) @ ''.'' @ show_nat (unat d)"

definition hex_char :: "nat \<Rightarrow> char" where
  "hex_char d = (if d < 10 then char_of (48 + d) else char_of (87 + d))"

fun show_hex :: "nat \<Rightarrow> string" where
  "show_hex n = (if n < 16 then [hex_char n] else show_hex (n div 16) @ [hex_char (n mod 16)])"

declare show_hex.simps [simp del]

fun join_groups :: "u16 list \<Rightarrow> string" where
  "join_groups [] = []"
| "join_groups [g] = show_hex (unat g)"
| "join_groups (g # gs) = show_hex (unat g) @ '':'' @ join_groups gs"

text \<open>The first longest run of zero segments, as its start and length.\<close>

fun zero_run :: "nat \<Rightarrow> u16 list \<Rightarrow> nat \<times> nat \<Rightarrow> nat \<times> nat \<Rightarrow> nat \<times> nat" where
  "zero_run i [] current longest = longest"
| "zero_run i (g # gs) current longest =
     (if g = 0
      then (let current = (if snd current = 0 then i else fst current, snd current + 1)
            in zero_run (i + 1) gs current (if snd longest < snd current then current else longest))
      else zero_run (i + 1) gs (0, 0) longest)"

definition show_ipv6 :: "Ipv6Addr \<Rightarrow> string" where
  "show_ipv6 gs =
     (if take 6 gs = [0, 0, 0, 0, 0, 0xFFFF]
      then ''::ffff:'' @ show_ipv4 (ucast (drop_bit 8 (gs ! 6)), ucast (gs ! 6),
                                    ucast (drop_bit 8 (gs ! 7)), ucast (gs ! 7))
      else
        (let (start, len) = zero_run 0 gs (0, 0) (0, 0)
         in if 1 < len
            then join_groups (take start gs) @ ''::'' @ join_groups (drop (start + len) gs)
            else join_groups gs))"

fun show_ip :: "IpAddr \<Rightarrow> string" where
  "show_ip (V4 ip) = show_ipv4 ip"
| "show_ip (V6 ip) = show_ipv6 ip"

fun show_socket :: "SocketAddr \<Rightarrow> string" where
  "show_socket (SockV4 ip port) = show_ipv4 ip @ '':'' @ show_nat (unat port)"
| "show_socket (SockV6 ip port flowinfo scope_id) =
     ''['' @ show_ipv6 ip @ (if scope_id = 0 then [] else ''%'' @ show_nat (unat scope_id))
     @ '']:'' @ show_nat (unat port)"

section \<open>Parsing\<close>

type_synonym 'a reader = "string \<Rightarrow> ('a \<times> string) option"

definition read_given_char :: "char \<Rightarrow> string \<Rightarrow> string option" where
  "read_given_char c s = (case s of [] \<Rightarrow> None | d # rest \<Rightarrow> if d = c then Some rest else None)"

definition to_digit :: "nat \<Rightarrow> char \<Rightarrow> nat option" where
  "to_digit radix c =
     (let v = of_char c :: nat;
          d = (if 48 \<le> v \<and> v \<le> 57 then v - 48
               else if 97 \<le> v \<and> v \<le> 122 then v - 87
               else if 65 \<le> v \<and> v \<le> 90 then v - 55 else radix)
      in if d < radix then Some d else None)"

fun read_digits :: "nat \<Rightarrow> nat \<Rightarrow> nat option \<Rightarrow> nat \<Rightarrow> nat \<Rightarrow> (nat \<times> nat) reader" where
  "read_digits bound radix max_digits acc count [] = Some ((acc, count), [])"
| "read_digits bound radix max_digits acc count (c # cs) =
     (case to_digit radix c of
        None \<Rightarrow> Some ((acc, count), c # cs)
      | Some d \<Rightarrow>
          if bound \<le> acc * radix + d then None
          else if (case max_digits of None \<Rightarrow> False | Some m \<Rightarrow> m < count + 1) then None
          else read_digits bound radix max_digits (acc * radix + d) (count + 1) cs)"

definition read_number :: "nat \<Rightarrow> nat \<Rightarrow> nat option \<Rightarrow> bool \<Rightarrow> nat reader" where
  "read_number bound radix max_digits allow_zero_prefix s =
     (case read_digits bound radix max_digits 0 0 s of
        None \<Rightarrow> None
      | Some ((n, count), rest) \<Rightarrow>
          if count = 0 then None
          else if \<not> allow_zero_prefix \<and> hd s = CHR ''0'' \<and> 1 < count then None
          else Some (n, rest))"

text \<open>A separator is expected before every element but the first.\<close>

definition read_separator :: "char \<Rightarrow> nat \<Rightarrow> 'a reader \<Rightarrow> 'a reader" where
  "read_separator sep index inner s =
     (if 0 < index
      then (case read_given_char sep s of None \<Rightarrow> None | Some rest \<Rightarrow> inner rest)
      else inner s)"

definition read_octet :: "nat \<Rightarrow> u8 reader" where
  "read_octet index s =
     map_option (\<lambda>(n, rest). (of_nat n, rest))
       (read_separator CHR ''.'' index (read_number 256 10 (Some 3) False) s)"

definition read_ipv4_addr :: "Ipv4Addr reader" where
  "read_ipv4_addr s =
     (case read_octet 0 s of None \<Rightarrow> None | Some (a, s) \<Rightarrow>
     (case read_octet 1 s of None \<Rightarrow> None | Some (b, s) \<Rightarrow>
     (case read_octet 2 s of None \<Rightarrow> None | Some (c, s) \<Rightarrow>
     (case read_octet 3 s of None \<Rightarrow> None | Some (d, s) \<Rightarrow> Some ((a, b, c, d), s)))))"

definition join_octets :: "u8 \<Rightarrow> u8 \<Rightarrow> u16" where
  "join_octets a b = ucast a * 256 + ucast b"

text \<open>
  Reading up to \<open>limit\<close> segments: the segments, whether they end in an embedded IPv4
  address, and the rest.
\<close>

function read_groups :: "nat \<Rightarrow> nat \<Rightarrow> u16 list \<Rightarrow> string \<Rightarrow> u16 list \<times> bool \<times> string" where
  "read_groups limit i groups s =
     (if limit \<le> i then (groups, False, s)
      else case (if i < limit - 1 then read_separator CHR '':'' i read_ipv4_addr s else None) of
        Some ((a, b, c, d), rest) \<Rightarrow> (groups @ [join_octets a b, join_octets c d], True, rest)
      | None \<Rightarrow>
          (case read_separator CHR '':'' i (read_number 65536 16 (Some 4) True) s of
             None \<Rightarrow> (groups, False, s)
           | Some (n, rest) \<Rightarrow> read_groups limit (i + 1) (groups @ [of_nat n]) rest))"
  by pat_completeness auto

termination
  by (relation "measure (\<lambda>(limit, i, groups, s). limit - i)") auto

definition read_ipv6_addr :: "Ipv6Addr reader" where
  "read_ipv6_addr s =
     (case read_groups 8 0 [] s of
        (head, head_ipv4, s) \<Rightarrow>
          if length head = 8 then Some (head, s)
          else if head_ipv4 then None
          else (case read_given_char CHR '':'' s of None \<Rightarrow> None | Some s \<Rightarrow>
               (case read_given_char CHR '':'' s of None \<Rightarrow> None | Some s \<Rightarrow>
               (case read_groups (8 - (length head + 1)) 0 [] s of
                  (tail, _, s) \<Rightarrow>
                    Some (head @ replicate (8 - length head - length tail) 0 @ tail, s)))))"

definition read_ip_addr :: "IpAddr reader" where
  "read_ip_addr s =
     (case read_ipv4_addr s of
        Some (ip, rest) \<Rightarrow> Some (V4 ip, rest)
      | None \<Rightarrow> map_option (\<lambda>(ip, rest). (V6 ip, rest)) (read_ipv6_addr s))"

definition read_port :: "u16 reader" where
  "read_port s =
     (case read_given_char CHR '':'' s of
        None \<Rightarrow> None
      | Some s \<Rightarrow> map_option (\<lambda>(n, rest). (of_nat n, rest)) (read_number 65536 10 None True s))"

definition read_scope_id :: "u32 reader" where
  "read_scope_id s =
     (case read_given_char CHR ''%'' s of
        None \<Rightarrow> None
      | Some s \<Rightarrow> map_option (\<lambda>(n, rest). (of_nat n, rest)) (read_number (2 ^ 32) 10 None True s))"

definition read_socket_addr_v4 :: "SocketAddr reader" where
  "read_socket_addr_v4 s =
     (case read_ipv4_addr s of None \<Rightarrow> None | Some (ip, s) \<Rightarrow>
       map_option (\<lambda>(port, rest). (SockV4 ip port, rest)) (read_port s))"

definition read_socket_addr_v6 :: "SocketAddr reader" where
  "read_socket_addr_v6 s =
     (case read_given_char CHR ''['' s of None \<Rightarrow> None | Some s \<Rightarrow>
     (case read_ipv6_addr s of None \<Rightarrow> None | Some (ip, s) \<Rightarrow>
     (let (scope_id, s) = (case read_scope_id s of None \<Rightarrow> (0, s) | Some v \<Rightarrow> v)
      in case read_given_char CHR '']'' s of None \<Rightarrow> None | Some s \<Rightarrow>
           map_option (\<lambda>(port, rest). (SockV6 ip port 0 scope_id, rest)) (read_port s))))"

definition read_socket_addr :: "SocketAddr reader" where
  "read_socket_addr s =
     (case read_socket_addr_v4 s of Some v \<Rightarrow> Some v | None \<Rightarrow> read_socket_addr_v6 s)"

definition parse_ip :: "string \<Rightarrow> string + IpAddr" where
  "parse_ip s =
     (case read_ip_addr s of Some (ip, []) \<Rightarrow> Ok ip | _ \<Rightarrow> Err ''invalid IP address syntax'')"

definition parse_socket :: "string \<Rightarrow> string + SocketAddr" where
  "parse_socket s =
     (case read_socket_addr s of
        Some (addr, []) \<Rightarrow> Ok addr | _ \<Rightarrow> Err ''invalid socket address syntax'')"

end
