(* ===== verification/Network_Policy.thy ===== *)
theory Network_Policy
  imports Net_Addr File_Scope
begin

text \<open>
  The network policy: the selectors of \<open>crates/core/plugin_system/src/network_policy.rs\<close> and
  \<open>crates/access_control/src/policy/network\<close>, that is stored rules (\<open>rule.rs\<close>), validation and
  static rules (\<open>validation.rs\<close>) and the store (\<open>store.rs\<close>).
\<close>

section \<open>Vocabulary\<close>

datatype NetworkPolicyDecision = Default | Allow | Deny | Gray

primrec network_decision_as_str :: "NetworkPolicyDecision \<Rightarrow> string" where
  "network_decision_as_str NetworkPolicyDecision.Default = ''default''"
| "network_decision_as_str NetworkPolicyDecision.Allow = ''allow''"
| "network_decision_as_str NetworkPolicyDecision.Deny = ''deny''"
| "network_decision_as_str NetworkPolicyDecision.Gray = ''gray''"

definition network_decision_from_wire :: "string \<Rightarrow> string + NetworkPolicyDecision" where
  "network_decision_from_wire value =
     (if value = ''default'' then Ok NetworkPolicyDecision.Default
      else if value = ''allow'' then Ok NetworkPolicyDecision.Allow
      else if value = ''deny'' then Ok NetworkPolicyDecision.Deny
      else if value = ''gray'' then Ok NetworkPolicyDecision.Gray
      else Err (''unsupported network policy decision '' @ value
                @ ''; expected default, allow, deny, or gray''))"

datatype NetworkPolicyRemoteSelector = Endpoint SocketAddr | AnyPort IpAddr

definition selector_parse :: "string \<Rightarrow> string + NetworkPolicyRemoteSelector" where
  "selector_parse raw =
     (case strip_suffix '':*'' raw of
        Some raw_ip \<Rightarrow>
          (let (raw_ip, bracketed) =
             (case (case strip_prefix ''['' raw_ip of
                      None \<Rightarrow> None | Some value \<Rightarrow> strip_suffix '']'' value) of
                Some value \<Rightarrow> (value, True)
              | None \<Rightarrow> (raw_ip, False))
           in bind_result
                (map_err (\<lambda>e. ''network remote '' @ raw @ '' must contain a numeric IP before :*: '' @ e)
                   (parse_ip raw_ip)) (\<lambda>ip.
              case (ip, bracketed) of
                (V4 _, True) \<Rightarrow>
                  Err (''network remote '' @ raw @ '' must not bracket an IPv4 address'')
              | (V6 _, False) \<Rightarrow>
                  Err (''network remote '' @ raw @ '' must bracket an IPv6 address as [ip]:*'')
              | _ \<Rightarrow> Ok (AnyPort ip)))
      | None \<Rightarrow>
          bind_result
            (map_err (\<lambda>e. ''network remote '' @ raw
                @ '' must be a numeric IP endpoint or IP any-port selector: '' @ e)
               (parse_socket raw)) (\<lambda>endpoint. Ok (Endpoint endpoint)))"

fun show_selector :: "NetworkPolicyRemoteSelector \<Rightarrow> string" where
  "show_selector (Endpoint endpoint) = show_socket endpoint"
| "show_selector (AnyPort (V4 ip)) = show_ipv4 ip @ '':*''"
| "show_selector (AnyPort (V6 ip)) = ''['' @ show_ipv6 ip @ '']:*''"

datatype NetworkPolicyRemoteGrantScope = All | Selector NetworkPolicyRemoteSelector

definition grant_scope_parse :: "string \<Rightarrow> string + NetworkPolicyRemoteGrantScope" where
  "grant_scope_parse raw =
     (if raw = ''*'' then Ok All else bind_result (selector_parse raw) (\<lambda>s. Ok (Selector s)))"

fun grant_scope_covers :: "NetworkPolicyRemoteGrantScope \<Rightarrow> NetworkPolicyRemoteSelector \<Rightarrow> bool" where
  "grant_scope_covers All selector = True"
| "grant_scope_covers (Selector (AnyPort ip)) selector =
     (ip = (case selector of Endpoint endpoint \<Rightarrow> socket_ip endpoint | AnyPort ip \<Rightarrow> ip))"
| "grant_scope_covers (Selector (Endpoint endpoint)) selector = (selector = Endpoint endpoint)"

datatype NetworkPolicyPatchOp = Upsert | Delete

datatype NetworkPolicyApplyStatus = Accepted | Rejected

datatype ControlVerdict = Allow | Deny

record NetworkPolicyRuleDraft =
  nd_rule_id :: "string option"
  nd_decision :: NetworkPolicyDecision
  nd_remote :: string
  nd_gray_target :: "string option"
  nd_timeout_ms :: "u64 option"
  nd_concurrency_limit :: "u32 option"
  nd_fallback :: "ControlVerdict option"

record NetworkPolicyPatchItem =
  ni_op :: NetworkPolicyPatchOp
  ni_rule_id :: "string option"
  ni_rule :: "NetworkPolicyRuleDraft option"

record NetworkPolicyApplyRequest =
  nq_base_revision :: u64
  nq_mutation_id :: string
  nq_reason :: "string option"
  nq_items :: "NetworkPolicyPatchItem list"

record NetworkPolicyApplyError =
  ne_item_index :: u32
  ne_code :: string
  ne_message :: string

record NetworkPolicyApplyResult =
  na_status :: NetworkPolicyApplyStatus
  na_new_revision :: u64
  na_applied_count :: u32
  na_rejected_count :: u32
  na_errors :: "NetworkPolicyApplyError list"

record NetworkPolicyRuleView =
  nv_rule_id :: string
  nv_owner_instance_id :: string
  nv_decision :: NetworkPolicyDecision
  nv_remote :: string
  nv_gray_target :: "string option"
  nv_timeout_ms :: "u64 option"
  nv_concurrency_limit :: "u32 option"
  nv_fallback :: "ControlVerdict option"
  nv_rule_revision :: u64
  nv_updated_sequence :: u64

record NetworkPolicyListFilter =
  nf_decision :: "NetworkPolicyDecision option"
  nf_remote :: "string option"

record NetworkPolicyListResult =
  nl_rules :: "NetworkPolicyRuleView list"
  nl_next_cursor :: "string option"
  nl_source_revision :: u64

record NetworkPolicyMatchDryRunRequest =
  nm_remote :: string

record NetworkPolicyMatchDryRunResult =
  nr_matched :: bool
  nr_decision :: NetworkPolicyDecision
  nr_rule_id :: "string option"
  nr_owner_instance_id :: "string option"
  nr_resolved_remote :: string
  nr_rule_revision :: "u64 option"
  nr_source_revision :: u64

record NetworkPolicyRulesApplyGrant =
  ng_decision :: NetworkPolicyDecision
  ng_remote_scope :: NetworkPolicyRemoteGrantScope

section \<open>Stored rules\<close>

definition network_static_owner :: string where
  "network_static_owner = ''actrail.static''"

definition network_generated_prefix :: string where
  "network_generated_prefix = ''network-rule''"

record StoredNetworkRule =
  sn_owner_instance_id :: string
  sn_rule_id :: string
  sn_decision :: NetworkPolicyDecision
  sn_remote :: NetworkPolicyRemoteSelector
  sn_gray_target :: "string option"
  sn_timeout_ms :: "u64 option"
  sn_concurrency_limit :: "u32 option"
  sn_fallback :: "EnforcementDecision option"
  sn_rule_revision :: u64
  sn_updated_sequence :: u64

primrec verdict_decision :: "ControlVerdict \<Rightarrow> EnforcementDecision" where
  "verdict_decision ControlVerdict.Allow = EnforcementDecision.Allow"
| "verdict_decision ControlVerdict.Deny = EnforcementDecision.Deny"

primrec enforcement_verdict :: "EnforcementDecision \<Rightarrow> ControlVerdict" where
  "enforcement_verdict EnforcementDecision.Allow = ControlVerdict.Allow"
| "enforcement_verdict EnforcementDecision.Deny = ControlVerdict.Deny"

definition network_validate_id :: "string \<Rightarrow> string + unit" where
  "network_validate_id rule_id =
     (if trim rule_id = [] \<or> list_ex is_whitespace rule_id
      then Err ''network rule id must be non-empty and contain no whitespace'' else Ok ())"

definition network_from_draft ::
    "string \<Rightarrow> string option \<Rightarrow> NetworkPolicyRuleDraft \<Rightarrow> NetworkPolicyRemoteSelector
      \<Rightarrow> u64 \<Rightarrow> u64 \<Rightarrow> u64 \<Rightarrow> string + StoredNetworkRule" where
  "network_from_draft owner item_rule_id draft remote rule_revision updated_sequence generated =
     (let rule_id = (case item_rule_id of
            Some rule_id \<Rightarrow> rule_id
          | None \<Rightarrow>
              (case nd_rule_id draft of
                 Some rule_id \<Rightarrow> rule_id
               | None \<Rightarrow> network_generated_prefix @ ''-'' @ show_nat (unat generated)))
      in bind_result (network_validate_id rule_id) (\<lambda>_.
         Ok \<lparr>sn_owner_instance_id = owner, sn_rule_id = rule_id, sn_decision = nd_decision draft,
             sn_remote = remote, sn_gray_target = nd_gray_target draft,
             sn_timeout_ms = nd_timeout_ms draft,
             sn_concurrency_limit = nd_concurrency_limit draft,
             sn_fallback = map_option verdict_decision (nd_fallback draft),
             sn_rule_revision = rule_revision, sn_updated_sequence = updated_sequence\<rparr>))"

definition network_rule_view :: "StoredNetworkRule \<Rightarrow> NetworkPolicyRuleView" where
  "network_rule_view r =
     \<lparr>nv_rule_id = sn_rule_id r, nv_owner_instance_id = sn_owner_instance_id r,
      nv_decision = sn_decision r, nv_remote = show_selector (sn_remote r),
      nv_gray_target = sn_gray_target r, nv_timeout_ms = sn_timeout_ms r,
      nv_concurrency_limit = sn_concurrency_limit r,
      nv_fallback = map_option enforcement_verdict (sn_fallback r),
      nv_rule_revision = sn_rule_revision r, nv_updated_sequence = sn_updated_sequence r\<rparr>"

definition network_matches_filter ::
    "StoredNetworkRule \<Rightarrow> NetworkPolicyDecision option \<Rightarrow> NetworkPolicyRemoteSelector option \<Rightarrow> bool" where
  "network_matches_filter r decision remote \<longleftrightarrow>
     (case decision of None \<Rightarrow> True | Some d \<Rightarrow> d = sn_decision r)
     \<and> (case remote of None \<Rightarrow> True | Some s \<Rightarrow> s = sn_remote r)"

section \<open>Validation\<close>

definition endpoint_parse :: "string \<Rightarrow> string + SocketAddr" where
  "endpoint_parse remote =
     map_err (\<lambda>e. ''network remote must be a numeric IP endpoint: '' @ e) (parse_socket remote)"

definition network_shape :: "NetworkPolicyRuleDraft \<Rightarrow> string + NetworkPolicyRemoteSelector" where
  "network_shape draft =
     (let has_gray_fields = (nd_gray_target draft \<noteq> None \<or> nd_timeout_ms draft \<noteq> None
            \<or> nd_concurrency_limit draft \<noteq> None \<or> nd_fallback draft \<noteq> None)
      in if nd_decision draft = NetworkPolicyDecision.Default
         then Err ''network rule decision cannot be default''
         else if nd_decision draft \<noteq> NetworkPolicyDecision.Gray \<and> has_gray_fields
         then Err ''allow and deny network rules cannot include gray settings''
         else if nd_decision draft = NetworkPolicyDecision.Gray
              \<and> (case nd_gray_target draft of None \<Rightarrow> True | Some target \<Rightarrow> trim target = [])
         then Err ''gray network rule requires gray_target''
         else if nd_decision draft = NetworkPolicyDecision.Gray
              \<and> (case nd_timeout_ms draft of None \<Rightarrow> True | Some value \<Rightarrow> value = 0)
         then Err ''gray network rule timeout_ms must be positive''
         else if nd_decision draft = NetworkPolicyDecision.Gray
              \<and> (case nd_concurrency_limit draft of None \<Rightarrow> True | Some value \<Rightarrow> value = 0)
         then Err ''gray network rule concurrency_limit must be positive''
         else if nd_decision draft = NetworkPolicyDecision.Gray \<and> nd_fallback draft = None
         then Err ''gray network rule requires fallback''
         else selector_parse (nd_remote draft))"

definition network_apply_error :: "u32 \<Rightarrow> string \<Rightarrow> string \<Rightarrow> NetworkPolicyApplyError" where
  "network_apply_error item_index code message =
     \<lparr>ne_item_index = item_index, ne_code = code, ne_message = message\<rparr>"

definition network_validate_request ::
    "u64 \<Rightarrow> string \<Rightarrow> NetworkPolicyApplyRequest \<Rightarrow> NetworkPolicyApplyError list" where
  "network_validate_request revision owner request =
     (if trim owner = [] \<or> owner = network_static_owner
      then [network_apply_error 0 ''invalid-owner''
             ''network policy owner must be a non-static plugin instance id''] else [])
     @ (if nq_base_revision request \<noteq> revision
        then [network_apply_error 0 ''revision-conflict''
               (''network policy base revision '' @ show_nat (unat (nq_base_revision request))
                @ '' does not match current revision '' @ show_nat (unat revision))] else [])
     @ (if trim (nq_mutation_id request) = []
        then [network_apply_error 0 ''invalid-mutation-id''
               ''network policy mutation_id must not be empty''] else [])
     @ (if nq_items request = []
        then [network_apply_error 0 ''empty-mutation''
               ''network policy apply requires at least one item''] else [])"

definition network_draft_grant ::
    "NetworkPolicyRulesApplyGrant list \<Rightarrow> NetworkPolicyRuleDraft \<Rightarrow> NetworkPolicyRemoteSelector
      \<Rightarrow> string + unit" where
  "network_draft_grant grants draft selector =
     (if list_ex (\<lambda>grant. ng_decision grant = nd_decision draft
           \<and> grant_scope_covers (ng_remote_scope grant) selector) grants
      then Ok ()
      else Err (''missing network-policy.rules.apply grant for ''
                @ network_decision_as_str (nd_decision draft) @ '' '' @ show_selector selector))"

record NetworkRemoteOwners =
  ro_by_endpoint :: "(SocketAddr, string) btree_map"
  ro_endpoint_by_ip :: "(IpAddr, (string, SocketAddr) btree_map) btree_map"
  ro_by_ip :: "(IpAddr, string) btree_map"

definition no_remotes :: NetworkRemoteOwners where
  "no_remotes = \<lparr>ro_by_endpoint = bm_empty, ro_endpoint_by_ip = bm_empty, ro_by_ip = bm_empty\<rparr>"

text \<open>An entry is inserted once: a second endpoint of the same owner keeps the first.\<close>

definition note_endpoint ::
    "string \<Rightarrow> SocketAddr \<Rightarrow> (IpAddr, (string, SocketAddr) btree_map) btree_map
      \<Rightarrow> (IpAddr, (string, SocketAddr) btree_map) btree_map" where
  "note_endpoint owner endpoint m =
     (let owners = (case bm_get m (socket_ip endpoint) of None \<Rightarrow> bm_empty | Some owners \<Rightarrow> owners);
          owners = (if bm_get owners owner = None then bm_insert owner endpoint owners else owners)
      in bm_insert (socket_ip endpoint) owners m)"

fun remote_owners_insert ::
    "NetworkRemoteOwners \<Rightarrow> NetworkPolicyRemoteSelector \<Rightarrow> string \<Rightarrow> string + NetworkRemoteOwners" where
  "remote_owners_insert ro (Endpoint endpoint) owner =
     (case bm_get (ro_by_endpoint ro) endpoint of
        Some existing \<Rightarrow> Err (''network remote '' @ show_selector (Endpoint endpoint)
                             @ '' is already owned by '' @ existing)
      | None \<Rightarrow>
     (case bm_get (ro_by_ip ro) (socket_ip endpoint) of
        Some existing \<Rightarrow>
          if existing \<noteq> owner
          then Err (''network remote '' @ show_selector (Endpoint endpoint) @ '' overlaps ''
                    @ show_selector (AnyPort (socket_ip endpoint)) @ '' owned by '' @ existing)
          else Ok (ro\<lparr>ro_by_endpoint := bm_insert endpoint owner (ro_by_endpoint ro),
                      ro_endpoint_by_ip := note_endpoint owner endpoint (ro_endpoint_by_ip ro)\<rparr>)
      | None \<Rightarrow> Ok (ro\<lparr>ro_by_endpoint := bm_insert endpoint owner (ro_by_endpoint ro),
                      ro_endpoint_by_ip := note_endpoint owner endpoint (ro_endpoint_by_ip ro)\<rparr>)))"
| "remote_owners_insert ro (AnyPort ip) owner =
     (case bm_get (ro_by_ip ro) ip of
        Some existing \<Rightarrow> Err (''network remote '' @ show_selector (AnyPort ip)
                             @ '' is already owned by '' @ existing)
      | None \<Rightarrow>
     (case (case bm_get (ro_endpoint_by_ip ro) ip of
              None \<Rightarrow> None
            | Some owners \<Rightarrow> find (\<lambda>(existing, _). existing \<noteq> owner) (bm_entries owners)) of
        Some (existing, endpoint) \<Rightarrow>
          Err (''network remote '' @ show_selector (AnyPort ip) @ '' overlaps ''
               @ show_socket endpoint @ '' owned by '' @ existing)
      | None \<Rightarrow> Ok (ro\<lparr>ro_by_ip := bm_insert ip owner (ro_by_ip ro)\<rparr>)))"

fun validate_network_entries ::
    "string \<Rightarrow> NetworkRemoteOwners \<Rightarrow> (string \<times> StoredNetworkRule) list \<Rightarrow> string + unit" where
  "validate_network_entries owner remotes [] = Ok ()"
| "validate_network_entries owner remotes ((key, rule) # entries) =
     (if key \<noteq> sn_rule_id rule
      then Err (''network policy owner '' @ owner @ '' has inconsistent rule id '' @ key)
      else bind_result (remote_owners_insert remotes (sn_remote rule) owner) (\<lambda>remotes.
        validate_network_entries owner remotes entries))"

definition network_validate_owner_rules ::
    "string \<Rightarrow> (string, StoredNetworkRule) btree_map \<Rightarrow> string + unit" where
  "network_validate_owner_rules owner rules =
     validate_network_entries owner no_remotes (bm_entries rules)"

text \<open>The remotes of all owners, in the order of owners and identifiers.\<close>

fun insert_remotes ::
    "NetworkRemoteOwners \<Rightarrow> (string \<times> NetworkPolicyRemoteSelector) list \<Rightarrow> string + unit" where
  "insert_remotes remotes [] = Ok ()"
| "insert_remotes remotes ((owner, remote) # rest) =
     bind_result (remote_owners_insert remotes remote owner) (\<lambda>remotes. insert_remotes remotes rest)"

definition unique_remotes ::
    "(string, (string, StoredNetworkRule) btree_map) btree_map \<Rightarrow> string + unit" where
  "unique_remotes by_owner =
     insert_remotes no_remotes
       (concat (map (\<lambda>(owner, rules). map (\<lambda>r. (owner, sn_remote r)) (bm_values rules))
          (bm_entries by_owner)))"

section \<open>Static rules\<close>

definition network_positive :: "nat \<Rightarrow> string \<Rightarrow> string \<Rightarrow> string + nat" where
  "network_positive bound label value =
     bind_result
       (map_err (\<lambda>e. label @ '' must be a positive integer: '' @ e) (parse_unsigned bound value))
       (\<lambda>parsed. if parsed = 0 then Err (label @ '' must be greater than zero'') else Ok parsed)"

definition network_enforcement :: "string \<Rightarrow> string + EnforcementDecision" where
  "network_enforcement value =
     (if value = ''allow'' then Ok EnforcementDecision.Allow
      else if value = ''deny'' then Ok EnforcementDecision.Deny
      else Err ''fallback must be allow or deny'')"

definition network_usage :: string where
  "network_usage = ''expected: <rule-id> <allow|deny> connect <ip:port|ip:*>, or <rule-id> sync-plugin <instance> timeout-ms <positive-ms> concurrency <positive-limit> fallback <allow|deny> connect <ip:port|ip:*>''"

definition parse_static_network :: "string \<Rightarrow> u64 \<Rightarrow> string + StoredNetworkRule" where
  "parse_static_network line sequence =
     (case split_whitespace line of
        [rule_id, decision, kw, remote] \<Rightarrow>
          if (decision = ''allow'' \<or> decision = ''deny'') \<and> kw = ''connect''
          then
            bind_result (network_validate_id rule_id) (\<lambda>_.
            bind_result (network_decision_from_wire decision) (\<lambda>decision.
            bind_result (selector_parse remote) (\<lambda>remote.
            Ok \<lparr>sn_owner_instance_id = network_static_owner, sn_rule_id = rule_id,
                sn_decision = decision, sn_remote = remote, sn_gray_target = None,
                sn_timeout_ms = None, sn_concurrency_limit = None, sn_fallback = None,
                sn_rule_revision = 0, sn_updated_sequence = sequence\<rparr>)))
          else Err network_usage
      | [rule_id, sync, inst, kw_timeout, timeout_ms, kw_concurrency, concurrency_limit,
         kw_fallback, fallback, kw, remote] \<Rightarrow>
          if sync = ''sync-plugin'' \<and> kw_timeout = ''timeout-ms'' \<and> kw_concurrency = ''concurrency''
             \<and> kw_fallback = ''fallback'' \<and> kw = ''connect''
          then
            bind_result (network_validate_id rule_id) (\<lambda>_.
            bind_result (selector_parse remote) (\<lambda>remote.
            bind_result (network_positive (2 ^ 64) ''timeout-ms'' timeout_ms) (\<lambda>timeout.
            bind_result (network_positive (2 ^ 32) ''concurrency'' concurrency_limit) (\<lambda>limit.
            bind_result (network_enforcement fallback) (\<lambda>fallback.
            Ok \<lparr>sn_owner_instance_id = network_static_owner, sn_rule_id = rule_id,
                sn_decision = NetworkPolicyDecision.Gray, sn_remote = remote,
                sn_gray_target = Some inst, sn_timeout_ms = Some (of_nat timeout),
                sn_concurrency_limit = Some (of_nat limit), sn_fallback = Some fallback,
                sn_rule_revision = 0, sn_updated_sequence = sequence\<rparr>)))))
          else Err network_usage
      | _ \<Rightarrow> Err network_usage)"

section \<open>The store\<close>

record NetworkPolicyStore =
  ns_revision :: u64
  ns_next_rule_id :: u64
  ns_next_sequence :: u64
  ns_by_owner :: "(string, (string, StoredNetworkRule) btree_map) btree_map"
  ns_effective_by_endpoint :: "(SocketAddr, StoredNetworkRule) btree_map"
  ns_effective_by_ip :: "(IpAddr, StoredNetworkRule) btree_map"

definition network_store_empty :: NetworkPolicyStore where
  "network_store_empty =
     \<lparr>ns_revision = 0, ns_next_rule_id = 1, ns_next_sequence = 0, ns_by_owner = bm_empty,
      ns_effective_by_endpoint = bm_empty, ns_effective_by_ip = bm_empty\<rparr>"

definition network_all_rules :: "NetworkPolicyStore \<Rightarrow> StoredNetworkRule list" where
  "network_all_rules st = concat (map bm_values (bm_values (ns_by_owner st)))"

fun effective_ips ::
    "(IpAddr, StoredNetworkRule) btree_map \<Rightarrow> StoredNetworkRule list
      \<Rightarrow> string + (IpAddr, StoredNetworkRule) btree_map" where
  "effective_ips by_ip [] = Ok by_ip"
| "effective_ips by_ip (rule # rules) =
     (case sn_remote rule of
        Endpoint _ \<Rightarrow> effective_ips by_ip rules
      | AnyPort ip \<Rightarrow>
          (case bm_get by_ip ip of
             Some existing \<Rightarrow>
               Err (''network remote '' @ show_selector (sn_remote rule) @ '' is owned by both ''
                    @ sn_owner_instance_id existing @ '' and '' @ sn_owner_instance_id rule)
           | None \<Rightarrow> effective_ips (bm_insert ip rule by_ip) rules))"

fun effective_endpoints ::
    "(IpAddr, StoredNetworkRule) btree_map \<Rightarrow> (SocketAddr, StoredNetworkRule) btree_map
      \<Rightarrow> StoredNetworkRule list \<Rightarrow> string + (SocketAddr, StoredNetworkRule) btree_map" where
  "effective_endpoints by_ip by_endpoint [] = Ok by_endpoint"
| "effective_endpoints by_ip by_endpoint (rule # rules) =
     (case sn_remote rule of
        AnyPort _ \<Rightarrow> effective_endpoints by_ip by_endpoint rules
      | Endpoint endpoint \<Rightarrow>
          (case (case bm_get by_ip (socket_ip endpoint) of
                   None \<Rightarrow> None
                 | Some existing \<Rightarrow>
                     if sn_owner_instance_id existing \<noteq> sn_owner_instance_id rule
                     then Some existing else None) of
             Some existing \<Rightarrow>
               Err (''network remote '' @ show_selector (sn_remote rule) @ '' overlaps ''
                    @ show_selector (sn_remote existing) @ '' owned by '' @ sn_owner_instance_id existing)
           | None \<Rightarrow>
          (case bm_get by_endpoint endpoint of
             Some existing \<Rightarrow>
               Err (''network remote '' @ show_selector (sn_remote rule) @ '' is owned by both ''
                    @ sn_owner_instance_id existing @ '' and '' @ sn_owner_instance_id rule)
           | None \<Rightarrow> effective_endpoints by_ip (bm_insert endpoint rule by_endpoint) rules)))"

definition network_rebuild_effective :: "NetworkPolicyStore \<Rightarrow> string + NetworkPolicyStore" where
  "network_rebuild_effective st =
     bind_result (effective_ips bm_empty (network_all_rules st)) (\<lambda>by_ip.
     bind_result (effective_endpoints by_ip bm_empty (network_all_rules st)) (\<lambda>by_endpoint.
     Ok (st\<lparr>ns_effective_by_endpoint := by_endpoint, ns_effective_by_ip := by_ip\<rparr>)))"

fun network_load_lines ::
    "PathBuf \<Rightarrow> nat \<Rightarrow> string list \<Rightarrow> u64 \<Rightarrow> (string, StoredNetworkRule) btree_map
      \<Rightarrow> string + u64 \<times> (string, StoredNetworkRule) btree_map" where
  "network_load_lines path index [] sequence rules = Ok (sequence, rules)"
| "network_load_lines path index (raw_line # lines) sequence rules =
     (let line = trim raw_line
      in if line = [] \<or> hd line = CHR ''#''
         then network_load_lines path (index + 1) lines sequence rules
         else case checked_add_u64 sequence 1 of
           None \<Rightarrow> Err ''network policy sequence overflow''
         | Some sequence \<Rightarrow>
             bind_result (map_err (\<lambda>message. path @ '':'' @ show_nat (index + 1) @ '': '' @ message)
                            (parse_static_network line sequence)) (\<lambda>rule.
             if bm_get rules (sn_rule_id rule) \<noteq> None
             then Err (path @ '':'' @ show_nat (index + 1) @ '': duplicate network rule id'')
             else network_load_lines path (index + 1) lines sequence
                    (bm_insert (sn_rule_id rule) rule rules)))"

definition network_store_load :: "FsError + string \<Rightarrow> PathBuf \<Rightarrow> string + NetworkPolicyStore" where
  "network_store_load content path =
     bind_result (case content of
          Inr raw \<Rightarrow> Ok raw
        | Inl e \<Rightarrow> if fe_kind e = NotFound then Ok []
                   else Err (''read network control rules '' @ path @ '' failed: '' @ fe_text e)) (\<lambda>raw.
     bind_result (network_load_lines path 0 (text_lines raw)
                    (ns_next_sequence network_store_empty) bm_empty) (\<lambda>(sequence, static_rules).
     bind_result (network_validate_owner_rules network_static_owner static_rules) (\<lambda>_.
     bind_result (unique_remotes (bm_insert network_static_owner static_rules bm_empty)) (\<lambda>_.
     let store = network_store_empty\<lparr>ns_next_sequence := sequence\<rparr>
     in if bm_entries static_rules = [] then Ok store
        else
          (let static_rules = bm_map_values (\<lambda>r. r\<lparr>sn_rule_revision := 1\<rparr>) static_rules
           in network_rebuild_effective
                (store\<lparr>ns_revision := 1,
                       ns_by_owner := bm_insert network_static_owner static_rules bm_empty\<rparr>))))))"

section \<open>Queries\<close>

definition network_effective_rule_views :: "NetworkPolicyStore \<Rightarrow> NetworkPolicyRuleView list" where
  "network_effective_rule_views st =
     map network_rule_view (bm_values (ns_effective_by_endpoint st) @ bm_values (ns_effective_by_ip st))"

definition network_find :: "NetworkPolicyStore \<Rightarrow> SocketAddr \<Rightarrow> StoredNetworkRule option" where
  "network_find st endpoint =
     (case bm_get (ns_effective_by_endpoint st) endpoint of
        Some rule \<Rightarrow> Some rule
      | None \<Rightarrow> bm_get (ns_effective_by_ip st) (socket_ip endpoint))"

definition network_owner_rules ::
    "NetworkPolicyStore \<Rightarrow> string \<Rightarrow> (string, StoredNetworkRule) btree_map" where
  "network_owner_rules st owner =
     (case bm_get (ns_by_owner st) owner of None \<Rightarrow> bm_empty | Some rules \<Rightarrow> rules)"

definition network_is_rule_current :: "NetworkPolicyStore \<Rightarrow> StoredNetworkRule \<Rightarrow> bool" where
  "network_is_rule_current st rule =
     (case bm_get (network_owner_rules st (sn_owner_instance_id rule)) (sn_rule_id rule) of
        None \<Rightarrow> False
      | Some current \<Rightarrow> sn_rule_revision current = sn_rule_revision rule)"

definition network_list ::
    "NetworkPolicyStore \<Rightarrow> NetworkPolicyListFilter \<Rightarrow> string option \<Rightarrow> u32
      \<Rightarrow> string + NetworkPolicyListResult" where
  "network_list st criteria cursor limit =
     (if limit = 0 then Err ''network policy list limit must be positive''
      else
      bind_result (case cursor of
           None \<Rightarrow> Ok 0
         | Some raw \<Rightarrow> map_err (\<lambda>e. ''invalid network policy cursor '' @ raw @ '': '' @ e)
                         (parse_unsigned (2 ^ 64) raw)) (\<lambda>start.
      bind_result (case nf_remote criteria of
           None \<Rightarrow> Ok None
         | Some raw \<Rightarrow> bind_result (selector_parse raw) (\<lambda>s. Ok (Some s))) (\<lambda>remote.
      let views = sort_key (\<lambda>v. (nv_owner_instance_id v, nv_rule_id v))
            (map network_rule_view
               (filter (\<lambda>r. network_matches_filter r (nf_decision criteria) remote)
                  (network_all_rules st)));
          total = length views;
          rules = take (unat limit) (drop start views);
          next = min (start + length rules) (2 ^ 64 - 1)
      in Ok \<lparr>nl_rules = rules,
             nl_next_cursor = (if next < total then Some (show_nat next) else None),
             nl_source_revision = ns_revision st\<rparr>)))"

definition network_match_dry_run ::
    "NetworkPolicyStore \<Rightarrow> NetworkPolicyMatchDryRunRequest \<Rightarrow> NetworkPolicyDecision
      \<Rightarrow> string + NetworkPolicyMatchDryRunResult" where
  "network_match_dry_run st request default_decision =
     bind_result (endpoint_parse (nm_remote request)) (\<lambda>endpoint.
     let matched = network_find st endpoint
     in Ok \<lparr>nr_matched = (matched \<noteq> None),
            nr_decision = (case matched of None \<Rightarrow> default_decision | Some r \<Rightarrow> sn_decision r),
            nr_rule_id = map_option sn_rule_id matched,
            nr_owner_instance_id = map_option sn_owner_instance_id matched,
            nr_resolved_remote = show_socket endpoint,
            nr_rule_revision = map_option sn_rule_revision matched,
            nr_source_revision = ns_revision st\<rparr>)"

section \<open>Patches\<close>

definition network_delete_item ::
    "(string, StoredNetworkRule) btree_map \<Rightarrow> NetworkPolicyPatchItem
      \<Rightarrow> (string, StoredNetworkRule) btree_map \<times> (string + unit)" where
  "network_delete_item rules item =
     (if ni_rule item \<noteq> None then (rules, Err ''delete item must not include rule'')
      else case ni_rule_id item of
        None \<Rightarrow> (rules, Err ''delete item requires rule_id'')
      | Some rule_id \<Rightarrow>
          (case bm_get rules rule_id of
             None \<Rightarrow> (rules, Err (''network rule '' @ rule_id @ '' not found for owner''))
           | Some _ \<Rightarrow> (bm_remove rule_id rules, Ok ())))"

definition network_check_draft ::
    "string \<Rightarrow> NetworkPolicyPatchItem \<Rightarrow> NetworkPolicyRulesApplyGrant list
      \<Rightarrow> string + NetworkPolicyRuleDraft \<times> NetworkPolicyRemoteSelector" where
  "network_check_draft owner item grants =
     (case ni_rule item of
        None \<Rightarrow> Err ''upsert item requires rule''
      | Some draft \<Rightarrow>
     bind_result (case (ni_rule_id item, nd_rule_id draft) of
          (Some item_id, Some draft_id) \<Rightarrow>
            if item_id \<noteq> draft_id
            then Err (''item rule_id '' @ item_id @ '' does not match draft rule_id '' @ draft_id)
            else Ok ()
        | _ \<Rightarrow> Ok ()) (\<lambda>_.
     bind_result (network_shape draft) (\<lambda>remote.
     bind_result (network_draft_grant grants draft remote) (\<lambda>_.
     bind_result (if nd_decision draft = NetworkPolicyDecision.Gray
                  then case nd_gray_target draft of
                         None \<Rightarrow> Err ''gray network rule requires gray_target''
                       | Some target \<Rightarrow>
                           if target = owner then Err ''gray network rule cannot target its policy owner''
                           else Ok ()
                  else Ok ()) (\<lambda>_.
     Ok (draft, remote))))))"

definition network_upsert_item ::
    "NetworkPolicyStore \<Rightarrow> string \<Rightarrow> (string, StoredNetworkRule) btree_map
      \<Rightarrow> NetworkPolicyPatchItem \<Rightarrow> u64 \<Rightarrow> NetworkPolicyRulesApplyGrant list
      \<Rightarrow> NetworkPolicyStore \<times> (string, StoredNetworkRule) btree_map \<times> (string + unit)" where
  "network_upsert_item st owner rules item next_revision grants =
     (case network_check_draft owner item grants of
        Inl e \<Rightarrow> (st, rules, Err e)
      | Inr (draft, remote) \<Rightarrow>
     (case checked_add_u64 (ns_next_sequence st) 1 of
        None \<Rightarrow> (st, rules, Err ''network policy sequence overflow'')
      | Some sequence \<Rightarrow>
          (let st = st\<lparr>ns_next_sequence := sequence\<rparr>
           in case network_from_draft owner (ni_rule_id item) draft remote next_revision
                     sequence (ns_next_rule_id st) of
                Inl e \<Rightarrow> (st, rules, Err e)
              | Inr rule \<Rightarrow>
                  if ni_rule_id item = None \<and> nd_rule_id draft = None
                  then (case checked_add_u64 (ns_next_rule_id st) 1 of
                          None \<Rightarrow> (st, rules, Err ''network policy generated rule id overflow'')
                        | Some next \<Rightarrow>
                            (st\<lparr>ns_next_rule_id := next\<rparr>, bm_insert (sn_rule_id rule) rule rules, Ok ()))
                  else (st, bm_insert (sn_rule_id rule) rule rules, Ok ()))))"

definition network_apply_item ::
    "NetworkPolicyStore \<Rightarrow> string \<Rightarrow> (string, StoredNetworkRule) btree_map
      \<Rightarrow> NetworkPolicyPatchItem \<Rightarrow> u64 \<Rightarrow> NetworkPolicyRulesApplyGrant list
      \<Rightarrow> NetworkPolicyStore \<times> (string, StoredNetworkRule) btree_map \<times> (string + unit)" where
  "network_apply_item st owner rules item next_revision grants =
     (case ni_op item of
        NetworkPolicyPatchOp.Delete \<Rightarrow> (st, network_delete_item rules item)
      | NetworkPolicyPatchOp.Upsert \<Rightarrow> network_upsert_item st owner rules item next_revision grants)"

fun network_apply_items ::
    "string \<Rightarrow> u64 \<Rightarrow> NetworkPolicyRulesApplyGrant list \<Rightarrow> nat
      \<Rightarrow> NetworkPolicyPatchItem list \<Rightarrow> NetworkPolicyStore \<Rightarrow> (string, StoredNetworkRule) btree_map
      \<Rightarrow> NetworkPolicyApplyError list
      \<Rightarrow> NetworkPolicyStore \<times> (string, StoredNetworkRule) btree_map \<times> NetworkPolicyApplyError list" where
  "network_apply_items owner next_revision grants index [] st rules errors = (st, rules, errors)"
| "network_apply_items owner next_revision grants index (item # items) st rules errors =
     (case network_apply_item st owner rules item next_revision grants of
        (st, rules, Inl message) \<Rightarrow>
          network_apply_items owner next_revision grants (index + 1) items st rules
            (errors @ [network_apply_error (of_nat index) ''invalid-rule'' message])
      | (st, rules, Inr _) \<Rightarrow>
          network_apply_items owner next_revision grants (index + 1) items st rules errors)"

definition network_candidate_after ::
    "NetworkPolicyStore \<Rightarrow> string \<Rightarrow> NetworkPolicyRulesApplyGrant list
      \<Rightarrow> NetworkPolicyApplyRequest \<Rightarrow> NetworkPolicyApplyError list + NetworkPolicyStore" where
  "network_candidate_after st owner grants request =
     (let errors = network_validate_request (ns_revision st) owner request
      in if errors \<noteq> [] then Err errors
         else case checked_add_u64 (ns_revision st) 1 of
           None \<Rightarrow> Err [network_apply_error 0 ''revision-overflow'' ''network policy revision overflow'']
         | Some next_revision \<Rightarrow>
     (let candidate = st\<lparr>ns_by_owner := bm_remove owner (ns_by_owner st)\<rparr>;
          (candidate, owner_rules, errors) =
            network_apply_items owner next_revision grants 0 (nq_items request) candidate
              (network_owner_rules st owner) [];
          errors = (if errors = []
                    then case network_validate_owner_rules owner owner_rules of
                           Inl message \<Rightarrow> [network_apply_error 0 ''duplicate-scope'' message]
                         | Inr _ \<Rightarrow> []
                    else errors)
      in if errors \<noteq> [] then Err errors
         else
           (let by_owner = (if bm_entries owner_rules = [] then ns_by_owner candidate
                            else bm_insert owner owner_rules (ns_by_owner candidate));
                conflict = (\<lambda>message. [network_apply_error 0 ''endpoint-conflict'' message])
            in bind_result (map_err conflict (unique_remotes by_owner)) (\<lambda>_.
               map_err conflict (network_rebuild_effective
                 (candidate\<lparr>ns_by_owner := by_owner, ns_revision := next_revision\<rparr>))))))"

definition network_accepted_result :: "u64 \<Rightarrow> u32 \<Rightarrow> NetworkPolicyApplyResult" where
  "network_accepted_result revision applied_count =
     \<lparr>na_status = NetworkPolicyApplyStatus.Accepted, na_new_revision = revision,
      na_applied_count = applied_count, na_rejected_count = 0, na_errors = []\<rparr>"

definition network_rejected_result ::
    "u64 \<Rightarrow> NetworkPolicyApplyError list \<Rightarrow> NetworkPolicyApplyResult" where
  "network_rejected_result revision errors =
     \<lparr>na_status = NetworkPolicyApplyStatus.Rejected, na_new_revision = revision,
      na_applied_count = 0, na_rejected_count = of_nat (length errors), na_errors = errors\<rparr>"

definition network_validate_apply ::
    "NetworkPolicyStore \<Rightarrow> string \<Rightarrow> NetworkPolicyRulesApplyGrant list
      \<Rightarrow> NetworkPolicyApplyRequest \<Rightarrow> NetworkPolicyApplyResult" where
  "network_validate_apply st owner grants request =
     (case network_candidate_after st owner grants request of
        Inr _ \<Rightarrow> network_accepted_result (ns_revision st) (of_nat (length (nq_items request)))
      | Inl errors \<Rightarrow> network_rejected_result (ns_revision st) errors)"

definition network_apply ::
    "NetworkPolicyStore \<Rightarrow> string \<Rightarrow> NetworkPolicyRulesApplyGrant list
      \<Rightarrow> NetworkPolicyApplyRequest \<Rightarrow> NetworkPolicyStore \<times> NetworkPolicyApplyResult" where
  "network_apply st owner grants request =
     (case network_candidate_after st owner grants request of
        Inr candidate \<Rightarrow>
          (candidate, network_accepted_result (ns_revision candidate) (of_nat (length (nq_items request))))
      | Inl errors \<Rightarrow> (st, network_rejected_result (ns_revision st) errors))"

definition network_remove_owner ::
    "NetworkPolicyStore \<Rightarrow> string \<Rightarrow> NetworkPolicyStore \<times> (string + bool)" where
  "network_remove_owner st owner =
     (if owner = network_static_owner
      then (st, Err ''static network policy owner cannot be removed'')
      else if bm_get (ns_by_owner st) owner = None then (st, Ok False)
      else
        (let st = st\<lparr>ns_by_owner := bm_remove owner (ns_by_owner st)\<rparr>
         in case checked_add_u64 (ns_revision st) 1 of
              None \<Rightarrow> (st, Err ''network policy revision overflow'')
            | Some revision \<Rightarrow>
                (let st = st\<lparr>ns_revision := revision\<rparr>
                 in case network_rebuild_effective st of
                      Inl e \<Rightarrow> (st, Err e)
                    | Inr st \<Rightarrow> (st, Ok True))))"

end
