(* ===== verification/Network_System.thy ===== *)
theory Network_System
  imports Network_Policy Policy_Lookup
begin

text \<open>
  The network policy store as a system: ownership of remotes, the effective tables, the effect of
  a patch and the invariant of the published stores.
\<close>

section \<open>Ownership of remotes\<close>

text \<open>
  Remotes with their owners do not conflict: no selector occurs twice, and an any-port selector
  and an endpoint of the same address belong to one owner.
\<close>

definition remotes_ok :: "(string \<times> NetworkPolicyRemoteSelector) set \<Rightarrow> bool" where
  "remotes_ok R \<longleftrightarrow>
     (\<forall>a b s. (a, s) \<in> R \<longrightarrow> (b, s) \<in> R \<longrightarrow> a = b)
     \<and> (\<forall>a b e. (a, AnyPort (socket_ip e)) \<in> R \<longrightarrow> (b, Endpoint e) \<in> R \<longrightarrow> a = b)"

definition noted :: "(IpAddr, (string, SocketAddr) btree_map) btree_map \<Rightarrow> IpAddr \<Rightarrow> string \<Rightarrow> bool" where
  "noted m ip a \<longleftrightarrow> (\<exists>owners e. bm_get m ip = Some owners \<and> bm_get owners a = Some e)"

definition owners_ok :: "NetworkRemoteOwners \<Rightarrow> (string \<times> NetworkPolicyRemoteSelector) set \<Rightarrow> bool" where
  "owners_ok ro R \<longleftrightarrow>
     (\<forall>e a. bm_get (ro_by_endpoint ro) e = Some a \<longleftrightarrow> (a, Endpoint e) \<in> R)
     \<and> (\<forall>ip a. bm_get (ro_by_ip ro) ip = Some a \<longleftrightarrow> (a, AnyPort ip) \<in> R)
     \<and> (\<forall>ip a. noted (ro_endpoint_by_ip ro) ip a \<longleftrightarrow> (\<exists>e. socket_ip e = ip \<and> (a, Endpoint e) \<in> R))"

lemma owners_okD:
  assumes "owners_ok ro R"
  shows "(a, Endpoint e) \<in> R \<longleftrightarrow> bm_get (ro_by_endpoint ro) e = Some a"
    and "(a, AnyPort ip) \<in> R \<longleftrightarrow> bm_get (ro_by_ip ro) ip = Some a"
    and "noted (ro_endpoint_by_ip ro) ip a \<longleftrightarrow> (\<exists>e. socket_ip e = ip \<and> (a, Endpoint e) \<in> R)"
  using assms by (simp_all add: owners_ok_def)

lemma owners_ok_empty: "owners_ok no_remotes {}" "remotes_ok {}"
  by (simp_all add: owners_ok_def no_remotes_def remotes_ok_def noted_def)

lemma noted_note_endpoint:
  "noted (note_endpoint o' endpoint m) ip a \<longleftrightarrow> (ip = socket_ip endpoint \<and> a = o') \<or> noted m ip a"
  by (cases "ip = socket_ip endpoint")
    (auto simp: noted_def note_endpoint_def Let_def split: option.splits if_splits)

lemma insert_endpoint_Ok:
  assumes ok: "owners_ok ro R" "remotes_ok R" and ins: "remote_owners_insert ro (Endpoint e) o' = Inr ro'"
  shows "owners_ok ro' (insert (o', Endpoint e) R) \<and> remotes_ok (insert (o', Endpoint e) R)
    \<and> (\<forall>a. (a, Endpoint e) \<notin> R)"
proof -
  from ins have free: "bm_get (ro_by_endpoint ro) e = None"
    and same: "\<And>a. bm_get (ro_by_ip ro) (socket_ip e) = Some a \<Longrightarrow> a = o'"
    and ro': "ro' = ro\<lparr>ro_by_endpoint := bm_insert e o' (ro_by_endpoint ro),
                      ro_endpoint_by_ip := note_endpoint o' e (ro_endpoint_by_ip ro)\<rparr>"
    by (auto split: option.splits if_splits)
  have new: "(a, Endpoint e) \<notin> R" for a using free by (simp add: owners_okD [OF ok(1)])
  have "owners_ok ro' (insert (o', Endpoint e) R)"
    unfolding owners_ok_def
  proof (intro conjI allI)
    show "bm_get (ro_by_endpoint ro') e' = Some a \<longleftrightarrow> (a, Endpoint e') \<in> insert (o', Endpoint e) R" for e' a
      using free by (auto simp: ro' owners_okD [OF ok(1)])
    show "bm_get (ro_by_ip ro') ip = Some a \<longleftrightarrow> (a, AnyPort ip) \<in> insert (o', Endpoint e) R" for ip a
      by (simp add: ro' owners_okD [OF ok(1)])
    show "noted (ro_endpoint_by_ip ro') ip a
        \<longleftrightarrow> (\<exists>e'. socket_ip e' = ip \<and> (a, Endpoint e') \<in> insert (o', Endpoint e) R)" for ip a
      by (simp add: ro' noted_note_endpoint owners_okD(3) [OF ok(1)]) blast
  qed
  moreover have "a = o'" if "(a, AnyPort (socket_ip e)) \<in> R" for a
    using that same by (simp add: owners_okD [OF ok(1)])
  ultimately show ?thesis
    using ok(2) new by (auto simp: remotes_ok_def)
qed

lemma insert_any_port_Ok:
  assumes ok: "owners_ok ro R" "remotes_ok R" and ins: "remote_owners_insert ro (AnyPort ip) o' = Inr ro'"
  shows "owners_ok ro' (insert (o', AnyPort ip) R) \<and> remotes_ok (insert (o', AnyPort ip) R)
    \<and> (\<forall>a. (a, AnyPort ip) \<notin> R)"
proof -
  from ins have free: "bm_get (ro_by_ip ro) ip = None"
    and none: "(case bm_get (ro_endpoint_by_ip ro) ip of None \<Rightarrow> None
      | Some owners \<Rightarrow> find (\<lambda>(existing, _). existing \<noteq> o') (bm_entries owners)) = None"
    and ro': "ro' = ro\<lparr>ro_by_ip := bm_insert ip o' (ro_by_ip ro)\<rparr>"
    by (auto split: option.splits)
  have new: "(a, AnyPort ip) \<notin> R" for a using free by (simp add: owners_okD [OF ok(1)])
  have "a = o'" if e: "(a, Endpoint e) \<in> R" "socket_ip e = ip" for a e
  proof -
    from e have "noted (ro_endpoint_by_ip ro) ip a" unfolding owners_okD(3) [OF ok(1)] by blast
    then obtain owners e' where "bm_get (ro_endpoint_by_ip ro) ip = Some owners" "bm_get owners a = Some e'"
      unfolding noted_def by blast
    with none show ?thesis by (auto simp: find_None_iff bm_entries_iff [symmetric])
  qed
  moreover have "owners_ok ro' (insert (o', AnyPort ip) R)"
    unfolding owners_ok_def
  proof (intro conjI allI)
    show "bm_get (ro_by_endpoint ro') e = Some a \<longleftrightarrow> (a, Endpoint e) \<in> insert (o', AnyPort ip) R" for e a
      by (simp add: ro' owners_okD [OF ok(1)])
    show "bm_get (ro_by_ip ro') ip' = Some a \<longleftrightarrow> (a, AnyPort ip') \<in> insert (o', AnyPort ip) R" for ip' a
      using free by (auto simp: ro' owners_okD [OF ok(1)])
    show "noted (ro_endpoint_by_ip ro') ip' a
        \<longleftrightarrow> (\<exists>e. socket_ip e = ip' \<and> (a, Endpoint e) \<in> insert (o', AnyPort ip) R)" for ip' a
      by (simp add: ro' owners_okD(3) [OF ok(1)])
  qed
  ultimately show ?thesis
    using ok(2) new by (auto simp: remotes_ok_def)
qed

lemma insert_remotes_Ok:
  "insert_remotes ro xs = Inr u \<Longrightarrow> owners_ok ro R \<Longrightarrow> remotes_ok R
    \<Longrightarrow> remotes_ok (set xs \<union> R) \<and> distinct (map snd xs) \<and> (\<forall>s \<in> set (map snd xs). \<forall>a. (a, s) \<notin> R)"
proof (induction xs arbitrary: ro R)
  case (Cons x xs)
  obtain o' s where x: "x = (o', s)" by (cases x)
  from Cons.prems(1) obtain ro' where ins: "remote_owners_insert ro s o' = Inr ro'"
    and rest: "insert_remotes ro' xs = Inr u"
    by (auto simp: x)
  have "owners_ok ro' (insert (o', s) R) \<and> remotes_ok (insert (o', s) R) \<and> (\<forall>a. (a, s) \<notin> R)"
    using ins insert_endpoint_Ok [OF Cons.prems(2,3)] insert_any_port_Ok [OF Cons.prems(2,3)]
    by (cases s) blast+
  moreover with Cons.IH [OF rest] have "remotes_ok (set xs \<union> insert (o', s) R) \<and> distinct (map snd xs)
      \<and> (\<forall>t \<in> set (map snd xs). \<forall>a. (a, t) \<notin> insert (o', s) R)" by blast
  ultimately show ?case by (auto simp: x)
qed simp

section \<open>Stored rules and effective tables\<close>

definition network_stored :: "NetworkPolicyStore \<Rightarrow> string \<Rightarrow> string \<Rightarrow> StoredNetworkRule option" where
  "network_stored st owner rid = bm_get (network_owner_rules st owner) rid"

lemma network_all_rules_iff:
  "r \<in> set (network_all_rules st) \<longleftrightarrow> (\<exists>owner rid. network_stored st owner rid = Some r)"
proof -
  have "r \<in> set (network_all_rules st)
      \<longleftrightarrow> (\<exists>o' rs i. bm_get (ns_by_owner st) o' = Some rs \<and> bm_get rs i = Some r)"
    using nested_values_iff [of r "ns_by_owner st"]
    by (simp add: network_all_rules_def nested_values_def)
  also have "\<dots> \<longleftrightarrow> (\<exists>owner rid. network_stored st owner rid = Some r)"
    unfolding network_stored_def network_owner_rules_def
    by (intro arg_cong [of _ _ Ex] ext) (auto split: option.splits)
  finally show ?thesis .
qed

text \<open>The rules of a list do not conflict.\<close>

definition rules_apart :: "StoredNetworkRule list \<Rightarrow> bool" where
  "rules_apart rules \<longleftrightarrow>
     distinct (map sn_remote rules)
     \<and> remotes_ok (set (map (\<lambda>r. (sn_owner_instance_id r, sn_remote r)) rules))"

lemma effective_ips_Ok:
  "distinct (map sn_remote rules)
    \<Longrightarrow> (\<And>r ip. r \<in> set rules \<Longrightarrow> sn_remote r = AnyPort ip \<Longrightarrow> bm_get m ip = None)
    \<Longrightarrow> \<exists>m'. effective_ips m rules = Ok m'
      \<and> (\<forall>ip r. bm_get m' ip = Some r \<longleftrightarrow> bm_get m ip = Some r \<or> r \<in> set rules \<and> sn_remote r = AnyPort ip)"
proof (induction rules arbitrary: m)
  case (Cons r rules)
  show ?case
  proof (cases "sn_remote r")
    case (Endpoint e)
    have "\<exists>m'. effective_ips m rules = Ok m' \<and> (\<forall>ip r. bm_get m' ip = Some r
        \<longleftrightarrow> bm_get m ip = Some r \<or> r \<in> set rules \<and> sn_remote r = AnyPort ip)"
      by (rule Cons.IH) (use Cons.prems in auto)
    moreover have "r' \<in> set (r # rules) \<and> sn_remote r' = AnyPort ip
        \<longleftrightarrow> r' \<in> set rules \<and> sn_remote r' = AnyPort ip" for r' ip using Endpoint by auto
    ultimately show ?thesis using Endpoint by simp
  next
    case (AnyPort ip)
    have none: "bm_get m ip = None" using Cons.prems(2) [of r ip] AnyPort by simp
    have other: "sn_remote r' \<noteq> AnyPort ip" if "r' \<in> set rules" for r'
      using that Cons.prems(1) AnyPort by (auto simp: image_iff)
    have "\<exists>m'. effective_ips (bm_insert ip r m) rules = Ok m'
      \<and> (\<forall>ip' r'. bm_get m' ip' = Some r' \<longleftrightarrow> bm_get (bm_insert ip r m) ip' = Some r'
        \<or> r' \<in> set rules \<and> sn_remote r' = AnyPort ip')"
    proof (rule Cons.IH)
      show "bm_get (bm_insert ip r m) ip' = None" if "r' \<in> set rules" "sn_remote r' = AnyPort ip'" for r' ip'
        using that other Cons.prems(2) [of r' ip'] by auto
    qed (use Cons.prems in auto)
    then obtain m' where "effective_ips (bm_insert ip r m) rules = Ok m'"
      and m': "\<And>ip' r'. bm_get m' ip' = Some r' \<longleftrightarrow> bm_get (bm_insert ip r m) ip' = Some r'
        \<or> r' \<in> set rules \<and> sn_remote r' = AnyPort ip'"
      by blast
    then have "effective_ips m (r # rules) = Ok m'" using AnyPort none by simp
    moreover have "bm_get m' ip' = Some r' \<longleftrightarrow> bm_get m ip' = Some r'
        \<or> r' \<in> set (r # rules) \<and> sn_remote r' = AnyPort ip'" for ip' r'
      unfolding m' using AnyPort none by auto
    ultimately show ?thesis by (intro exI [of _ m'] conjI allI)
  qed
qed simp

lemma effective_endpoints_Ok:
  "distinct (map sn_remote rules)
    \<Longrightarrow> (\<And>r e. r \<in> set rules \<Longrightarrow> sn_remote r = Endpoint e \<Longrightarrow> bm_get m e = None)
    \<Longrightarrow> (\<And>r e a. r \<in> set rules \<Longrightarrow> sn_remote r = Endpoint e \<Longrightarrow> bm_get by_ip (socket_ip e) = Some a
        \<Longrightarrow> sn_owner_instance_id a = sn_owner_instance_id r)
    \<Longrightarrow> \<exists>m'. effective_endpoints by_ip m rules = Ok m'
      \<and> (\<forall>e r. bm_get m' e = Some r \<longleftrightarrow> bm_get m e = Some r \<or> r \<in> set rules \<and> sn_remote r = Endpoint e)"
proof (induction rules arbitrary: m)
  case (Cons r rules)
  show ?case
  proof (cases "sn_remote r")
    case (AnyPort ip)
    have "\<exists>m'. effective_endpoints by_ip m rules = Ok m' \<and> (\<forall>e r. bm_get m' e = Some r
        \<longleftrightarrow> bm_get m e = Some r \<or> r \<in> set rules \<and> sn_remote r = Endpoint e)"
    proof (rule Cons.IH)
      show "distinct (map sn_remote rules)" using Cons.prems(1) by simp
      show "bm_get m e = None" if "r' \<in> set rules" "sn_remote r' = Endpoint e" for r' e
        using that by (intro Cons.prems(2) [of r' e]) simp_all
      show "sn_owner_instance_id a = sn_owner_instance_id r'"
        if "r' \<in> set rules" "sn_remote r' = Endpoint e" "bm_get by_ip (socket_ip e) = Some a" for r' e a
        using that by (intro Cons.prems(3) [of r' e a]) simp_all
    qed
    moreover have "r' \<in> set (r # rules) \<and> sn_remote r' = Endpoint e
        \<longleftrightarrow> r' \<in> set rules \<and> sn_remote r' = Endpoint e" for r' e using AnyPort by auto
    ultimately show ?thesis using AnyPort by simp
  next
    case (Endpoint e)
    have none: "bm_get m e = None" using Cons.prems(2) [of r e] Endpoint by simp
    have other: "sn_remote r' \<noteq> Endpoint e" if "r' \<in> set rules" for r'
      using that Cons.prems(1) Endpoint by (auto simp: image_iff)
    have own: "sn_owner_instance_id a = sn_owner_instance_id r" if "bm_get by_ip (socket_ip e) = Some a" for a
      using Cons.prems(3) [of r e a] Endpoint that by simp
    have "\<exists>m'. effective_endpoints by_ip (bm_insert e r m) rules = Ok m'
      \<and> (\<forall>e' r'. bm_get m' e' = Some r' \<longleftrightarrow> bm_get (bm_insert e r m) e' = Some r'
        \<or> r' \<in> set rules \<and> sn_remote r' = Endpoint e')"
    proof (rule Cons.IH)
      show "bm_get (bm_insert e r m) e' = None" if "r' \<in> set rules" "sn_remote r' = Endpoint e'" for r' e'
        using that other Cons.prems(2) [of r' e'] by auto
      show "distinct (map sn_remote rules)" using Cons.prems(1) by simp
      show "sn_owner_instance_id a = sn_owner_instance_id r'"
        if "r' \<in> set rules" "sn_remote r' = Endpoint e" "bm_get by_ip (socket_ip e) = Some a" for r' e a
        using that by (intro Cons.prems(3) [of r' e a]) simp_all
    qed
    then obtain m' where run: "effective_endpoints by_ip (bm_insert e r m) rules = Ok m'"
      and m': "\<And>e' r'. bm_get m' e' = Some r' \<longleftrightarrow> bm_get (bm_insert e r m) e' = Some r'
        \<or> r' \<in> set rules \<and> sn_remote r' = Endpoint e'"
      by blast
    have "effective_endpoints by_ip m (r # rules) = Ok m'"
      using Endpoint none own run by (cases "bm_get by_ip (socket_ip e)") simp_all
    moreover have "bm_get m' e' = Some r' \<longleftrightarrow> bm_get m e' = Some r'
        \<or> r' \<in> set (r # rules) \<and> sn_remote r' = Endpoint e'" for e' r'
      unfolding m' using Endpoint none by auto
    ultimately show ?thesis by (intro exI [of _ m'] conjI allI)
  qed
qed simp

definition network_effective :: "NetworkPolicyStore \<Rightarrow> bool" where
  "network_effective st \<longleftrightarrow>
     (\<forall>e r. bm_get (ns_effective_by_endpoint st) e = Some r
        \<longleftrightarrow> r \<in> set (network_all_rules st) \<and> sn_remote r = Endpoint e)
     \<and> (\<forall>ip r. bm_get (ns_effective_by_ip st) ip = Some r
        \<longleftrightarrow> r \<in> set (network_all_rules st) \<and> sn_remote r = AnyPort ip)"

text \<open>Rebuilding the tables succeeds whenever the rules do not conflict.\<close>

lemma network_rebuild_Ok:
  assumes "rules_apart (network_all_rules st)"
  shows "\<exists>st'. network_rebuild_effective st = Ok st' \<and> network_effective st'
    \<and> ns_by_owner st' = ns_by_owner st \<and> ns_revision st' = ns_revision st"
proof -
  let ?rules = "network_all_rules st"
  from assms obtain by_ip where ips: "effective_ips bm_empty ?rules = Ok by_ip"
    and by_ip: "\<And>ip r. bm_get by_ip ip = Some r \<longleftrightarrow> r \<in> set ?rules \<and> sn_remote r = AnyPort ip"
    using effective_ips_Ok [of ?rules bm_empty] by (auto simp: rules_apart_def)
  have own: "sn_owner_instance_id a = sn_owner_instance_id r"
    if "r \<in> set ?rules" "sn_remote r = Endpoint e" "bm_get by_ip (socket_ip e) = Some a" for r e a
  proof -
    from that(3) have "a \<in> set ?rules" "sn_remote a = AnyPort (socket_ip e)" by (simp_all add: by_ip)
    with that(1,2) have "(sn_owner_instance_id a, AnyPort (socket_ip e))
        \<in> set (map (\<lambda>r. (sn_owner_instance_id r, sn_remote r)) ?rules)"
      "(sn_owner_instance_id r, Endpoint e) \<in> set (map (\<lambda>r. (sn_owner_instance_id r, sn_remote r)) ?rules)"
      by (force simp: image_iff)+
    with assms show ?thesis unfolding rules_apart_def remotes_ok_def by blast
  qed
  have "\<exists>m'. effective_endpoints by_ip bm_empty ?rules = Ok m'
      \<and> (\<forall>e r. bm_get m' e = Some r \<longleftrightarrow> bm_get bm_empty e = Some r \<or> r \<in> set ?rules \<and> sn_remote r = Endpoint e)"
  proof (rule effective_endpoints_Ok)
    show "distinct (map sn_remote ?rules)" using assms by (simp add: rules_apart_def)
    show "sn_owner_instance_id a = sn_owner_instance_id r"
      if "r \<in> set ?rules" "sn_remote r = Endpoint e" "bm_get by_ip (socket_ip e) = Some a" for r e a
      using that by (rule own)
  qed simp
  then obtain by_endpoint where ends: "effective_endpoints by_ip bm_empty ?rules = Ok by_endpoint"
    and by_endpoint: "\<And>e r. bm_get by_endpoint e = Some r \<longleftrightarrow> r \<in> set ?rules \<and> sn_remote r = Endpoint e"
    by auto
  from ips ends show ?thesis
    by (simp add: network_rebuild_effective_def network_effective_def network_all_rules_def
        by_ip [unfolded network_all_rules_def] by_endpoint [unfolded network_all_rules_def])
qed

section \<open>The effect of a patch\<close>

definition network_made ::
    "NetworkPolicyRulesApplyGrant list \<Rightarrow> u64 \<Rightarrow> string \<Rightarrow> string \<Rightarrow> StoredNetworkRule \<Rightarrow> bool" where
  "network_made grants rv owner rid r \<longleftrightarrow>
     sn_rule_id r = rid \<and> sn_owner_instance_id r = owner \<and> sn_rule_revision r = rv
     \<and> (\<exists>grant \<in> set grants. ng_decision grant = sn_decision r
          \<and> grant_scope_covers (ng_remote_scope grant) (sn_remote r))"

lemma network_from_draft_Ok:
  "network_from_draft owner item_id draft remote rv sq n = Inr r
    \<Longrightarrow> sn_owner_instance_id r = owner \<and> sn_rule_revision r = rv \<and> sn_remote r = remote
      \<and> sn_decision r = nd_decision draft"
  by (auto simp: network_from_draft_def Let_def)

lemma network_check_draft_Ok:
  "network_check_draft owner item grants = Inr (draft, remote)
    \<Longrightarrow> \<exists>grant \<in> set grants. ng_decision grant = nd_decision draft
        \<and> grant_scope_covers (ng_remote_scope grant) remote"
  by (auto simp: network_check_draft_def network_draft_grant_def list_ex_iff split: option.splits if_splits)

definition network_patch ::
    "NetworkPolicyRulesApplyGrant list \<Rightarrow> u64 \<Rightarrow> string
      \<Rightarrow> NetworkPolicyStore \<times> (string, StoredNetworkRule) btree_map
      \<Rightarrow> NetworkPolicyStore \<times> (string, StoredNetworkRule) btree_map \<Rightarrow> bool" where
  "network_patch grants rv owner = (\<lambda>(st, rules) (st', rules').
     ns_by_owner st' = ns_by_owner st \<and> ns_revision st' = ns_revision st
     \<and> (\<forall>rid r. bm_get rules' rid = Some r
          \<longrightarrow> bm_get rules rid = Some r \<or> network_made grants rv owner rid r))"

lemma network_patch_trans:
  "network_patch grants rv owner a b \<Longrightarrow> network_patch grants rv owner b c
    \<Longrightarrow> network_patch grants rv owner a c"
  by (cases a; cases b; cases c) (simp add: network_patch_def, blast)

lemma network_upsert_effect:
  assumes "network_upsert_item st owner rules item rv grants = (st', rules', out)"
  shows "network_patch grants rv owner (st, rules) (st', rules')"
proof (cases "rules' = rules")
  case True
  with assms show ?thesis
    by (auto simp: network_upsert_item_def network_patch_def Let_def split: sum.splits option.splits if_splits)
next
  case False
  with assms obtain draft remote sq n r where
    made: "network_check_draft owner item grants = Inr (draft, remote)"
      "network_from_draft owner (ni_rule_id item) draft remote rv sq n = Inr r"
    and upd: "rules' = bm_insert (sn_rule_id r) r rules" "ns_by_owner st' = ns_by_owner st"
      "ns_revision st' = ns_revision st"
    by (auto simp: network_upsert_item_def Let_def split: sum.splits option.splits if_splits)
  have "network_made grants rv owner (sn_rule_id r) r"
    using network_from_draft_Ok [OF made(2)] network_check_draft_Ok [OF made(1)]
    by (simp add: network_made_def)
  with upd show ?thesis by (simp add: network_patch_def)
qed

lemma network_apply_item_effect:
  assumes "network_apply_item st owner rules item rv grants = (st', rules', out)"
  shows "network_patch grants rv owner (st, rules) (st', rules')"
proof (cases "ni_op item")
  case Upsert
  with assms show ?thesis by (intro network_upsert_effect) (simp add: network_apply_item_def)
next
  case Delete
  with assms show ?thesis
    by (auto simp: network_apply_item_def network_delete_item_def network_patch_def
        split: if_splits option.splits)
qed

lemma network_apply_items_effect:
  "network_apply_items owner rv grants i items st rules errs = (st', rules', errs')
    \<Longrightarrow> network_patch grants rv owner (st, rules) (st', rules')"
proof (induction items arbitrary: i st rules errs)
  case Nil
  then show ?case by (simp add: network_patch_def)
next
  case (Cons item items)
  obtain st1 rules1 out where item: "network_apply_item st owner rules item rv grants = (st1, rules1, out)"
    by (cases "network_apply_item st owner rules item rv grants")
  with Cons.prems obtain errs1 where
    "network_apply_items owner rv grants (i + 1) items st1 rules1 errs1 = (st', rules', errs')"
    by (cases out) auto
  with item show ?case by (blast intro: network_patch_trans network_apply_item_effect Cons.IH)
qed

lemma validate_network_entries_ids:
  "validate_network_entries owner ro es = Inr u \<Longrightarrow> (k, r) \<in> set es \<Longrightarrow> sn_rule_id r = k"
  by (induction owner ro es rule: validate_network_entries.induct) (auto split: if_splits)

lemma unique_remotes_apart:
  assumes "unique_remotes (ns_by_owner st) = Inr u"
    and "\<And>owner rid r. network_stored st owner rid = Some r \<Longrightarrow> sn_owner_instance_id r = owner"
  shows "rules_apart (network_all_rules st)"
proof -
  let ?pair = "\<lambda>r. (sn_owner_instance_id r, sn_remote r)"
  have "map (\<lambda>r. (o', sn_remote r)) (bm_values rs) = map ?pair (bm_values rs)"
    if "(o', rs) \<in> set (bm_entries (ns_by_owner st))" for o' rs
    using that assms(2) [of o']
    by (intro map_cong) (auto simp: bm_values_iff bm_entries_iff network_stored_def network_owner_rules_def)
  then have "concat (map (\<lambda>(o', rs). map (\<lambda>r. (o', sn_remote r)) (bm_values rs)) (bm_entries (ns_by_owner st)))
      = map ?pair (network_all_rules st)"
    unfolding network_all_rules_def bm_values_def [of "ns_by_owner st"] map_concat map_map
    by (intro arg_cong [of _ _ concat] map_cong) auto
  with assms(1) have "insert_remotes no_remotes (map ?pair (network_all_rules st)) = Inr u"
    by (simp add: unique_remotes_def)
  from insert_remotes_Ok [OF this owners_ok_empty] show ?thesis
    by (simp add: rules_apart_def comp_def)
qed


section \<open>The system\<close>

definition network_named :: "NetworkPolicyStore \<Rightarrow> bool" where
  "network_named st \<longleftrightarrow>
     (\<forall>owner rid r. network_stored st owner rid = Some r
        \<longrightarrow> sn_owner_instance_id r = owner \<and> sn_rule_id r = rid \<and> sn_rule_revision r \<le> ns_revision st)"

definition network_inv :: "NetworkPolicyStore \<Rightarrow> bool" where
  "network_inv st \<longleftrightarrow>
     network_named st \<and> network_effective st \<and> rules_apart (network_all_rules st)"

lemma network_distinct:
  assumes "network_named st"
  shows "distinct (network_all_rules st)"
proof -
  let ?name = "\<lambda>r. (sn_owner_instance_id r, sn_rule_id r)"
  have name: "?name r = (o', i)" if "bm_get (ns_by_owner st) o' = Some rs" "bm_get rs i = Some r" for o' rs i r
  proof -
    from that have "network_stored st o' i = Some r" by (simp add: network_stored_def network_owner_rules_def)
    with assms show ?thesis by (simp add: network_named_def)
  qed
  have "distinct (map ?name (nested_values (ns_by_owner st)))"
    using name by (intro nested_values_sorted(2)) blast
  then show ?thesis by (simp add: network_all_rules_def nested_values_def distinct_map)
qed

lemma remotes_ok_mono: "remotes_ok R \<Longrightarrow> S \<subseteq> R \<Longrightarrow> remotes_ok S"
  unfolding remotes_ok_def by (meson subsetD)

lemma rules_apart_subset:
  assumes "rules_apart xs" and "set ys \<subseteq> set xs" and "distinct ys"
  shows "rules_apart ys"
proof -
  have "inj_on sn_remote (set ys)" using assms(1,2) by (auto simp: rules_apart_def distinct_map inj_on_subset)
  moreover have "remotes_ok (set (map (\<lambda>r. (sn_owner_instance_id r, sn_remote r)) ys))"
    using assms(1) unfolding rules_apart_def
    by (elim conjE remotes_ok_mono) (use assms(2) in auto)
  ultimately show ?thesis using assms(3) by (simp add: rules_apart_def distinct_map)
qed

lemma network_stored_same:
  assumes "ns_by_owner st' = ns_by_owner st"
  shows "network_stored st' = network_stored st" and "network_all_rules st' = network_all_rules st"
    and "network_owner_rules st' = network_owner_rules st"
  using assms by (auto simp: network_stored_def network_owner_rules_def network_all_rules_def fun_eq_iff)

lemma network_candidate_Ok:
  assumes "network_candidate_after st owner grants request = Inr st'"
  obtains rv rules where "checked_add_u64 (ns_revision st) 1 = Some rv" and "ns_revision st' = rv"
    and "owner \<noteq> network_static_owner" and "nq_base_revision request = ns_revision st"
    and "network_validate_owner_rules owner rules = Inr ()"
    and "\<And>o'. network_owner_rules st' o' = (if o' = owner then rules else network_owner_rules st o')"
    and "\<And>rid r. bm_get rules rid = Some r
      \<Longrightarrow> network_stored st owner rid = Some r \<or> network_made grants rv owner rid r"
    and "unique_remotes (ns_by_owner st') = Inr ()"
    and "\<exists>mid. network_rebuild_effective mid = Inr st' \<and> ns_by_owner mid = ns_by_owner st'"
proof -
  from assms obtain rv where req: "network_validate_request (ns_revision st) owner request = []"
    and rv: "checked_add_u64 (ns_revision st) 1 = Some rv"
    by (auto simp: network_candidate_after_def Let_def split: if_splits option.splits)
  let ?start = "st\<lparr>ns_by_owner := bm_remove owner (ns_by_owner st)\<rparr>"
  obtain cand rules errs where items: "network_apply_items owner rv grants 0 (nq_items request) ?start
      (network_owner_rules st owner) [] = (cand, rules, errs)"
    by (cases "network_apply_items owner rv grants 0 (nq_items request) ?start
      (network_owner_rules st owner) []")
  let ?by = "if bm_entries rules = [] then ns_by_owner cand else bm_insert owner rules (ns_by_owner cand)"
  from assms req rv items have valid: "network_validate_owner_rules owner rules = Inr ()"
    and unique: "unique_remotes ?by = Inr ()"
    and rebuild: "network_rebuild_effective (cand\<lparr>ns_by_owner := ?by, ns_revision := rv\<rparr>) = Inr st'"
    by (auto simp: network_candidate_after_def Let_def split: if_splits sum.splits)
  from network_apply_items_effect [OF items]
  have bo: "ns_by_owner cand = bm_remove owner (ns_by_owner st)"
    and made: "\<And>rid r. bm_get rules rid = Some r
      \<Longrightarrow> bm_get (network_owner_rules st owner) rid = Some r \<or> network_made grants rv owner rid r"
    by (simp_all add: network_patch_def)
  have st': "ns_by_owner st' = ?by" "ns_revision st' = rv"
    using rebuild by (auto simp: network_rebuild_effective_def)
  have "rules = bm_empty" if "bm_entries rules = []" using that by (metis bm_empty.rep_eq bm_entries_inject)
  then have "network_owner_rules st' o' = (if o' = owner then rules else network_owner_rules st o')" for o'
    by (auto simp: st' bo network_owner_rules_def)
  moreover have "owner \<noteq> network_static_owner" "nq_base_revision request = ns_revision st"
    using req by (auto simp: network_validate_request_def split: if_splits)
  moreover have "\<exists>mid. network_rebuild_effective mid = Inr st' \<and> ns_by_owner mid = ns_by_owner st'"
    using rebuild st' by (intro exI [of _ "cand\<lparr>ns_by_owner := ?by, ns_revision := rv\<rparr>"]) simp
  ultimately show ?thesis
    using rv valid made unique st' by (intro that [of rv rules]) (simp_all add: network_stored_def)
qed

lemma network_candidate_change:
  assumes cand: "network_candidate_after st owner grants request = Inr st'"
  shows "ns_revision st < ns_revision st'"
    and "network_stored st' o' rid = Some r \<Longrightarrow>
      network_stored st o' rid = Some r \<or> o' = owner \<and> network_made grants (ns_revision st') owner rid r"
    and "o' \<noteq> owner \<Longrightarrow> network_stored st' o' rid = network_stored st o' rid"
proof -
  from cand obtain rv rules where rv: "checked_add_u64 (ns_revision st) 1 = Some rv"
    and rev: "ns_revision st' = rv"
    and at: "\<And>o'. network_owner_rules st' o' = (if o' = owner then rules else network_owner_rules st o')"
    and made: "\<And>rid r. bm_get rules rid = Some r
      \<Longrightarrow> network_stored st owner rid = Some r \<or> network_made grants rv owner rid r"
    by (rule network_candidate_Ok) blast
  show "ns_revision st < ns_revision st'"
    unfolding rev using checked_add_u64_Some [OF rv] by (simp add: word_less_nat_alt)
  show "network_stored st o' rid = Some r \<or> o' = owner \<and> network_made grants (ns_revision st') owner rid r"
    if "network_stored st' o' rid = Some r"
    using that made [of rid r] unfolding network_stored_def at rev by (cases "o' = owner") auto
  show "network_stored st' o' rid = network_stored st o' rid" if "o' \<noteq> owner"
    using that by (simp add: network_stored_def at)
qed

lemma network_rebuilt_effective:
  assumes "network_rebuild_effective mid = Inr st'" and "rules_apart (network_all_rules st')"
    and "ns_by_owner mid = ns_by_owner st'"
  shows "network_effective st'"
  using network_rebuild_Ok [of mid] assms network_stored_same(2) [OF assms(3)] by auto

lemma network_candidate_inv:
  assumes inv: "network_inv st" and cand: "network_candidate_after st owner grants request = Inr st'"
  shows "network_inv st'"
proof -
  from cand obtain mid where unique: "unique_remotes (ns_by_owner st') = Inr ()"
    and mid: "network_rebuild_effective mid = Inr st'" "ns_by_owner mid = ns_by_owner st'"
    by (rule network_candidate_Ok) blast
  have named: "network_named st'"
    unfolding network_named_def
  proof (intro allI impI)
    fix o' rid r
    assume "network_stored st' o' rid = Some r"
    from network_candidate_change(2) [OF cand this]
    show "sn_owner_instance_id r = o' \<and> sn_rule_id r = rid \<and> sn_rule_revision r \<le> ns_revision st'"
    proof
      assume "network_stored st o' rid = Some r"
      with inv have "sn_owner_instance_id r = o' \<and> sn_rule_id r = rid \<and> sn_rule_revision r \<le> ns_revision st"
        by (simp add: network_inv_def network_named_def)
      with network_candidate_change(1) [OF cand] show ?thesis by auto
    qed (simp add: network_made_def)
  qed
  have apart: "rules_apart (network_all_rules st')"
    using unique by (rule unique_remotes_apart) (use named in \<open>simp add: network_named_def\<close>)
  from named apart network_rebuilt_effective [OF mid(1) apart mid(2)] show ?thesis
    by (simp add: network_inv_def)
qed


lemma network_remove_Ok:
  assumes "network_remove_owner st owner = (st', Inr b)"
  obtains (absent) "st' = st" and "\<not> b"
  | (removed) rv mid where "checked_add_u64 (ns_revision st) 1 = Some rv" and "ns_revision st' = rv" and b
      and "owner \<noteq> network_static_owner"
      and "network_rebuild_effective mid = Inr st'" and "ns_by_owner mid = ns_by_owner st'"
      and "\<And>o'. network_owner_rules st' o' = (if o' = owner then bm_empty else network_owner_rules st o')"
proof (cases "bm_get (ns_by_owner st) owner")
  case None
  with assms have "st' = st \<and> \<not> b" by (simp add: network_remove_owner_def split: if_splits)
  then show ?thesis using absent by blast
next
  case (Some rules)
  have static: "owner \<noteq> network_static_owner" using assms by (auto simp: network_remove_owner_def)
  let ?st = "\<lambda>rv. st\<lparr>ns_by_owner := bm_remove owner (ns_by_owner st), ns_revision := rv\<rparr>"
  from assms Some static obtain rv where rv: "checked_add_u64 (ns_revision st) 1 = Some rv"
    by (cases "checked_add_u64 (ns_revision st) 1") (simp_all add: network_remove_owner_def)
  with assms Some static have b and rebuild: "network_rebuild_effective (?st rv) = Inr st'"
    by (auto simp: network_remove_owner_def Let_def split: sum.splits)
  from rebuild have st': "ns_by_owner st' = bm_remove owner (ns_by_owner st)" "ns_revision st' = rv"
    by (auto simp: network_rebuild_effective_def)
  then have "network_owner_rules st' o' = (if o' = owner then bm_empty else network_owner_rules st o')" for o'
    by (simp add: network_owner_rules_def)
  with rv st' \<open>b\<close> static rebuild show ?thesis by (intro removed [of rv "?st rv"]) simp_all
qed

text \<open>A departure never fails while revisions are left: what remains does not conflict.\<close>

lemma network_remove_succeeds:
  assumes inv: "network_inv st" and "owner \<noteq> network_static_owner"
    and rv: "checked_add_u64 (ns_revision st) 1 = Some rv"
  shows "\<exists>st' b. network_remove_owner st owner = (st', Ok b)"
proof (cases "bm_get (ns_by_owner st) owner")
  case None
  with assms(2) show ?thesis by (intro exI [of _ st] exI [of _ False]) (simp add: network_remove_owner_def)
next
  case (Some rules)
  let ?st = "st\<lparr>ns_by_owner := bm_remove owner (ns_by_owner st), ns_revision := rv\<rparr>"
  have at: "network_stored ?st o' rid = (if o' = owner then None else network_stored st o' rid)" for o' rid
    by (simp add: network_stored_def network_owner_rules_def)
  then have "network_named ?st"
    using inv checked_add_u64_Some [OF rv]
    by (auto simp: network_inv_def network_named_def word_le_nat_alt split: if_splits) force
  then have "distinct (network_all_rules ?st)" by (rule network_distinct)
  moreover have "set (network_all_rules ?st) \<subseteq> set (network_all_rules st)"
    using at by (auto simp: network_all_rules_iff subset_iff split: if_splits)
  ultimately have "rules_apart (network_all_rules ?st)"
    using inv rules_apart_subset [of "network_all_rules st"] by (simp add: network_inv_def)
  from network_rebuild_Ok [OF this] obtain st' where "network_rebuild_effective ?st = Ok st'" by blast
  with Some assms(2) rv show ?thesis
    by (intro exI [of _ st'] exI [of _ True]) (simp add: network_remove_owner_def Let_def)
qed

lemma network_remove_inv:
  assumes inv: "network_inv st" and rem: "network_remove_owner st owner = (st', Inr b)"
  shows "network_inv st'"
  using rem
proof (cases rule: network_remove_Ok)
  case (removed rv mid)
  have at: "network_stored st' o' rid = (if o' = owner then None else network_stored st o' rid)" for o' rid
    by (simp add: network_stored_def removed(7))
  have "sn_owner_instance_id r = o' \<and> sn_rule_id r = rid \<and> sn_rule_revision r \<le> ns_revision st'"
    if "network_stored st' o' rid = Some r" for o' rid r
  proof -
    from that have "network_stored st o' rid = Some r" by (simp add: at split: if_splits)
    with inv have "sn_owner_instance_id r = o' \<and> sn_rule_id r = rid \<and> sn_rule_revision r \<le> ns_revision st"
      by (simp add: network_inv_def network_named_def)
    moreover have "ns_revision st \<le> ns_revision st'"
      using checked_add_u64_Some [OF removed(1)] removed(2) by (simp add: word_le_nat_alt)
    ultimately show ?thesis by auto
  qed
  then have named: "network_named st'" unfolding network_named_def by blast
  have "set (network_all_rules st') \<subseteq> set (network_all_rules st)"
    using at by (auto simp: network_all_rules_iff subset_iff split: if_splits)
  then have apart: "rules_apart (network_all_rules st')"
    using inv network_distinct [OF named] rules_apart_subset [of "network_all_rules st"]
    by (simp add: network_inv_def)
  from named apart network_rebuilt_effective [OF removed(5) apart removed(6)] show ?thesis
    by (simp add: network_inv_def)
qed (use inv in simp)

lemma parse_static_network_owner:
  "parse_static_network line sq = Inr r \<Longrightarrow> sn_owner_instance_id r = network_static_owner"
  by (auto simp: parse_static_network_def split: list.splits if_splits)

lemma network_load_lines_owner:
  "network_load_lines path i ls sq rules = Inr (sq', rules')
    \<Longrightarrow> (\<And>rid r. bm_get rules rid = Some r \<Longrightarrow> sn_owner_instance_id r = network_static_owner)
    \<Longrightarrow> bm_get rules' rid = Some r \<Longrightarrow> sn_owner_instance_id r = network_static_owner"
proof (induction path i ls sq rules rule: network_load_lines.induct)
  case (2 path i raw ls sq rules)
  show ?case
  proof (cases "trim raw = [] \<or> hd (trim raw) = CHR ''#''")
    case True
    with 2 show ?thesis by (simp add: Let_def)
  next
    case False
    with "2.prems"(1) obtain sq1 rule where sq: "checked_add_u64 sq 1 = Some sq1"
      and rule: "parse_static_network (trim raw) sq1 = Inr rule"
      and fresh: "bm_get rules (sn_rule_id rule) = None"
      and rest: "network_load_lines path (i + 1) ls sq1 (bm_insert (sn_rule_id rule) rule rules)
        = Inr (sq', rules')"
      by (auto simp: Let_def split: option.splits if_splits)
    show ?thesis
    proof (rule "2.IH"(2) [OF refl False sq _ rest])
      show "\<not> bm_get rules (sn_rule_id rule) \<noteq> None" using fresh by simp
      show "sn_owner_instance_id r = network_static_owner"
        if "bm_get (bm_insert (sn_rule_id rule) rule rules) rid = Some r" for rid r
        using that "2.prems"(2) parse_static_network_owner [OF rule] by (auto split: if_splits)
    qed (fact "2.prems"(3))
  qed
qed simp

lemma network_load_inv:
  assumes "network_store_load content path = Inr st"
  shows "network_inv st"
proof -
  from assms obtain raw sq rules where
    lines: "network_load_lines path 0 (text_lines raw) (ns_next_sequence network_store_empty) bm_empty
      = Inr (sq, rules)"
    and valid: "network_validate_owner_rules network_static_owner rules = Inr ()"
    and unique: "unique_remotes (bm_insert network_static_owner rules bm_empty) = Inr ()"
    and st: "(if bm_entries rules = [] then Ok (network_store_empty\<lparr>ns_next_sequence := sq\<rparr>)
      else network_rebuild_effective (network_store_empty\<lparr>ns_next_sequence := sq, ns_revision := 1,
        ns_by_owner := bm_insert network_static_owner
          (bm_map_values (\<lambda>r. r\<lparr>sn_rule_revision := 1\<rparr>) rules) bm_empty\<rparr>)) = Inr st"
    by (auto simp: network_store_load_def Let_def split: if_splits)
  have own: "sn_owner_instance_id r = network_static_owner" "sn_rule_id r = rid"
    if "bm_get rules rid = Some r" for rid r
    using network_load_lines_owner [OF lines _ that] that
      validate_network_entries_ids [OF valid [unfolded network_validate_owner_rules_def], of rid r]
    by (simp_all add: bm_entries_iff)
  show ?thesis
  proof (cases "bm_entries rules = []")
    case True
    with st have "st = network_store_empty\<lparr>ns_next_sequence := sq\<rparr>" by simp
    then show ?thesis
      by (simp add: network_inv_def network_named_def network_stored_def network_owner_rules_def
          network_store_empty_def network_effective_def network_all_rules_def rules_apart_def
          bm_values_def bm_empty.rep_eq remotes_ok_def)
  next
    case False
    let ?rules = "bm_map_values (\<lambda>r. r\<lparr>sn_rule_revision := 1\<rparr>) rules"
    let ?mid = "network_store_empty\<lparr>ns_next_sequence := sq, ns_revision := 1,
      ns_by_owner := bm_insert network_static_owner ?rules bm_empty\<rparr>"
    from False st have rebuild: "network_rebuild_effective ?mid = Inr st" by simp
    then have st': "ns_by_owner st = bm_insert network_static_owner ?rules bm_empty" "ns_revision st = 1"
      by (auto simp: network_rebuild_effective_def)
    have "sn_owner_instance_id r = o' \<and> sn_rule_id r = rid \<and> sn_rule_revision r = 1"
      if "network_stored st o' rid = Some r" for o' rid r
      using that own [of rid] by (auto simp: network_stored_def network_owner_rules_def st' split: if_splits)
    then have named: "network_named st" unfolding network_named_def st'(2) by fastforce
    have "map (\<lambda>x. (network_static_owner, sn_remote (snd x))) (bm_entries ?rules)
        = map (\<lambda>x. (network_static_owner, sn_remote (snd x))) (bm_entries rules)"
      by (simp add: bm_map_values.rep_eq case_prod_beta comp_def)
    then have "unique_remotes (ns_by_owner st) = Inr ()"
      using unique unfolding unique_remotes_def st'
      by (simp add: bm_insert.rep_eq bm_empty.rep_eq bm_values_def comp_def)
    then have apart: "rules_apart (network_all_rules st)"
      by (rule unique_remotes_apart) (use named in \<open>simp add: network_named_def\<close>)
    have "ns_by_owner ?mid = ns_by_owner st" by (simp add: st')
    from named apart network_rebuilt_effective [OF rebuild apart this] show ?thesis
      by (simp add: network_inv_def)
  qed
qed

definition network_start :: "NetworkPolicyStore \<Rightarrow> bool" where
  "network_start st \<longleftrightarrow> (\<exists>content path. network_store_load content path = Ok st)"

text \<open>
  The steps of the store. The removal of an owner is a step when it succeeds. It can fail in two ways: for the static
  owner, which changes nothing, and at the largest revision, where the store is left with its table of
  effective rules not rebuilt; no step leads there.
\<close>

inductive network_step :: "NetworkPolicyStore \<Rightarrow> NetworkPolicyStore \<Rightarrow> bool" where
  applied: "network_apply st owner grants request = (st', res) \<Longrightarrow> network_step st st'"
| removed: "network_remove_owner st owner = (st', Ok b) \<Longrightarrow> network_step st st'"

lemma network_apply_cases:
  assumes "network_apply st owner grants request = (st', res)"
  obtains (rejected) "st' = st" and "na_status res = NetworkPolicyApplyStatus.Rejected"
  | (accepted) "network_candidate_after st owner grants request = Inr st'"
      and "na_status res = NetworkPolicyApplyStatus.Accepted"
  using assms
  by (cases "network_candidate_after st owner grants request")
    (auto simp: network_apply_def network_accepted_result_def network_rejected_result_def)

lemma network_step_change:
  assumes "network_step s t"
  shows "t = s \<or> ns_revision s < ns_revision t \<and> (\<forall>owner rid r. network_stored t owner rid = Some r
      \<longrightarrow> network_stored s owner rid = Some r \<or> ns_revision s < sn_rule_revision r)"
  using assms
proof cases
  case (applied owner grants request res)
  from applied(1) show ?thesis
  proof (cases rule: network_apply_cases)
    case accepted
    have "ns_revision s < sn_rule_revision r \<or> network_stored s o' rid = Some r"
      if "network_stored t o' rid = Some r" for o' rid r
      using network_candidate_change(1) [OF accepted(1)] network_candidate_change(2) [OF accepted(1) that]
      by (auto simp: network_made_def)
    with network_candidate_change(1) [OF accepted(1)] show ?thesis by blast
  qed simp
next
  case (removed owner b)
  from removed(1) show ?thesis
  proof (cases rule: network_remove_Ok)
    case (removed rv mid)
    then have "ns_revision s < ns_revision t"
      using checked_add_u64_Some [OF removed(1)] by (simp add: word_less_nat_alt)
    with removed(7) show ?thesis by (auto simp: network_stored_def)
  qed simp
qed

interpretation network_rules: revisioned_store network_start network_step network_inv
  "\<lambda>st (owner, rid). network_stored st owner rid" ns_revision sn_rule_revision
proof
  show "network_inv s" if "network_start s" for s
    using that unfolding network_start_def by (blast intro: network_load_inv)
  show "network_inv t" if "network_inv s" "network_step s t" for s t
    using that(2)
  proof cases
    case applied
    then show ?thesis
      by (cases rule: network_apply_cases) (use that(1) in \<open>auto intro: network_candidate_inv\<close>)
  qed (use that(1) in \<open>auto intro: network_remove_inv\<close>)
  show "sn_rule_revision r \<le> ns_revision s"
    if "network_inv s" "(case n of (owner, rid) \<Rightarrow> network_stored s owner rid) = Some r" for s n r
    using that by (cases n) (simp add: network_inv_def network_named_def)
  show "ns_revision s \<le> ns_revision t" if "network_step s t" for s t
    using network_step_change [OF that] by fastforce
  show "(case n of (owner, rid) \<Rightarrow> network_stored s owner rid) = Some r \<or> ns_revision s < sn_rule_revision r"
    if "network_step s t" "(case n of (owner, rid) \<Rightarrow> network_stored t owner rid) = Some r" for s t n r
    using network_step_change [OF that(1)] that(2) by (cases n) auto
qed

abbreviation network_reachable :: "NetworkPolicyStore \<Rightarrow> bool" where
  "network_reachable \<equiv> reachable network_start network_step"

section \<open>The network policy as a decision table\<close>

definition network_rules_of :: "NetworkPolicyStore \<Rightarrow> StoredNetworkRule set" where
  "network_rules_of st = {r. \<exists>owner rid. network_stored st owner rid = Some r}"

fun selects :: "NetworkPolicyRemoteSelector \<Rightarrow> SocketAddr \<Rightarrow> bool" where
  "selects (Endpoint e) endpoint = (e = endpoint)"
| "selects (AnyPort ip) endpoint = (ip = socket_ip endpoint)"

definition network_matches :: "StoredNetworkRule \<Rightarrow> SocketAddr \<Rightarrow> bool" where
  "network_matches r endpoint = selects (sn_remote r) endpoint"

text \<open>A rule for an endpoint beats a rule for all ports of its address.\<close>

definition network_beats :: "StoredNetworkRule \<Rightarrow> StoredNetworkRule \<Rightarrow> bool" where
  "network_beats r r' \<longleftrightarrow> (\<exists>e ip. sn_remote r = Endpoint e \<and> sn_remote r' = AnyPort ip)"

lemma rules_apart_remote:
  "rules_apart rules \<Longrightarrow> r \<in> set rules \<Longrightarrow> s \<in> set rules \<Longrightarrow> sn_remote r = sn_remote s \<Longrightarrow> r = s"
  by (auto simp: rules_apart_def distinct_map dest: inj_onD)

interpretation network_table: decision_table network_inv network_rules_of network_matches network_beats network_find
proof
  fix st q r
  assume inv: "network_inv st"
  then have ends: "\<And>r'. bm_get (ns_effective_by_endpoint st) q = Some r'
      \<longleftrightarrow> r' \<in> network_rules_of st \<and> sn_remote r' = Endpoint q"
    and ips: "\<And>r'. bm_get (ns_effective_by_ip st) (socket_ip q) = Some r'
      \<longleftrightarrow> r' \<in> network_rules_of st \<and> sn_remote r' = AnyPort (socket_ip q)"
    by (simp_all add: network_inv_def network_effective_def network_rules_of_def network_all_rules_iff)
  have matches: "network_matches r' q \<longleftrightarrow> sn_remote r' = Endpoint q \<or> sn_remote r' = AnyPort (socket_ip q)" for r'
    unfolding network_matches_def by (cases "sn_remote r'") auto
  have one: "r1 = r2" if "r1 \<in> network_rules_of st" "r2 \<in> network_rules_of st" "sn_remote r1 = sn_remote r2" for r1 r2
    using inv that rules_apart_remote [of "network_all_rules st" r1 r2]
    by (simp add: network_inv_def network_rules_of_def network_all_rules_iff)
  show "r \<in> network_rules_of st \<and> network_matches r q
      \<and> (\<forall>r' \<in> network_rules_of st. network_matches r' q \<longrightarrow> r' = r \<or> network_beats r r')"
    if "network_find st q = Some r"
  proof (cases "bm_get (ns_effective_by_endpoint st) q")
    case (Some r1)
    with that have "r1 = r" by (simp add: network_find_def)
    with Some have "r \<in> network_rules_of st" "sn_remote r = Endpoint q" by (simp_all add: ends)
    then show ?thesis using one by (auto simp: matches network_beats_def)
  next
    case None
    with that have "bm_get (ns_effective_by_ip st) (socket_ip q) = Some r" by (simp add: network_find_def)
    then have "r \<in> network_rules_of st" "sn_remote r = AnyPort (socket_ip q)" by (simp_all add: ips)
    moreover have "sn_remote r' \<noteq> Endpoint q" if "r' \<in> network_rules_of st" for r'
      using None that ends [of r'] by auto
    ultimately show ?thesis using one by (auto simp: matches)
  qed
  show "\<not> network_matches r q" if "network_find st q = None" "r \<in> network_rules_of st"
    using that ends [of r] ips [of r] by (auto simp: network_find_def matches split: option.splits)
qed (auto simp: network_beats_def)


end
