(* ===== verification/Net_Addr_Text.thy ===== *)
theory Net_Addr_Text
  imports Net_Addr
begin

text \<open>
  The textual form of internet addresses reads back: what is printed for an address is parsed to
  the same address, whatever text without digits follows.
\<close>

section \<open>Digits\<close>

function digits_of :: "nat \<Rightarrow> nat \<Rightarrow> nat list" where
  "digits_of radix n =
     (if n < radix \<or> radix < 2 then [n] else digits_of radix (n div radix) @ [n mod radix])"
  by pat_completeness auto

termination
  by (relation "measure snd") auto

declare digits_of.simps [simp del]

lemma digits_of_ne [simp]: "digits_of radix n \<noteq> []"
  by (simp add: digits_of.simps [of radix n])

lemma digits_of_less:
  "2 \<le> radix \<Longrightarrow> d \<in> set (digits_of radix n) \<Longrightarrow> d < radix"
proof (induction radix n rule: digits_of.induct)
  case (1 radix n)
  then show ?case by (cases "n < radix") (auto simp: digits_of.simps [of radix n])
qed

lemma digits_of_value:
  "2 \<le> radix \<Longrightarrow> foldl (\<lambda>a d. a * radix + d) 0 (digits_of radix n) = n"
proof (induction radix n rule: digits_of.induct)
  case (1 radix n)
  then show ?case by (cases "n < radix") (auto simp: digits_of.simps [of radix n])
qed

lemma digits_of_length:
  "2 \<le> radix \<Longrightarrow> n < radix ^ k \<Longrightarrow> 0 < k \<Longrightarrow> length (digits_of radix n) \<le> k"
proof (induction radix n arbitrary: k rule: digits_of.induct)
  case (1 radix n)
  show ?case
  proof (cases "n < radix")
    case True
    with "1.prems" show ?thesis by (simp add: digits_of.simps [of radix n])
  next
    case False
    obtain j where k: "k = Suc j" using "1.prems"(3) by (cases k) auto
    have "0 < j" using False "1.prems"(2) by (cases j) (simp_all add: k)
    have "n div radix < radix ^ j" using "1.prems" by (simp add: k less_mult_imp_div_less mult.commute)
    with False "1.IH" "1.prems"(1) \<open>0 < j\<close> have "length (digits_of radix (n div radix)) \<le> j" by simp
    with False "1.prems"(1) show ?thesis by (simp add: digits_of.simps [of radix n] k)
  qed
qed

lemma digits_of_hd: "2 \<le> radix \<Longrightarrow> hd (digits_of radix n) = 0 \<Longrightarrow> n = 0"
proof (induction radix n rule: digits_of.induct)
  case (1 radix n)
  then show ?case
    by (cases "n < radix") (auto simp: digits_of.simps [of radix n] hd_append div_eq_0_iff)
qed

lemma show_nat_digits: "show_nat n = map digit_char (digits_of 10 n)"
proof (induction n rule: show_nat.induct)
  case (1 n)
  then show ?case by (cases "n < 10") (simp_all add: show_nat.simps [of n] digits_of.simps [of 10 n])
qed

lemma show_hex_digits: "show_hex n = map hex_char (digits_of 16 n)"
proof (induction n rule: show_hex.induct)
  case (1 n)
  then show ?case by (cases "n < 16") (simp_all add: show_hex.simps [of n] digits_of.simps [of 16 n])
qed

lemma to_digit_char [simp]: "d < 10 \<Longrightarrow> to_digit 10 (digit_char d) = Some d"
  by (simp add: to_digit_def digit_char_def Let_def of_char_of)

lemma to_digit_hex [simp]: "d < 16 \<Longrightarrow> to_digit 16 (hex_char d) = Some d"
  by (auto simp: to_digit_def hex_char_def Let_def of_char_of)

text \<open>Text at which the reading of a number in a radix stops.\<close>

definition stops :: "nat \<Rightarrow> string \<Rightarrow> bool" where
  "stops radix t \<longleftrightarrow> (case t of [] \<Rightarrow> True | c # _ \<Rightarrow> to_digit radix c = None)"

lemma read_digits_all:
  assumes "\<And>d. d \<in> set ds \<Longrightarrow> to_digit radix (ch d) = Some d" and "1 \<le> radix"
    and "foldl (\<lambda>a d. a * radix + d) acc ds < bound"
    and "\<And>m. max_digits = Some m \<Longrightarrow> count + length ds \<le> m" and "stops radix t"
  shows "read_digits bound radix max_digits acc count (map ch ds @ t)
    = Some ((foldl (\<lambda>a d. a * radix + d) acc ds, count + length ds), t)"
  using assms(1,3,4)
proof (induction ds arbitrary: acc count)
  case Nil
  with assms(5) show ?case by (cases t) (simp_all add: stops_def)
next
  case (Cons d ds)
  have grow: "a \<le> foldl (\<lambda>a d. a * radix + d) a xs" for a xs
  proof (induction xs arbitrary: a)
    case (Cons x xs)
    have "a \<le> a * radix + x" using assms(2) by (simp add: trans_le_add1)
    also have "\<dots> \<le> foldl (\<lambda>a d. a * radix + d) a (x # xs)" using Cons.IH by simp
    finally show ?case .
  qed simp
  have "acc * radix + d < bound"
    using grow [of "acc * radix + d" ds] Cons.prems(2) by simp
  moreover have "\<not> (case max_digits of None \<Rightarrow> False | Some m \<Rightarrow> m < count + 1)"
    using Cons.prems(3) by (cases max_digits) auto
  moreover have "read_digits bound radix max_digits (acc * radix + d) (count + 1) (map ch ds @ t)
      = Some ((foldl (\<lambda>a d. a * radix + d) (acc * radix + d) ds, count + 1 + length ds), t)"
    using Cons.prems by (intro Cons.IH) auto
  ultimately show ?case using Cons.prems(1) [of d] by simp
qed

section \<open>IPv4 addresses\<close>

lemma digit_char_zero: "d < 10 \<Longrightarrow> digit_char d = CHR ''0'' \<Longrightarrow> d = 0"
proof -
  assume "d < 10" and "digit_char d = CHR ''0''"
  then have "to_digit 10 CHR ''0'' = Some d" using to_digit_char by metis
  then show "d = 0" by (simp add: to_digit_def)
qed

lemma read_number_show_nat:
  assumes "n < bound" and "\<And>m. max_digits = Some m \<Longrightarrow> n < 10 ^ m \<and> 0 < m" and "stops 10 t"
  shows "read_number bound 10 max_digits allow_zero_prefix (show_nat n @ t) = Some (n, t)"
proof -
  let ?ds = "digits_of 10 n"
  have "read_digits bound 10 max_digits 0 0 (map digit_char ?ds @ t)
      = Some ((foldl (\<lambda>a d. a * 10 + d) 0 ?ds, 0 + length ?ds), t)"
  proof (rule read_digits_all)
    show "to_digit 10 (digit_char d) = Some d" if "d \<in> set ?ds" for d
      using digits_of_less [OF _ that] by simp
    show "foldl (\<lambda>a d. a * 10 + d) 0 ?ds < bound" using assms(1) by (simp add: digits_of_value)
    show "0 + length ?ds \<le> m" if "max_digits = Some m" for m
      using assms(2) [OF that] digits_of_length [of 10 n m] by simp
  qed (use assms(3) in simp_all)
  then have digits: "read_digits bound 10 max_digits 0 0 (show_nat n @ t) = Some ((n, length ?ds), t)"
    by (simp add: show_nat_digits digits_of_value)
  have "length ?ds = 1" if "hd (show_nat n @ t) = CHR ''0''"
  proof -
    have "hd ?ds < 10" by (rule digits_of_less [of 10 _ n]) simp_all
    moreover from that have "digit_char (hd ?ds) = CHR ''0''" by (simp add: show_nat_digits hd_map)
    ultimately have "hd ?ds = 0" by (rule digit_char_zero)
    then have "n = 0" by (intro digits_of_hd [of 10 n]) simp_all
    then show ?thesis by (simp add: digits_of.simps)
  qed
  with digits show ?thesis by (auto simp: read_number_def)
qed

lemma unat_octet: "unat (a :: u8) < 256"
  using unsigned_less [of a] by simp

lemma read_octet_show:
  assumes "stops 10 t"
  shows "read_octet 0 (show_nat (unat a) @ t) = Some (a, t)"
    and "0 < i \<Longrightarrow> read_octet i (CHR ''.'' # show_nat (unat a) @ t) = Some (a, t)"
proof -
  have "read_number 256 10 (Some 3) False (show_nat (unat a) @ t) = Some (unat a, t)"
    using unat_octet [of a] by (intro read_number_show_nat) (simp_all add: assms)
  then show "read_octet 0 (show_nat (unat a) @ t) = Some (a, t)"
    and "0 < i \<Longrightarrow> read_octet i (CHR ''.'' # show_nat (unat a) @ t) = Some (a, t)"
    by (simp_all add: read_octet_def read_separator_def read_given_char_def)
qed

lemma stops_10 [simp]: "stops 10 []" "stops 10 (CHR ''.'' # t)" "stops 10 (CHR '':'' # t)" "stops 10 (CHR '']'' # t)"
  by (simp_all add: stops_def to_digit_def)

lemma read_show_ipv4:
  assumes "stops 10 t"
  shows "read_ipv4_addr (show_ipv4 ip @ t) = Some (ip, t)"
proof -
  obtain a b c d where ip: "ip = (a, b, c, d)" by (cases ip)
  show ?thesis
    using assms by (simp add: ip read_ipv4_addr_def read_octet_show)
qed

section \<open>IPv6 addresses\<close>

lemma read_number_show_hex:
  assumes "n < 65536" and "stops 16 t"
  shows "read_number 65536 16 (Some 4) True (show_hex n @ t) = Some (n, t)"
proof -
  let ?ds = "digits_of 16 n"
  have "read_digits 65536 16 (Some 4) 0 0 (map hex_char ?ds @ t)
      = Some ((foldl (\<lambda>a d. a * 16 + d) 0 ?ds, 0 + length ?ds), t)"
  proof (rule read_digits_all)
    show "to_digit 16 (hex_char d) = Some d" if "d \<in> set ?ds" for d
      using digits_of_less [OF _ that] by simp
    show "foldl (\<lambda>a d. a * 16 + d) 0 ?ds < 65536" using assms(1) by (simp add: digits_of_value)
    show "0 + length ?ds \<le> m" if "Some 4 = Some m" for m :: nat
      using assms(1) that digits_of_length [of 16 n 4] by simp
  qed (use assms(2) in simp_all)
  then show ?thesis by (simp add: read_number_def show_hex_digits digits_of_value)
qed

text \<open>
  An IPv4 address is not found where hexadecimal digits are followed by anything but a dot.
\<close>

lemma read_digits_rest:
  "read_digits bound radix max_digits acc count s = Some ((n, k), rest)
    \<Longrightarrow> \<exists>p. s = p @ rest \<and> (\<forall>c \<in> set p. to_digit radix c \<noteq> None) \<and> stops radix rest"
proof (induction bound radix max_digits acc count s rule: read_digits.induct)
  case (2 bound radix max_digits acc count c cs)
  show ?case
  proof (cases "to_digit radix c")
    case None
    with 2 show ?thesis by (auto simp: stops_def)
  next
    case (Some d)
    with 2 obtain p where "cs = p @ rest" "\<forall>c \<in> set p. to_digit radix c \<noteq> None" "stops radix rest"
      by (auto split: if_splits)
    with Some show ?thesis by (intro exI [of _ "c # p"]) auto
  qed
qed (simp add: stops_def)

lemma to_digit_dot: "to_digit 16 CHR ''.'' = None"
  by (simp add: to_digit_def)

lemma to_digit_10_16: "to_digit 10 c \<noteq> None \<Longrightarrow> to_digit 16 c \<noteq> None"
  by (auto simp: to_digit_def Let_def split: if_splits)

lemma read_ipv4_none:
  assumes p: "\<forall>c \<in> set p. to_digit 16 c \<noteq> None" and t: "t = [] \<or> hd t \<noteq> CHR ''.''" "stops 16 t"
  shows "read_ipv4_addr (p @ t) = None"
proof (rule ccontr)
  assume "read_ipv4_addr (p @ t) \<noteq> None"
  then obtain a s1 b s2 where "read_octet 0 (p @ t) = Some (a, s1)" and dot: "read_octet 1 s1 = Some (b, s2)"
    by (auto simp: read_ipv4_addr_def split: option.splits)
  then obtain n k where "read_digits 256 10 (Some 3) 0 0 (p @ t) = Some ((n, k), s1)"
    by (auto simp: read_octet_def read_separator_def read_number_def split: option.splits if_splits)
  then obtain q where q: "p @ t = q @ s1" "\<forall>c \<in> set q. to_digit 10 c \<noteq> None" using read_digits_rest by blast
  from dot obtain s1' where s1: "s1 = CHR ''.'' # s1'"
    by (auto simp: read_octet_def read_separator_def read_given_char_def split: option.splits list.splits if_splits)
  from q(1) consider us where "p = q @ us" "us @ t = s1" | us where "q = p @ us" "t = us @ s1"
    unfolding append_eq_append_conv2 by blast
  then show False
  proof cases
    case (1 us)
    with s1 p t to_digit_dot show ?thesis by (cases us) auto
  next
    case (2 us)
    with s1 t q(2) to_digit_10_16 show ?thesis by (cases us) (auto simp: stops_def)
  qed
qed

lemma hex_digits: "c \<in> set (show_hex n) \<Longrightarrow> to_digit 16 c \<noteq> None"
  using digits_of_less [of 16 _ n] by (auto simp: show_hex_digits)

text \<open>Text that may follow a segment: the end, a colon, or the end of the address.\<close>

definition ends_group :: "string \<Rightarrow> bool" where
  "ends_group t \<longleftrightarrow> (case t of [] \<Rightarrow> True | c # _ \<Rightarrow> c = CHR '':'' \<or> c = CHR '']'' \<or> c = CHR ''%'')"

lemma ends_group_facts:
  assumes "ends_group t"
  shows "stops 16 t" and "t = [] \<or> hd t \<noteq> CHR ''.''"
  using assms by (cases t; auto simp: ends_group_def stops_def to_digit_def)+

lemma read_group_show:
  assumes "ends_group t"
  shows "read_number 65536 16 (Some 4) True (show_hex (unat (g :: u16)) @ t) = Some (unat g, t)"
    and "read_ipv4_addr (show_hex (unat g) @ t) = None"
proof -
  have "unat g < 65536" using unsigned_less [of g] by simp
  then show "read_number 65536 16 (Some 4) True (show_hex (unat g) @ t) = Some (unat g, t)"
    using ends_group_facts(1) [OF assms] by (rule read_number_show_hex)
  show "read_ipv4_addr (show_hex (unat g) @ t) = None"
    using hex_digits ends_group_facts [OF assms] by (intro read_ipv4_none) auto
qed

text \<open>Reading a sequence of printed segments.\<close>

fun tail_groups :: "u16 list \<Rightarrow> string" where
  "tail_groups [] = []"
| "tail_groups (g # gs) = CHR '':'' # show_hex (unat g) @ tail_groups gs"

lemma join_groups_Cons: "join_groups (g # gs) = show_hex (unat g) @ tail_groups gs"
  by (induction gs arbitrary: g) simp_all

lemma ends_group_tail: "ends_group t \<Longrightarrow> ends_group (tail_groups gs @ t)"
  by (cases gs) (simp_all add: ends_group_def)

text \<open>Text at which the reading of segments stops: a colon is followed by another colon.\<close>

definition ends_groups :: "string \<Rightarrow> bool" where
  "ends_groups t \<longleftrightarrow> ends_group t \<and> (\<forall>u. t = CHR '':'' # u \<longrightarrow> (\<exists>v. u = CHR '':'' # v))"

declare read_groups.simps [simp del]

lemma read_colon_none:
  "read_ipv4_addr (CHR '':'' # v) = None" "read_number 65536 16 (Some 4) True (CHR '':'' # v) = None"
  "read_ipv4_addr [] = None" "read_number 65536 16 (Some 4) True [] = None"
  by (simp_all add: read_ipv4_addr_def read_octet_def read_separator_def read_number_def to_digit_def)

lemma read_groups_stop:
  assumes "ends_groups t" and "0 < i"
  shows "read_groups limit i groups t = (groups, False, t)"
proof -
  have "read_separator CHR '':'' i read_ipv4_addr t = None"
    and "read_separator CHR '':'' i (read_number 65536 16 (Some 4) True) t = None"
    using assms by (cases t; auto simp: read_separator_def read_given_char_def ends_groups_def
        read_colon_none)+
  then show ?thesis by (simp add: read_groups.simps [of limit i groups t])
qed

lemma read_groups_tail:
  assumes "ends_groups t"
  shows "0 < i \<Longrightarrow> i + length gs \<le> limit
    \<Longrightarrow> read_groups limit i groups (tail_groups gs @ t) = (groups @ gs, False, t)"
proof (induction gs arbitrary: i groups)
  case Nil
  with assms show ?case by (simp add: read_groups_stop)
next
  case (Cons g gs)
  let ?rest = "show_hex (unat g) @ tail_groups gs @ t"
  have ends: "ends_group (tail_groups gs @ t)" using assms ends_group_tail by (simp add: ends_groups_def)
  have "read_separator CHR '':'' i read_ipv4_addr (tail_groups (g # gs) @ t) = None"
    and "read_separator CHR '':'' i (read_number 65536 16 (Some 4) True) (tail_groups (g # gs) @ t)
      = Some (unat g, tail_groups gs @ t)"
    using Cons.prems(1) read_group_show [OF ends, of g]
    by (simp_all add: read_separator_def read_given_char_def)
  then have "read_groups limit i groups (tail_groups (g # gs) @ t)
      = read_groups limit (i + 1) (groups @ [g]) (tail_groups gs @ t)"
    using Cons.prems(2) by (simp add: read_groups.simps [of limit i groups "CHR '':'' # ?rest"])
  also have "\<dots> = (groups @ g # gs, False, t)"
    using Cons.IH [of "i + 1" "groups @ [g]"] Cons.prems by simp
  finally show ?case .
qed

lemma read_groups_join:
  assumes "ends_groups t" and "length gs \<le> limit"
  shows "read_groups limit 0 [] (join_groups gs @ t) = (gs, False, t)"
proof (cases gs)
  case Nil
  have ends: "ends_group t" using assms(1) by (simp add: ends_groups_def)
  have "read_ipv4_addr t = None"
    using read_ipv4_none [of "[]" t] ends_group_facts [OF ends] by simp
  moreover have "read_number 65536 16 (Some 4) True t = None"
    using ends_group_facts(1) [OF ends] by (cases t) (auto simp: read_number_def stops_def)
  ultimately show ?thesis using Nil by (simp add: read_groups.simps [of limit 0 "[]" t] read_separator_def)
next
  case (Cons g rest)
  have ends: "ends_group (tail_groups rest @ t)" using assms(1) ends_group_tail by (simp add: ends_groups_def)
  have "read_groups limit 0 [] (join_groups gs @ t)
      = read_groups limit 1 [g] (tail_groups rest @ t)"
    using assms(2) read_group_show [OF ends, of g]
    by (simp add: read_groups.simps [of limit 0 "[]" "show_hex (unat g) @ tail_groups rest @ t"] Cons
        join_groups_Cons read_separator_def)
  also have "\<dots> = (gs, False, t)"
    using read_groups_tail [OF assms(1), of 1 rest limit "[g]"] assms(2) by (simp add: Cons)
  finally show ?thesis .
qed

text \<open>The run of zeros that is printed as two colons.\<close>

definition zeros_at :: "u16 list \<Rightarrow> nat \<times> nat \<Rightarrow> bool" where
  "zeros_at gs run \<longleftrightarrow>
     fst run + snd run \<le> length gs \<and> take (snd run) (drop (fst run) gs) = replicate (snd run) 0"

lemma zeros_at_snoc:
  assumes "zeros_at (take i gs) run" and "i < length gs"
  shows "zeros_at (take (i + 1) gs) run"
    and "gs ! i = 0 \<Longrightarrow> fst run + snd run = i \<Longrightarrow> zeros_at (take (i + 1) gs) (fst run, snd run + 1)"
  using assms by (auto simp: zeros_at_def take_Suc_conv_app_nth min_def replicate_append_same)

lemma zero_run_zeros:
  assumes "zeros_at (take i gs) longest" and "snd current = 0 \<or> zeros_at (take i gs) current \<and> fst current + snd current = i"
    and "i \<le> length gs"
  shows "zeros_at gs (zero_run i (drop i gs) current longest)"
  using assms
proof (induction "drop i gs" arbitrary: i current longest)
  case Nil
  then show ?case by simp
next
  case (Cons g rest)
  then have i: "i < length gs" and g: "g = gs ! i" and rest: "rest = drop (i + 1) gs"
    by (metis drop_eq_Nil not_less list.distinct(1), metis nth_via_drop,
        metis drop_Suc list.sel(3) tl_drop Suc_eq_plus1)
  let ?c = "(if snd current = 0 then i else fst current, snd current + 1)"
  show ?case
  proof (cases "g = 0")
    case True
    have c: "zeros_at (take (i + 1) gs) ?c"
      using Cons.prems(2) zeros_at_snoc [of i gs current] i g True
      by (auto simp: zeros_at_def take_Suc_conv_app_nth)
    have "zeros_at gs (zero_run (i + 1) (drop (i + 1) gs) ?c (if snd longest < snd ?c then ?c else longest))"
    proof (rule Cons.hyps(1))
      show "zeros_at (take (i + 1) gs) (if snd longest < snd ?c then ?c else longest)"
        using c zeros_at_snoc(1) [OF Cons.prems(1) i] by simp
      show "snd ?c = 0 \<or> zeros_at (take (i + 1) gs) ?c \<and> fst ?c + snd ?c = i + 1"
        using c Cons.prems(2) by auto
    qed (use rest i in simp_all)
    then show ?thesis
      unfolding Cons.hyps(2) [symmetric] by (simp only: zero_run.simps True Let_def rest simp_thms if_True)
  next
    case False
    have "zeros_at gs (zero_run (i + 1) (drop (i + 1) gs) (0, 0) longest)"
      using zeros_at_snoc(1) [OF Cons.prems(1) i] rest i by (intro Cons.hyps(1)) simp_all
    then show ?thesis unfolding Cons.hyps(2) [symmetric] by (simp add: False rest)
  qed
qed

lemma join_octets_split: "join_octets (ucast (drop_bit 8 a)) (ucast a) = a"
proof -
  have a: "unat a < 65536" using unsigned_less [of a] by simp
  have "unat (ucast (ucast (drop_bit 8 a) :: u8) * 256 + ucast (ucast a :: u8) :: u16) = unat a"
    using a by (simp add: unat_word_ariths unsigned_ucast_eq unsigned_take_bit_eq unsigned_drop_bit_eq
        take_bit_eq_mod drop_bit_eq_div)
  then show ?thesis by (simp add: join_octets_def word_unat_eq_iff)
qed

lemma show_hex_ffff: "show_hex (unat (0xFFFF :: u16)) = ''ffff''"
  by code_simp

lemma read_show_ipv6_mapped:
  assumes "length gs = 8" and six: "take 6 gs = [0, 0, 0, 0, 0, 0xFFFF]" and t: "stops 10 t"
  shows "read_ipv6_addr (show_ipv6 gs @ t) = Some (gs, t)"
proof -
  let ?ip = "(ucast (drop_bit 8 (gs ! 6)), ucast (gs ! 6), ucast (drop_bit 8 (gs ! 7)), ucast (gs ! 7)) :: Ipv4Addr"
  have gs: "gs = [0, 0, 0, 0, 0, 0xFFFF, gs ! 6, gs ! 7]"
  proof -
    have "drop 6 gs = [gs ! 6, gs ! 7]" using assms(1) by (simp add: Cons_nth_drop_Suc [symmetric])
    then show ?thesis using six append_take_drop_id [of 6 gs] by simp
  qed
  let ?v4 = "CHR '':'' # show_ipv4 ?ip @ t"
  have "ends_group ?v4" by (simp add: ends_group_def)
  from read_group_show [OF this, of "0xFFFF"]
  have first: "read_ipv4_addr (''ffff'' @ ?v4) = None"
    "read_number 65536 16 (Some 4) True (''ffff'' @ ?v4) = Some (65535, ?v4)"
    unfolding show_hex_ffff by (simp_all del: show_ipv4.simps)
  have "read_groups 7 1 [0xFFFF] ?v4 = ([0xFFFF, gs ! 6, gs ! 7], True, t)"
    using read_show_ipv4 [OF t, of ?ip]
    by (simp add: read_groups.simps [of 7 "Suc 0"] read_separator_def read_given_char_def join_octets_split
        del: show_ipv4.simps)
  with first have tail: "read_groups 7 0 [] (''ffff'' @ ?v4) = ([0xFFFF, gs ! 6, gs ! 7], True, t)"
    by (simp add: read_groups.simps [of 7 0] read_separator_def del: show_ipv4.simps)
  have "read_groups 8 0 [] (''::ffff'' @ ?v4) = ([], False, ''::ffff'' @ ?v4)"
    using read_groups_join [of "''::ffff'' @ ?v4" "[]" 8] by (simp add: ends_groups_def ends_group_def)
  with tail have "read_ipv6_addr (''::ffff'' @ ?v4) = Some ([0, 0, 0, 0, 0, 0xFFFF, gs ! 6, gs ! 7], t)"
    by (simp add: read_ipv6_addr_def read_given_char_def eval_nat_numeral del: show_ipv4.simps)
  then show ?thesis using gs six by (simp add: show_ipv6_def del: show_ipv4.simps)
qed

lemma read_show_ipv6:
  assumes len: "length gs = 8" and t: "t = [] \<or> hd t = CHR '']'' \<or> hd t = CHR ''%''"
  shows "read_ipv6_addr (show_ipv6 gs @ t) = Some (gs, t)"
proof (cases "take 6 gs = [0, 0, 0, 0, 0, 0xFFFF]")
  case True
  from t have "stops 10 t" by (cases t) (auto simp: stops_def to_digit_def)
  with len True show ?thesis by (rule read_show_ipv6_mapped)
next
  case False
  obtain start run where zr: "zero_run 0 gs (0, 0) (0, 0) = (start, run)" by fastforce
  have ends: "ends_groups t" using t by (cases t) (auto simp: ends_groups_def ends_group_def)
  show ?thesis
  proof (cases "1 < run")
    case True
    have z: "zeros_at gs (start, run)" using zero_run_zeros [of 0 gs "(0, 0)" "(0, 0)"] by (simp add: zr zeros_at_def)
    then have bound: "start + run \<le> 8" and zeros: "take run (drop start gs) = replicate run 0"
      using len by (simp_all add: zeros_at_def)
    have gs: "gs = take start gs @ replicate run 0 @ drop (start + run) gs"
      by (metis append_take_drop_id drop_drop zeros add.commute)
    let ?t = "''::'' @ join_groups (drop (start + run) gs) @ t"
    have "read_groups 8 0 [] (join_groups (take start gs) @ ?t) = (take start gs, False, ?t)"
      using len by (intro read_groups_join) (simp_all add: ends_groups_def ends_group_def)
    moreover have "read_groups (8 - (start + 1)) 0 [] (join_groups (drop (start + run) gs) @ t)
        = (drop (start + run) gs, False, t)"
      using ends len True by (intro read_groups_join) simp_all
    ultimately show ?thesis
      using False True bound len gs
      by (simp add: show_ipv6_def zr read_ipv6_addr_def read_given_char_def)
  next
    case no_run: False
    have "read_groups 8 0 [] (join_groups gs @ t) = (gs, False, t)"
      using ends len by (intro read_groups_join) simp_all
    then show ?thesis using False no_run len by (simp add: show_ipv6_def zr read_ipv6_addr_def)
  qed
qed

lemma show_ipv6_not_ipv4:
  assumes "t = [] \<or> hd t = CHR '']'' \<or> hd t = CHR ''%''"
  shows "read_ipv4_addr (show_ipv6 gs @ t) = None"
proof -
  have t: "ends_group t" using assms by (cases t) (auto simp: ends_group_def)
  have groups: "read_ipv4_addr (join_groups hs @ u) = None" if "ends_group u" for hs u
  proof (cases hs)
    case Nil
    then show ?thesis using read_ipv4_none [of "[]" u] ends_group_facts [OF that] by simp
  next
    case (Cons h rest)
    with read_group_show(2) [OF ends_group_tail [OF that]] show ?thesis by (simp add: join_groups_Cons)
  qed
  have "read_ipv4_addr (join_groups hs @ ''::'' @ u) = None" for hs u
    by (rule groups) (simp add: ends_group_def)
  with groups [OF t] show ?thesis
    by (simp add: show_ipv6_def read_colon_none del: show_ipv4.simps split: prod.split)
qed

section \<open>Addresses and socket addresses\<close>

text \<open>The values that text denotes: eight segments, and no flow information.\<close>

fun ip_ok :: "IpAddr \<Rightarrow> bool" where
  "ip_ok (V4 _) \<longleftrightarrow> True"
| "ip_ok (V6 gs) \<longleftrightarrow> length gs = 8"

fun socket_ok :: "SocketAddr \<Rightarrow> bool" where
  "socket_ok (SockV4 _ _) \<longleftrightarrow> True"
| "socket_ok (SockV6 gs _ flowinfo _) \<longleftrightarrow> length gs = 8 \<and> flowinfo = 0"

lemma parse_show_ip: "ip_ok ip \<Longrightarrow> parse_ip (show_ip ip) = Ok ip"
proof (cases ip)
  case (V4 a)
  then show ?thesis
    using read_show_ipv4 [of "[]" a] by (simp add: parse_ip_def read_ip_addr_def del: show_ipv4.simps)
next
  case (V6 gs)
  assume "ip_ok ip"
  with V6 show ?thesis
    using read_show_ipv6 [of gs "[]"] show_ipv6_not_ipv4 [of "[]" gs] by (simp add: parse_ip_def read_ip_addr_def)
qed

lemma read_port_show: "read_port ('':'' @ show_nat (unat (port :: u16))) = Some (port, [])"
proof -
  have "read_number 65536 10 None True (show_nat (unat port) @ []) = Some (unat port, [])"
    using unsigned_less [of port] by (intro read_number_show_nat) simp_all
  then show ?thesis by (simp add: read_port_def read_given_char_def)
qed

lemma read_scope_show:
  "read_scope_id (''%'' @ show_nat (unat (scope_id :: u32)) @ CHR '']'' # t) = Some (scope_id, CHR '']'' # t)"
proof -
  have "read_number (2 ^ 32) 10 None True (show_nat (unat scope_id) @ CHR '']'' # t)
      = Some (unat scope_id, CHR '']'' # t)"
    using unsigned_less [of scope_id] by (intro read_number_show_nat) simp_all
  then show ?thesis by (simp add: read_scope_id_def read_given_char_def)
qed

lemma parse_show_socket: "socket_ok a \<Longrightarrow> parse_socket (show_socket a) = Ok a"
proof (cases a)
  case (SockV4 ip port)
  have "read_ipv4_addr (show_ipv4 ip @ '':'' @ show_nat (unat port)) = Some (ip, '':'' @ show_nat (unat port))"
    by (rule read_show_ipv4) simp
  then show ?thesis
    using read_port_show [of port]
    by (simp add: SockV4 parse_socket_def read_socket_addr_def read_socket_addr_v4_def del: show_ipv4.simps)
next
  case (SockV6 gs port flowinfo scope_id)
  assume "socket_ok a"
  with SockV6 have ok: "length gs = 8" "flowinfo = 0" by simp_all
  have "read_ipv4_addr (CHR ''['' # u) = None" for u
    by (simp add: read_ipv4_addr_def read_octet_def read_separator_def read_number_def to_digit_def)
  then have v4: "read_socket_addr_v4 (CHR ''['' # u) = None" for u by (simp add: read_socket_addr_v4_def)
  define p where "p = CHR '']'' # '':'' @ show_nat (unat port)"
  define s where "s = (if scope_id = 0 then [] else ''%'' @ show_nat (unat scope_id)) @ p"
  have "read_ipv6_addr (show_ipv6 gs @ s) = Some (gs, s)"
    by (rule read_show_ipv6 [OF ok(1)]) (simp add: s_def p_def)
  moreover have "(case read_scope_id s of None \<Rightarrow> (0, s) | Some v \<Rightarrow> v) = (scope_id, p)"
  proof (cases "scope_id = 0")
    case True
    then show ?thesis by (simp add: s_def p_def read_scope_id_def read_given_char_def)
  next
    case False
    then show ?thesis using read_scope_show [of scope_id "'':'' @ show_nat (unat port)"] by (simp add: s_def p_def)
  qed
  moreover have "read_given_char CHR '']'' p = Some ('':'' @ show_nat (unat port))"
    by (simp add: p_def read_given_char_def)
  ultimately have "read_socket_addr_v6 (CHR ''['' # show_ipv6 gs @ s) = Some (a, [])"
    using read_port_show [of port] SockV6 ok(2)
    by (simp add: read_socket_addr_v6_def read_given_char_def [of "CHR ''[''"])
  moreover have "show_socket a = CHR ''['' # show_ipv6 gs @ s" by (simp add: SockV6 s_def p_def)
  ultimately show ?thesis using v4 by (simp add: parse_socket_def read_socket_addr_def)
qed

text \<open>What the readers return.\<close>

lemma read_groups_length:
  "length groups = i \<Longrightarrow> i \<le> limit \<Longrightarrow> length (fst (read_groups limit i groups s)) \<le> limit"
proof (induction limit i groups s rule: read_groups.induct)
  case (1 limit i groups s)
  show ?case
    using 1 by (auto simp: read_groups.simps [of limit i groups s] split: option.splits if_splits)
qed

lemma read_ipv6_length:
  assumes "read_ipv6_addr s = Some (gs, rest)"
  shows "length gs = 8"
proof -
  obtain head v4 t where head: "read_groups 8 0 [] s = (head, v4, t)" by (cases "read_groups 8 0 [] s")
  have h: "length head \<le> 8" using read_groups_length [of "[]" 0 8 s] head by simp
  have tail: "length tail \<le> 8 - (length head + 1)"
    if "read_groups (8 - (length head + 1)) 0 [] u = (tail, v, w)" for u tail v w
    using read_groups_length [of "[]" 0 "8 - (length head + 1)" u] that by simp
  show ?thesis
  proof (cases "length head = 8")
    case True
    with assms head show ?thesis by (simp add: read_ipv6_addr_def)
  next
    case False
    with assms head obtain u tail v where "read_groups (8 - (length head + 1)) 0 [] u = (tail, v, rest)"
      and "gs = head @ replicate (8 - length head - length tail) 0 @ tail"
      by (auto simp: read_ipv6_addr_def simp del: diff_diff_left split: if_splits option.splits prod.splits)
    with tail False h show ?thesis by fastforce
  qed
qed

lemma parse_ip_ok: "parse_ip s = Ok ip \<Longrightarrow> ip_ok ip"
  by (auto simp: parse_ip_def read_ip_addr_def dest: read_ipv6_length split: option.splits list.splits prod.splits)

lemma parse_socket_ok: "parse_socket s = Ok a \<Longrightarrow> socket_ok a"
  by (auto simp: parse_socket_def read_socket_addr_def read_socket_addr_v4_def read_socket_addr_v6_def
      dest: read_ipv6_length split: option.splits list.splits prod.splits)

lemma show_socket_last: "\<exists>d. last (show_socket a) = digit_char d \<and> d < 10"
proof -
  have "\<exists>d < 10. last (show_nat n) = digit_char d" for n
    using digits_of_less [of 10 "last (digits_of 10 n)" n] by (auto simp: show_nat_digits last_map)
  moreover have "show_nat n \<noteq> []" for n by (simp add: show_nat_digits)
  ultimately show ?thesis by (cases a) (auto simp: last_append)
qed

end
