(* ===== verification/Network_Properties.thy ===== *)
theory Network_Properties
  imports Network_System Net_Addr_Text
begin

text \<open>Properties of the network policy.\<close>

section \<open>Selectors and their text\<close>

fun selector_ok :: "NetworkPolicyRemoteSelector \<Rightarrow> bool" where
  "selector_ok (Endpoint endpoint) \<longleftrightarrow> socket_ok endpoint"
| "selector_ok (AnyPort ip) \<longleftrightarrow> ip_ok ip"

lemma selector_parse_ok: "selector_parse raw = Ok s \<Longrightarrow> selector_ok s"
  by (auto simp: selector_parse_def Let_def dest: parse_ip_ok parse_socket_ok
      split: option.splits prod.splits IpAddr.splits bool.splits)

lemma selector_endpoint_text: "strip_suffix '':*'' (show_socket a) = None"
proof (rule ccontr)
  assume "strip_suffix '':*'' (show_socket a) \<noteq> None"
  then obtain b where "show_socket a = b @ '':*''" by (auto simp: strip_suffix_Some)
  then have "last (show_socket a) = CHR ''*''" by simp
  with show_socket_last [of a] obtain d where "digit_char d = CHR ''*''" "d < 10" by auto
  then have "to_digit 10 CHR ''*'' = Some d" using to_digit_char by metis
  then show False by (simp add: to_digit_def)
qed

lemma show_ipv4_no_bracket: "strip_prefix ''['' (show_ipv4 ip) = None"
proof (rule ccontr)
  assume "strip_prefix ''['' (show_ipv4 ip) \<noteq> None"
  then have "take 1 (show_ipv4 ip) = ''[''" by (auto simp: strip_prefix_def split: if_splits)
  then obtain rest where rest: "show_ipv4 ip = CHR ''['' # rest"
    by (cases "show_ipv4 ip") simp_all
  from read_show_ipv4 [of "[]" ip] have "read_ipv4_addr (CHR ''['' # rest) = Some (ip, [])"
    by (simp add: rest del: show_ipv4.simps)
  then show False
    by (simp add: read_ipv4_addr_def read_octet_def read_separator_def read_number_def to_digit_def)
qed

lemma selector_text: "selector_ok s \<Longrightarrow> selector_parse (show_selector s) = Ok s"
proof (cases s rule: show_selector.cases)
  case (1 endpoint)
  assume "selector_ok s"
  with 1 show ?thesis by (simp add: selector_parse_def selector_endpoint_text parse_show_socket)
next
  case (2 ip)
  have "strip_suffix '':*'' (show_ipv4 ip @ '':*'') = Some (show_ipv4 ip)" by (simp add: strip_suffix_Some)
  with 2 show ?thesis
    using parse_show_ip [of "V4 ip"] by (simp add: selector_parse_def show_ipv4_no_bracket del: show_ipv4.simps)
next
  case (3 ip)
  assume "selector_ok s"
  have "strip_suffix '':*'' (''['' @ show_ipv6 ip @ '']:*'') = Some (''['' @ show_ipv6 ip @ '']'')"
    and "strip_suffix '']'' (show_ipv6 ip @ '']'') = Some (show_ipv6 ip)"
    by (simp_all add: strip_suffix_Some)
  with 3 \<open>selector_ok s\<close> show ?thesis
    using parse_show_ip [of "V6 ip"] by (simp add: selector_parse_def strip_prefix_def)
qed

section \<open>An example\<close>

definition network_example_content :: string where
  "network_example_content =
     ''s1 allow connect 10.0.0.1:*'' @ [CHR 0x0A] @ ''s2 deny connect 10.0.0.1:22''"

definition network_example_store :: NetworkPolicyStore where
  "network_example_store = projr (network_store_load (Ok network_example_content) ''/rules'')"

definition network_example_grants :: "NetworkPolicyRulesApplyGrant list" where
  "network_example_grants =
     [\<lparr>ng_decision = NetworkPolicyDecision.Deny, ng_remote_scope = All\<rparr>]"

definition network_example_request :: NetworkPolicyApplyRequest where
  "network_example_request =
     \<lparr>nq_base_revision = 1, nq_mutation_id = ''m'', nq_reason = None,
      nq_items = [\<lparr>ni_op = NetworkPolicyPatchOp.Upsert, ni_rule_id = None,
        ni_rule = Some \<lparr>nd_rule_id = None, nd_decision = NetworkPolicyDecision.Deny,
          nd_remote = ''[2001:db8::7]:443'', nd_gray_target = None, nd_timeout_ms = None,
          nd_concurrency_limit = None, nd_fallback = None\<rparr>\<rparr>]\<rparr>"

definition network_example_patched :: NetworkPolicyStore where
  "network_example_patched =
     fst (network_apply network_example_store ''p'' network_example_grants network_example_request)"

lemma network_example_load:
  "network_store_load (Ok network_example_content) ''/rules'' = Ok network_example_store"
proof -
  have "\<not> isl (network_store_load (Ok network_example_content) ''/rules'')" by code_simp
  then show ?thesis by (simp add: network_example_store_def)
qed

lemma network_example_step:
  "network_apply network_example_store ''p'' network_example_grants network_example_request
     = (network_example_patched, \<lparr>na_status = NetworkPolicyApplyStatus.Accepted, na_new_revision = 2,
         na_applied_count = 1, na_rejected_count = 0, na_errors = []\<rparr>)"
proof -
  have "snd (network_apply network_example_store ''p'' network_example_grants network_example_request)
      = \<lparr>na_status = NetworkPolicyApplyStatus.Accepted, na_new_revision = 2,
         na_applied_count = 1, na_rejected_count = 0, na_errors = []\<rparr>" by code_simp
  then show ?thesis unfolding network_example_patched_def by (metis prod.collapse)
qed

lemma network_example_reachable:
  "network_reachable network_example_store" "network_reachable network_example_patched"
proof -
  show start: "network_reachable network_example_store"
    using network_example_load unfolding network_start_def by (blast intro: reachable.intros)
  show "network_reachable network_example_patched"
    by (rule reachable.intros(2) [OF start network_step.applied [OF network_example_step]])
qed

section \<open>Properties\<close>

text \<open>
  (C28) A network lookup answers with the stored rule for exactly the endpoint, and otherwise with
  the stored rule for all ports of its address; there is at most one of each.
\<close>

theorem network_find_decides:
  assumes "network_reachable st"
  shows "network_find st endpoint = Some r \<longleftrightarrow>
    r \<in> network_rules_of st \<and> network_matches r endpoint
    \<and> (\<forall>r' \<in> network_rules_of st. network_matches r' endpoint \<longrightarrow> r' = r \<or> network_beats r r')"
  by (rule network_table.lookup_iff [OF network_rules.reachable_inv [OF assms]])

theorem network_find_decides_witness:
  "\<exists>r \<in> network_rules_of network_example_store. sn_rule_id r = ''s2''
     \<and> network_matches r (SockV4 (10, 0, 0, 1) 22)"
proof -
  have "map_option sn_rule_id (network_find network_example_store (SockV4 (10, 0, 0, 1) 22)) = Some ''s2''"
    by code_simp
  then obtain r where "network_find network_example_store (SockV4 (10, 0, 0, 1) 22) = Some r"
    "sn_rule_id r = ''s2''" by auto
  then show ?thesis using network_find_decides [OF network_example_reachable(1)] by blast
qed

text \<open>
  (C29) No two owners decide about the same endpoint: over any sequence of patches and
  departures, two stored rules that match one endpoint belong to the same owner.
\<close>

theorem endpoint_has_one_owner:
  assumes "network_reachable st"
    and "r \<in> network_rules_of st" "network_matches r endpoint"
    and "r' \<in> network_rules_of st" "network_matches r' endpoint"
  shows "sn_owner_instance_id r = sn_owner_instance_id r'"
proof -
  let ?R = "set (map (\<lambda>r. (sn_owner_instance_id r, sn_remote r)) (network_all_rules st))"
  have "remotes_ok ?R"
    using network_rules.reachable_inv [OF assms(1)] by (simp add: network_inv_def rules_apart_def)
  then have same: "\<And>a b s. (a, s) \<in> ?R \<Longrightarrow> (b, s) \<in> ?R \<Longrightarrow> a = b"
    and over: "\<And>a b e. (a, AnyPort (socket_ip e)) \<in> ?R \<Longrightarrow> (b, Endpoint e) \<in> ?R \<Longrightarrow> a = b"
    unfolding remotes_ok_def by blast+
  have "(sn_owner_instance_id x, sn_remote x) \<in> ?R" if "x \<in> network_rules_of st" for x
    using that unfolding network_rules_of_def set_map
    by (intro image_eqI [of _ _ x]) (simp_all add: network_all_rules_iff)
  note mem = this [OF assms(2)] this [OF assms(4)]
  show ?thesis
  proof (cases "sn_remote r = sn_remote r'")
    case True
    with mem(1) have "(sn_owner_instance_id r, sn_remote r') \<in> ?R" by (simp only:)
    from same [OF this mem(2)] show ?thesis .
  next
    case False
    with assms(3,5) consider "sn_remote r = Endpoint endpoint" "sn_remote r' = AnyPort (socket_ip endpoint)"
      | "sn_remote r' = Endpoint endpoint" "sn_remote r = AnyPort (socket_ip endpoint)"
      unfolding network_matches_def by (cases "sn_remote r"; cases "sn_remote r'") simp_all
    then show ?thesis
    proof cases
      case 1
      from over [OF mem(2) [unfolded 1] mem(1) [unfolded 1]] show ?thesis by (rule sym)
    next
      case 2
      from over [OF mem(1) [unfolded 2] mem(2) [unfolded 2]] show ?thesis .
    qed
  qed
qed

definition network_example_rule :: "string \<Rightarrow> StoredNetworkRule" where
  "network_example_rule rid = the (network_stored network_example_store network_static_owner rid)"

theorem endpoint_has_one_owner_witness:
  "sn_owner_instance_id (network_example_rule ''s1'') = sn_owner_instance_id (network_example_rule ''s2'')"
proof (rule endpoint_has_one_owner [OF network_example_reachable(1)])
  have "network_stored network_example_store network_static_owner ''s1'' \<noteq> None"
    "network_stored network_example_store network_static_owner ''s2'' \<noteq> None" by code_simp+
  then show "network_example_rule ''s1'' \<in> network_rules_of network_example_store"
    "network_example_rule ''s2'' \<in> network_rules_of network_example_store"
    by (auto simp: network_example_rule_def network_rules_of_def)
  show "network_matches (network_example_rule ''s1'') (SockV4 (10, 0, 0, 1) 22)"
    "network_matches (network_example_rule ''s2'') (SockV4 (10, 0, 0, 1) 22)" by code_simp+
qed

text \<open>
  (C30) A network patch is atomic and confined. A rejected patch changes nothing. An accepted
  patch raises the revision, keeps every rule of other owners, and every rule of its owner afterwards
  is an old one or its remote is covered by a grant for its decision. Validation announces the outcome.
\<close>

theorem network_patch_atomic:
  assumes "network_apply st owner grants request = (st', res)"
  shows "na_status (network_validate_apply st owner grants request) = na_status res
    \<and> (if na_status res = NetworkPolicyApplyStatus.Rejected then st' = st
       else ns_revision st < ns_revision st'
         \<and> (\<forall>o' rid. o' \<noteq> owner \<longrightarrow> network_stored st' o' rid = network_stored st o' rid)
         \<and> (\<forall>rid r. network_stored st' owner rid = Some r
              \<longrightarrow> network_stored st owner rid = Some r
                \<or> (\<exists>grant \<in> set grants. ng_decision grant = sn_decision r
                     \<and> grant_scope_covers (ng_remote_scope grant) (sn_remote r))))"
  using assms
proof (cases rule: network_apply_cases)
  case rejected
  with assms show ?thesis
    by (auto simp: network_apply_def network_validate_apply_def network_accepted_result_def
        network_rejected_result_def split: sum.splits)
next
  case accepted
  then show ?thesis
    using network_candidate_change [OF accepted(1)]
    by (simp add: network_validate_apply_def network_accepted_result_def) (metis network_made_def)
qed

theorem network_patch_atomic_witness:
  "ns_revision network_example_store < ns_revision network_example_patched"
  using network_patch_atomic [OF network_example_step] by simp

text \<open>
  (C31) The departure of an owner succeeds while revisions are left, removes exactly its rules,
  and no lookup answers with one of them afterwards.
\<close>

theorem network_departure:
  assumes "network_reachable st" and "owner \<noteq> network_static_owner" and "unat (ns_revision st) < 2 ^ 64 - 1"
  shows "\<exists>st' b. network_remove_owner st owner = (st', Ok b)
    \<and> (\<forall>o' rid. network_stored st' o' rid = (if o' = owner then None else network_stored st o' rid))
    \<and> (\<forall>endpoint r. network_find st' endpoint = Some r \<longrightarrow> sn_owner_instance_id r \<noteq> owner)"
proof -
  note inv = network_rules.reachable_inv [OF assms(1)]
  have "checked_add_u64 (ns_revision st) 1 \<noteq> None"
    using assms(3) by (simp add: checked_add_u64_def word_less_nat_alt)
  then obtain rv where "checked_add_u64 (ns_revision st) 1 = Some rv" by blast
  from network_remove_succeeds [OF inv assms(2) this]
  obtain st' b where rem: "network_remove_owner st owner = (st', Ok b)" by blast
  have inv': "network_inv st'" by (rule network_remove_inv [OF inv rem])
  have at: "network_stored st' o' rid = (if o' = owner then None else network_stored st o' rid)" for o' rid
    using rem
  proof (cases rule: network_remove_Ok)
    case absent
    with rem assms(2) show ?thesis
      by (auto simp: network_remove_owner_def network_stored_def network_owner_rules_def Let_def
          split: if_splits option.splits sum.splits)
  qed (simp add: network_stored_def)
  have "sn_owner_instance_id r \<noteq> owner" if "network_find st' endpoint = Some r" for endpoint r
  proof -
    from network_table.lookup_best [OF inv' that] obtain o' rid where stored: "network_stored st' o' rid = Some r"
      by (auto simp: network_rules_of_def)
    with inv' have "sn_owner_instance_id r = o'" by (simp add: network_inv_def network_named_def)
    moreover have "o' \<noteq> owner" using stored at [of o' rid] by auto
    ultimately show ?thesis by simp
  qed
  with rem at show ?thesis by blast
qed

theorem network_departure_witness:
  "\<exists>st'. network_remove_owner network_example_patched ''p'' = (st', Ok True)
     \<and> network_find st' (SockV6 [0x2001, 0xdb8, 0, 0, 0, 0, 0, 7] 443 0 0) = None"
proof -
  have "''p'' \<noteq> network_static_owner" "unat (ns_revision network_example_patched) < 2 ^ 64 - 1" by code_simp+
  from network_departure [OF network_example_reachable(2) this]
  obtain st' b where rem: "network_remove_owner network_example_patched ''p'' = (st', Ok b)"
    by blast
  have "case network_remove_owner network_example_patched ''p'' of (st, out) \<Rightarrow>
    out = Ok True \<and> network_find st (SockV6 [0x2001, 0xdb8, 0, 0, 0, 0, 0, 7] 443 0 0) = None" by code_simp
  with rem show ?thesis by simp
qed

text \<open>
  (C32) The text of a selector reads back: for every selector obtained from text, IPv4 or IPv6,
  endpoint or any-port, compressed or not, parsing its printed form gives the same selector.
\<close>

theorem selector_round_trip:
  assumes "selector_parse raw = Ok s"
  shows "selector_parse (show_selector s) = Ok s"
  using selector_text selector_parse_ok [OF assms] by blast

theorem selector_round_trip_witness:
  "selector_parse ''[2001:db8::7]:*'' = Ok (AnyPort (V6 [0x2001, 0xdb8, 0, 0, 0, 0, 0, 7]))"
proof -
  have "selector_parse ''[2001:0db8:0:0:0::7]:*'' = Ok (AnyPort (V6 [0x2001, 0xdb8, 0, 0, 0, 0, 0, 7]))" by code_simp
  note selector_round_trip [OF this]
  moreover have "show_selector (AnyPort (V6 [0x2001, 0xdb8, 0, 0, 0, 0, 0, 7])) = ''[2001:db8::7]:*''" by code_simp
  ultimately show ?thesis by simp
qed

end
