(* ===== verification/Sandbox_Observation.thy ===== *)
theory Sandbox_Observation
  imports Rust_Text Wire_Bytes
begin

text \<open>
  The observations a sandbox sends (\<open>crates/contracts/sandbox_observation\<close>). A fixed-size array
  of bytes is a list, and \<open>observation_ok\<close> says that the arrays have their sizes and that the
  validation of the contract holds.
\<close>

section \<open>Processes\<close>

datatype GuestBootId = GuestBootId (boot_bytes: bytes)

record ProcessMarker =
  pm_pid :: u32
  pm_start_time_ticks :: u64
  pm_executable_name :: bytes

record ProcessIoCounters =
  io_guest_boot_id :: GuestBootId
  io_process :: ProcessMarker
  io_sample_started_ms :: u64
  io_sample_ended_ms :: u64
  io_read_operations :: u64
  io_read_bytes :: u64
  io_write_operations :: u64
  io_write_bytes :: u64
  io_failed_read_operations :: u64
  io_failed_write_operations :: u64

section \<open>Resources and pressure\<close>

record CpuSnapshot =
  cpu_total_ticks :: u64
  cpu_idle_ticks :: u64
  cpu_logical_cpu_count :: u16

record MemorySnapshot =
  mem_total_bytes :: u64
  mem_available_bytes :: u64
  mem_used_bytes :: u64
  mem_oom_kill_count :: u64

record GuestResourceSnapshot =
  gr_guest_boot_id :: GuestBootId
  gr_sampled_at_ms :: u64
  gr_cpu :: CpuSnapshot
  gr_memory :: MemorySnapshot

record PsiAverages =
  avg10_millipercent :: u32
  avg60_millipercent :: u32
  avg300_millipercent :: u32

record GuestPressureSnapshot =
  gp_guest_boot_id :: GuestBootId
  gp_sampled_at_ms :: u64
  gp_memory_some :: PsiAverages
  gp_memory_full :: PsiAverages

section \<open>Victims of the out-of-memory killer\<close>

datatype OomVictimAttribution = Unknown | Monitored | Unmonitored

record OomVictimObservation =
  ov_guest_boot_id :: GuestBootId
  ov_detected_at_ms :: u64
  ov_victim_pid :: u32
  ov_victim_comm :: bytes
  ov_attribution :: OomVictimAttribution
  ov_monitored_root :: "ProcessMarker option"

definition oom_validate :: "OomVictimObservation \<Rightarrow> string + OomVictimObservation" where
  "oom_validate v =
     (case (ov_attribution v, ov_monitored_root v) of
        (OomVictimAttribution.Monitored, Some _) \<Rightarrow> Ok v
      | (OomVictimAttribution.Unknown, None) \<Rightarrow> Ok v
      | (OomVictimAttribution.Unmonitored, None) \<Rightarrow> Ok v
      | _ \<Rightarrow> Err ''OOM victim attribution and monitored root disagree'')"

section \<open>Workload cgroups\<close>

datatype WorkloadCgroupId = WorkloadCgroupId (workload_bytes: bytes)

datatype WorkloadCgroupIdError = PathTooLong | PathNotCanonical

definition workload_id_domain :: bytes where
  "workload_id_domain = map of_char (''actrail.workload-cgroup.v1'' @ [CHR 0x00])"

definition max_canonical_path_bytes :: nat where
  "max_canonical_path_bytes = 4096"

definition validate_canonical_path :: "bytes \<Rightarrow> WorkloadCgroupIdError + unit" where
  "validate_canonical_path path =
     (if max_canonical_path_bytes < length path then Err PathTooLong
      else if path = [] \<or> hd path \<noteq> of_char CHR ''/'' then Err PathNotCanonical
      else if list_ex (\<lambda>component. component = [] \<or> component = [of_char CHR ''.'']
                         \<or> component = [of_char CHR ''.'', of_char CHR ''.''])
                (tl (split_on (of_char CHR ''/'') path))
      then Err PathNotCanonical
      else Ok ())"

text \<open>What is hashed; the digest is a parameter.\<close>

definition workload_id_input :: "GuestBootId \<Rightarrow> u64 \<Rightarrow> u64 \<Rightarrow> u64 \<Rightarrow> u16 \<Rightarrow> bytes \<Rightarrow> bytes" where
  "workload_id_input boot mount_id st_dev st_ino path_length path =
     workload_id_domain @ boot_bytes boot @ be64 mount_id @ be64 st_dev @ be64 st_ino
     @ be16 path_length @ path"

definition workload_id_compute ::
    "(bytes \<Rightarrow> bytes) \<Rightarrow> GuestBootId \<Rightarrow> u64 \<Rightarrow> u64 \<Rightarrow> u64 \<Rightarrow> bytes
      \<Rightarrow> WorkloadCgroupIdError + WorkloadCgroupId" where
  "workload_id_compute sha256 boot mount_id st_dev st_ino path =
     bind_result (validate_canonical_path path) (\<lambda>_.
     if 2 ^ 16 \<le> length path then Err PathTooLong
     else Ok (WorkloadCgroupId
            (sha256 (workload_id_input boot mount_id st_dev st_ino (of_nat (length path)) path))))"

datatype SandboxContainerRuntime =
  UnknownRuntime | Docker | Containerd | KubernetesUnknownCri | Podman | Crio

primrec runtime_code :: "SandboxContainerRuntime \<Rightarrow> u8" where
  "runtime_code UnknownRuntime = 0"
| "runtime_code Docker = 1"
| "runtime_code Containerd = 2"
| "runtime_code KubernetesUnknownCri = 3"
| "runtime_code Podman = 4"
| "runtime_code Crio = 5"

definition runtime_from_code :: "u8 \<Rightarrow> SandboxContainerRuntime option" where
  "runtime_from_code code =
     (if code = 0 then Some UnknownRuntime
      else if code = 1 then Some Docker
      else if code = 2 then Some Containerd
      else if code = 3 then Some KubernetesUnknownCri
      else if code = 4 then Some Podman
      else if code = 5 then Some Crio
      else None)"

datatype NormalizedContainerId = NormalizedContainerId (container_bytes: bytes)

definition hex_length :: nat where
  "hex_length = 64"

definition is_lower_hex :: "u8 \<Rightarrow> bool" where
  "is_lower_hex b \<longleftrightarrow> (48 \<le> b \<and> b \<le> 57) \<or> (97 \<le> b \<and> b \<le> 102)"

text \<open>
  The value of a hexadecimal digit. The remaining arm of the source is unreachable, since
  \<open>container_from_lower_hex\<close> passes validated bytes only.
\<close>

definition hex_nibble :: "u8 \<Rightarrow> u8" where
  "hex_nibble b = (if 48 \<le> b \<and> b \<le> 57 then b - 48 else b - 97 + 10)"

fun hex_pairs :: "bytes \<Rightarrow> bytes" where
  "hex_pairs (a # b # rest) = (push_bit 4 (hex_nibble a) OR hex_nibble b) # hex_pairs rest"
| "hex_pairs _ = []"

definition container_from_lower_hex :: "bytes \<Rightarrow> string + NormalizedContainerId" where
  "container_from_lower_hex raw =
     (if length raw \<noteq> hex_length \<or> \<not> list_all is_lower_hex raw
      then Err ''container ID must be exactly 64 lowercase hexadecimal characters''
      else Ok (NormalizedContainerId (hex_pairs raw)))"

definition hex_digits_table :: bytes where
  "hex_digits_table = map of_char ''0123456789abcdef''"

definition container_to_lower_hex :: "NormalizedContainerId \<Rightarrow> bytes" where
  "container_to_lower_hex cid =
     concat (map (\<lambda>b. [hex_digits_table ! unat (drop_bit 4 b), hex_digits_table ! unat (b AND 0x0F)])
       (container_bytes cid))"

record WorkloadCgroupCounters =
  memory_current_bytes :: u64
  memory_peak_bytes :: "u64 option"
  memory_anon_bytes :: "u64 option"
  memory_file_bytes :: "u64 option"
  memory_swap_current_bytes :: "u64 option"
  memory_low :: "u64 option"
  memory_high :: "u64 option"
  memory_max :: "u64 option"
  memory_oom :: "u64 option"
  memory_oom_kill :: "u64 option"
  memory_oom_group_kill :: "u64 option"
  cpu_usage_usec :: "u64 option"
  cpu_user_usec :: "u64 option"
  cpu_system_usec :: "u64 option"
  cpu_nr_throttled :: "u64 option"
  cpu_throttled_usec :: "u64 option"
  io_cgroup_read_bytes :: "u64 option"
  io_cgroup_write_bytes :: "u64 option"
  pids_current :: "u64 option"
  pids_peak :: "u64 option"

record WorkloadCgroupResourceSnapshot =
  wc_guest_boot_id :: GuestBootId
  wc_sampled_at_ms :: u64
  wc_workload_id :: WorkloadCgroupId
  wc_representative_root :: ProcessMarker
  wc_monitored_root_count :: u32
  wc_runtime :: SandboxContainerRuntime
  wc_container_id :: "NormalizedContainerId option"
  wc_counters :: WorkloadCgroupCounters

definition workload_validate :: "WorkloadCgroupResourceSnapshot \<Rightarrow> string + unit" where
  "workload_validate w =
     (if wc_monitored_root_count w = 0
      then Err ''workload cgroup monitored root count must be positive''
      else if pm_pid (wc_representative_root w) = 0 \<and> pm_start_time_ticks (wc_representative_root w) = 0
      then Err ''workload cgroup representative root must be a real process''
      else Ok ())"

section \<open>Observations\<close>

datatype Observation =
    ProcessIo ProcessIoCounters
  | GuestResource GuestResourceSnapshot
  | OomVictim OomVictimObservation
  | GuestPressure GuestPressureSnapshot
  | WorkloadCgroup WorkloadCgroupResourceSnapshot

record ObservationBatch =
  ob_sequence :: u64
  ob_observations :: "Observation list"

text \<open>
  The values of these types: arrays have their sizes. Besides, a victim and a workload pass
  their validation, and a monitored root is not the placeholder of zeros.
\<close>

definition marker_ok :: "ProcessMarker \<Rightarrow> bool" where
  "marker_ok m \<longleftrightarrow> length (pm_executable_name m) = 16"

definition zero_marker :: "ProcessMarker \<Rightarrow> bool" where
  "zero_marker m \<longleftrightarrow>
     pm_pid m = 0 \<and> pm_start_time_ticks m = 0 \<and> pm_executable_name m = replicate 16 0"

definition boot_ok :: "GuestBootId \<Rightarrow> bool" where
  "boot_ok b \<longleftrightarrow> length (boot_bytes b) = 16"

definition oom_ok :: "OomVictimObservation \<Rightarrow> bool" where
  "oom_ok v \<longleftrightarrow>
     boot_ok (ov_guest_boot_id v) \<and> length (ov_victim_comm v) = 16 \<and> oom_validate v = Ok v
     \<and> (case ov_monitored_root v of None \<Rightarrow> True | Some m \<Rightarrow> marker_ok m \<and> \<not> zero_marker m)"

definition workload_ok :: "WorkloadCgroupResourceSnapshot \<Rightarrow> bool" where
  "workload_ok w \<longleftrightarrow>
     boot_ok (wc_guest_boot_id w) \<and> length (workload_bytes (wc_workload_id w)) = 32
     \<and> marker_ok (wc_representative_root w) \<and> workload_validate w = Ok ()
     \<and> (case wc_container_id w of None \<Rightarrow> True | Some cid \<Rightarrow> length (container_bytes cid) = 32)"

primrec observation_ok :: "Observation \<Rightarrow> bool" where
  "observation_ok (ProcessIo v) \<longleftrightarrow> boot_ok (io_guest_boot_id v) \<and> marker_ok (io_process v)"
| "observation_ok (GuestResource v) \<longleftrightarrow> boot_ok (gr_guest_boot_id v)"
| "observation_ok (OomVictim v) \<longleftrightarrow> oom_ok v"
| "observation_ok (GuestPressure v) \<longleftrightarrow> boot_ok (gp_guest_boot_id v)"
| "observation_ok (WorkloadCgroup v) \<longleftrightarrow> workload_ok v"

section \<open>Container identifiers as text\<close>

lemma hex_digits_cases:
  "n < 16 \<Longrightarrow> hex_nibble (hex_digits_table ! n) = of_nat n \<and> is_lower_hex (hex_digits_table ! n)"
proof -
  have "list_all (\<lambda>n. hex_nibble (hex_digits_table ! n) = of_nat n \<and> is_lower_hex (hex_digits_table ! n)) [0..<16]"
    by code_simp
  then show "n < 16 \<Longrightarrow> hex_nibble (hex_digits_table ! n) = of_nat n \<and> is_lower_hex (hex_digits_table ! n)"
    by (simp add: list_all_iff)
qed

lemma nibbles_less: "unat (drop_bit 4 (b :: u8)) < 16" "unat (b AND 0x0F) < 16"
proof -
  have "unat b < 256" using unsigned_less [of b] by simp
  then show "unat (drop_bit 4 b) < 16" by (simp add: drop_bit_eq_div unat_div less_mult_imp_div_less)
  have "b AND 0x0F = take_bit 4 b" by (simp add: take_bit_eq_mask mask_eq_exp_minus_1)
  then show "unat (b AND 0x0F) < 16" by (simp add: unsigned_take_bit_eq take_bit_nat_less_exp [of 4, simplified])
qed

lemma nibbles_join: "push_bit 4 (of_nat (unat (drop_bit 4 (b :: u8)))) OR of_nat (unat (b AND 0x0F)) = b"
proof -
  have "b AND 0x0F = take_bit 4 b" by (simp add: take_bit_eq_mask mask_eq_exp_minus_1)
  then have "push_bit 4 (drop_bit 4 b) OR (b AND 0x0F) = b"
    by (simp only:) (rule bit_word_eqI, auto simp: bit_simps)
  then show ?thesis by simp
qed

lemma container_hex_length: "length (container_to_lower_hex (NormalizedContainerId bs)) = 2 * length bs"
  by (induction bs) (simp_all add: container_to_lower_hex_def)

lemma container_hex_digits: "list_all is_lower_hex (container_to_lower_hex cid)"
  using hex_digits_cases nibbles_less by (auto simp: container_to_lower_hex_def list_all_iff)

lemma container_hex_pairs: "hex_pairs (container_to_lower_hex (NormalizedContainerId bs)) = bs"
proof (induction bs)
  case (Cons b bs)
  then show ?case
    using hex_digits_cases [OF nibbles_less(1), of b] hex_digits_cases [OF nibbles_less(2), of b] nibbles_join [of b]
    by (simp add: container_to_lower_hex_def)
qed (simp add: container_to_lower_hex_def)

lemma container_text:
  "length (container_bytes cid) = 32 \<Longrightarrow> container_from_lower_hex (container_to_lower_hex cid) = Ok cid"
  by (cases cid)
    (simp add: container_from_lower_hex_def hex_length_def container_hex_length container_hex_digits
      container_hex_pairs)

end
