(* ===== verification/Frame_Stream.thy ===== *)
theory Frame_Stream
  imports Rust_Text Wire_Bytes
begin

text \<open>
  Frames in a byte stream. The link between sandbox and gateway and the link between gateway and
  daemon have the same decoder (\<open>stream.rs\<close> of \<open>crates/contracts/sandbox_link/vsock\<close> and
  \<open>.../upstream\<close>), here with the decoding of a header as an argument. A locale states what the
  decoder relies on, and that it returns the frames that were sent, however the stream was cut.
\<close>

section \<open>The decoder\<close>

datatype WireError = WireError (wire_message: string)

definition header_bytes :: nat where
  "header_bytes = 8"

definition checked_add_usize :: "nat \<Rightarrow> nat \<Rightarrow> nat option" where
  "checked_add_usize a b = (if a + b < 2 ^ 64 then Some (a + b) else None)"

record FrameDecoder =
  fd_buffer :: bytes
  fd_capacity :: nat
  fd_read_offset :: nat

text \<open>The standard library may reserve more than it is asked for; the capacity is only ever compared.\<close>

definition decoder_with_capacity :: "nat \<Rightarrow> FrameDecoder" where
  "decoder_with_capacity capacity = \<lparr>fd_buffer = [], fd_capacity = capacity, fd_read_offset = 0\<rparr>"

definition compact_if_needed :: "FrameDecoder \<Rightarrow> FrameDecoder" where
  "compact_if_needed d =
     (if fd_read_offset d = 0 then d
      else if fd_read_offset d = length (fd_buffer d) then d\<lparr>fd_buffer := [], fd_read_offset := 0\<rparr>
      else if fd_capacity d div 2 \<le> fd_read_offset d
      then d\<lparr>fd_buffer := drop (fd_read_offset d) (fd_buffer d), fd_read_offset := 0\<rparr>
      else d)"

text \<open>
  A vector that is too small grows to a capacity that the allocator chooses; \<open>grow\<close> is that
  choice, from the old capacity and the needed length.
\<close>

definition decoder_push :: "(nat \<Rightarrow> nat \<Rightarrow> nat) \<Rightarrow> FrameDecoder \<Rightarrow> bytes \<Rightarrow> FrameDecoder" where
  "decoder_push grow d bs =
     (let d = compact_if_needed d;
          needed = length (fd_buffer d) + length bs
      in d\<lparr>fd_buffer := fd_buffer d @ bs,
           fd_capacity := (if needed \<le> fd_capacity d then fd_capacity d else grow (fd_capacity d) needed)\<rparr>)"

definition next_frame ::
    "(bytes \<Rightarrow> WireError + 'c \<times> u32) \<Rightarrow> FrameDecoder
      \<Rightarrow> FrameDecoder \<times> (WireError + ('c \<times> bytes) option)" where
  "next_frame decode_header d =
     (let available = drop (fd_read_offset d) (fd_buffer d)
      in if length available < header_bytes then (d, Ok None)
         else case decode_header (take header_bytes available) of
           Inl e \<Rightarrow> (d, Err e)
         | Inr (code, payload_length) \<Rightarrow>
             (let frame_length = header_bytes + unat payload_length
              in if length available < frame_length then (d, Ok None)
                 else (d\<lparr>fd_read_offset := fd_read_offset d + frame_length\<rparr>,
                       Ok (Some (code, drop header_bytes (take frame_length available))))))"

section \<open>The stream behind the decoder\<close>

definition decoder_ok :: "FrameDecoder \<Rightarrow> bool" where
  "decoder_ok d \<longleftrightarrow> fd_read_offset d \<le> length (fd_buffer d)"

definition unread :: "FrameDecoder \<Rightarrow> bytes" where
  "unread d = drop (fd_read_offset d) (fd_buffer d)"

lemma unread_new [simp]: "unread (decoder_with_capacity n) = []"
  by (simp add: unread_def decoder_with_capacity_def)

lemma unread_push [simp]: "decoder_ok d \<Longrightarrow> unread (decoder_push grow d bs) = unread d @ bs"
  by (auto simp: unread_def decoder_ok_def decoder_push_def compact_if_needed_def Let_def)

lemma decoder_ok_new [simp]: "decoder_ok (decoder_with_capacity n)"
  by (simp add: decoder_ok_def decoder_with_capacity_def)

lemma decoder_ok_push [simp]: "decoder_ok d \<Longrightarrow> decoder_ok (decoder_push grow d bs)"
  by (auto simp: decoder_ok_def decoder_push_def compact_if_needed_def Let_def)

text \<open>The first frame of a stream, if it is complete, and what follows it.\<close>

definition first_frame ::
    "(bytes \<Rightarrow> WireError + 'c \<times> u32) \<Rightarrow> bytes \<Rightarrow> WireError + (('c \<times> bytes) \<times> bytes) option" where
  "first_frame decode_header s =
     (if length s < header_bytes then Ok None
      else case decode_header (take header_bytes s) of
        Inl e \<Rightarrow> Err e
      | Inr (code, n) \<Rightarrow>
          if length s < header_bytes + unat n then Ok None
          else Ok (Some ((code, drop header_bytes (take (header_bytes + unat n) s)),
                         drop (header_bytes + unat n) s)))"

lemma next_frame_refines:
  assumes "decoder_ok d" and "next_frame decode_header d = (d', res)"
  shows "decoder_ok d'"
    and "case first_frame decode_header (unread d) of
           Inl e \<Rightarrow> res = Err e \<and> d' = d
         | Inr None \<Rightarrow> res = Ok None \<and> d' = d
         | Inr (Some (f, rest)) \<Rightarrow> res = Ok (Some f) \<and> unread d' = rest"
  using assms
  by (auto simp: next_frame_def first_frame_def unread_def decoder_ok_def Let_def add.commute
      split: if_splits sum.splits prod.splits)

lemma first_frame_shorter:
  "first_frame decode_header s = Ok (Some (f, rest)) \<Longrightarrow> length rest < length s"
  by (auto simp: first_frame_def header_bytes_def split: if_splits sum.splits)

text \<open>All complete frames of a stream, and why the reading stops.\<close>

function split_frames ::
    "(bytes \<Rightarrow> WireError + 'c \<times> u32) \<Rightarrow> bytes \<Rightarrow> ('c \<times> bytes) list \<times> (WireError + bytes)" where
  "split_frames decode_header s =
     (case first_frame decode_header s of
        Inl e \<Rightarrow> ([], Err e)
      | Inr None \<Rightarrow> ([], Ok s)
      | Inr (Some (f, rest)) \<Rightarrow>
          (case split_frames decode_header rest of (fs, res) \<Rightarrow> (f # fs, res)))"
  by pat_completeness auto

termination
  by (relation "measure (\<lambda>(_, s). length s)") (auto dest: first_frame_shorter)

declare split_frames.simps [simp del]

lemma first_frame_append:
  "first_frame decode_header s = Ok (Some (f, rest))
    \<Longrightarrow> first_frame decode_header (s @ t) = Ok (Some (f, rest @ t))"
  "first_frame decode_header s = Err e \<Longrightarrow> first_frame decode_header (s @ t) = Err e"
  by (auto simp: first_frame_def split: if_splits sum.splits prod.splits)

lemma split_frames_append:
  "split_frames decode_header (s @ t) =
     (case split_frames decode_header s of
        (fs, Inl e) \<Rightarrow> (fs, Err e)
      | (fs, Inr rest) \<Rightarrow>
          (case split_frames decode_header (rest @ t) of (fs', res) \<Rightarrow> (fs @ fs', res)))"
proof (induction decode_header s rule: split_frames.induct)
  case (1 decode_header s)
  show ?case
  proof (cases "first_frame decode_header s")
    case (Inl e)
    then show ?thesis
      by (simp add: split_frames.simps [of decode_header s] split_frames.simps [of decode_header "s @ t"]
          first_frame_append)
  next
    case (Inr r)
    show ?thesis
    proof (cases r)
      case None
      with Inr show ?thesis
        by (simp add: split_frames.simps [of decode_header s] case_prod_beta)
    next
      case (Some p)
      obtain f rest where p: "p = (f, rest)" by (cases p)
      have "split_frames decode_header (rest @ t) =
          (case split_frames decode_header rest of
             (fs, Inl e) \<Rightarrow> (fs, Err e)
           | (fs, Inr rest) \<Rightarrow> (case split_frames decode_header (rest @ t) of (fs', res) \<Rightarrow> (fs @ fs', res)))"
        using Inr Some p by (intro "1.IH") simp_all
      then show ?thesis
        using Inr Some p first_frame_append(1) [of decode_header s f rest t]
        by (simp add: split_frames.simps [of decode_header s] split_frames.simps [of decode_header "s @ t"]
            split: prod.splits sum.splits)
    qed
  qed
qed

section \<open>Framing as a contract\<close>

definition wire :: "('c \<Rightarrow> u32 \<Rightarrow> bytes) \<Rightarrow> 'c \<times> bytes \<Rightarrow> bytes" where
  "wire encode_header f = encode_header (fst f) (of_nat (length (snd f))) @ snd f"

definition fits :: "nat \<Rightarrow> 'c \<times> bytes \<Rightarrow> bool" where
  "fits max_bytes f \<longleftrightarrow> header_bytes + length (snd f) \<le> max_bytes"

locale framing =
  fixes encode_header :: "'c \<Rightarrow> u32 \<Rightarrow> bytes"
    and decode_header :: "bytes \<Rightarrow> WireError + 'c \<times> u32"
    and max_frame_bytes :: nat
  assumes header_length: "length (encode_header code n) = header_bytes"
    and header_text: "header_bytes + unat n \<le> max_frame_bytes \<Longrightarrow> decode_header (encode_header code n) = Ok (code, n)"
    and small: "max_frame_bytes < 2 ^ 32"
begin

lemma unat_length: "fits max_frame_bytes f \<Longrightarrow> unat (of_nat (length (snd f)) :: u32) = length (snd f)"
  using small by (simp add: fits_def unsigned_of_nat take_bit_nat_eq_self)

lemma first_frame_wire:
  assumes "fits max_frame_bytes f"
  shows "first_frame decode_header (wire encode_header f @ t) = Ok (Some (f, t))"
proof -
  let ?n = "of_nat (length (snd f)) :: u32"
  have n: "unat ?n = length (snd f)" by (rule unat_length [OF assms])
  with assms have "decode_header (encode_header (fst f) ?n) = Ok (fst f, ?n)"
    by (intro header_text) (simp add: fits_def)
  then show ?thesis using n by (simp add: first_frame_def wire_def header_length)
qed

lemma split_frames_wire:
  "list_all (fits max_frame_bytes) fs \<Longrightarrow> split_frames decode_header (concat (map (wire encode_header) fs) @ t)
     = (case split_frames decode_header t of (gs, res) \<Rightarrow> (fs @ gs, res))"
proof (induction fs)
  case (Cons f fs)
  then show ?case
    using first_frame_wire [of f "concat (map (wire encode_header) fs) @ t"]
    by (simp add: split_frames.simps [of decode_header "wire encode_header f @ concat (map (wire encode_header) fs) @ t"] case_prod_beta)
qed simp

end

end
