(* ===== verification/Sandbox_Frame.thy ===== *)
theory Sandbox_Frame
  imports Frame_Stream
begin

text \<open>
  The frames of the two links: between sandbox and gateway
  (\<open>crates/contracts/sandbox_link/vsock/src/frame.rs\<close>) and between gateway and daemon
  (\<open>.../upstream/src/frame.rs\<close>). Both are instances of framing.
\<close>

section \<open>Frames of the sandbox link\<close>

definition sb_magic :: u16 where "sb_magic = 0xAC71"

definition sb_version :: u8 where "sb_version = 1"

definition sb_max_frame_bytes :: nat where "sb_max_frame_bytes = 256 * 1024"

definition sb_welcome_workload_cgroup :: u32 where "sb_welcome_workload_cgroup = push_bit 31 1"

definition sb_welcome_id_mask :: u32 where "sb_welcome_id_mask = NOT sb_welcome_workload_cgroup"

record SbWelcome =
  sw_sb_id :: u32
  sw_workload_cgroup_observations :: bool

datatype SbFrameCode = SbHello | SbWelcome | SbHeartbeat | SbObservationBatch

primrec sb_code_byte :: "SbFrameCode \<Rightarrow> u8" where
  "sb_code_byte SbHello = 1"
| "sb_code_byte SbWelcome = 2"
| "sb_code_byte SbHeartbeat = 3"
| "sb_code_byte SbObservationBatch = 16"

definition sb_code_try_from :: "u8 \<Rightarrow> WireError + SbFrameCode" where
  "sb_code_try_from v =
     (if v = 1 then Ok SbHello
      else if v = 2 then Ok SbWelcome
      else if v = 3 then Ok SbHeartbeat
      else if v = 16 then Ok SbObservationBatch
      else Err (WireError (''unknown SB frame code '' @ show_nat (unat v))))"

record SbFrameHeader =
  sh_code :: SbFrameCode
  sh_payload_length :: u32

definition sb_header_encode :: "SbFrameHeader \<Rightarrow> bytes" where
  "sb_header_encode h =
     be16 sb_magic @ [sb_version, sb_code_byte (sh_code h)] @ be32 (sh_payload_length h)"

definition sb_header_decode :: "bytes \<Rightarrow> WireError + SbFrameHeader" where
  "sb_header_decode bs =
     (if from_be [bs ! 0, bs ! 1] \<noteq> sb_magic then Err (WireError ''invalid SB frame magic'')
      else if bs ! 2 \<noteq> sb_version
      then Err (WireError (''unsupported SB protocol version '' @ show_nat (unat (bs ! 2))))
      else
        bind_result (sb_code_try_from (bs ! 3)) (\<lambda>code.
        let payload_length = from_be (drop 4 (take 8 bs))
        in case checked_add_usize header_bytes (unat payload_length) of
             None \<Rightarrow> Err (WireError ''SB frame length overflow'')
           | Some frame_length \<Rightarrow>
               if sb_max_frame_bytes < frame_length
               then Err (WireError (''SB frame length '' @ show_nat frame_length @ '' exceeds ''
                      @ show_nat sb_max_frame_bytes))
               else Ok \<lparr>sh_code = code, sh_payload_length = payload_length\<rparr>))"

record SbFrame =
  sf_code :: SbFrameCode
  sf_payload :: bytes

definition sb_frame_new :: "SbFrameCode \<Rightarrow> bytes \<Rightarrow> WireError + SbFrame" where
  "sb_frame_new code payload =
     (if 2 ^ 32 \<le> length payload then Err (WireError ''SB payload does not fit u32'')
      else
        bind_result (sb_header_decode (sb_header_encode
            \<lparr>sh_code = code, sh_payload_length = of_nat (length payload)\<rparr>)) (\<lambda>_.
        Ok \<lparr>sf_code = code, sf_payload = payload\<rparr>))"

definition sb_numeric_id :: "SbFrameCode \<Rightarrow> u32 \<Rightarrow> SbFrame" where
  "sb_numeric_id code ident = \<lparr>sf_code = code, sf_payload = be32 ident\<rparr>"

definition sb_welcome :: "u32 \<Rightarrow> bool \<Rightarrow> WireError + SbFrame" where
  "sb_welcome sb_id workload_cgroup_observations =
     (if sb_id = 0 \<or> sb_id AND NOT sb_welcome_id_mask \<noteq> 0
      then Err (WireError ''SB ID must fit the capability-aware welcome payload'')
      else Ok (sb_numeric_id SbWelcome
             (if workload_cgroup_observations then sb_id OR sb_welcome_workload_cgroup else sb_id)))"

definition sb_decode_numeric_id :: "SbFrame \<Rightarrow> WireError + u32" where
  "sb_decode_numeric_id f =
     (if length (sf_payload f) = 4 then Ok (from_be (sf_payload f))
      else Err (WireError ''numeric ID payload must contain four bytes''))"

definition decode_sb_welcome :: "SbFrame \<Rightarrow> WireError + SbWelcome" where
  "decode_sb_welcome f =
     (if sf_code f \<noteq> SbWelcome then Err (WireError ''frame is not an SB welcome'')
      else
        bind_result (sb_decode_numeric_id f) (\<lambda>encoded.
        if encoded AND sb_welcome_id_mask = 0
        then Err (WireError ''SB welcome contains reserved ID zero'')
        else Ok \<lparr>sw_sb_id = encoded,
                 sw_workload_cgroup_observations = (encoded AND sb_welcome_workload_cgroup \<noteq> 0)\<rparr>))"

definition sb_frame_encode :: "SbFrame \<Rightarrow> WireError + bytes" where
  "sb_frame_encode f =
     (if 2 ^ 32 \<le> length (sf_payload f) then Err (WireError ''SB payload does not fit u32'')
      else Ok (sb_header_encode \<lparr>sh_code = sf_code f, sh_payload_length = of_nat (length (sf_payload f))\<rparr>
             @ sf_payload f))"

text \<open>The decoder of the link.\<close>

definition sb_header_fields :: "bytes \<Rightarrow> WireError + SbFrameCode \<times> u32" where
  "sb_header_fields bs = bind_result (sb_header_decode bs) (\<lambda>h. Ok (sh_code h, sh_payload_length h))"

definition sb_next_frame :: "FrameDecoder \<Rightarrow> FrameDecoder \<times> (WireError + SbFrame option)" where
  "sb_next_frame d =
     (case next_frame sb_header_fields d of
        (d, Inl e) \<Rightarrow> (d, Err e)
      | (d, Inr None) \<Rightarrow> (d, Ok None)
      | (d, Inr (Some (code, payload))) \<Rightarrow> (d, Ok (Some \<lparr>sf_code = code, sf_payload = payload\<rparr>)))"

section \<open>Frames of the upstream link\<close>

definition up_magic :: u16 where "up_magic = 0xAC72"

definition up_version :: u8 where "up_version = 1"

definition up_max_frame_bytes :: nat where "up_max_frame_bytes = 272 * 1024"

definition workload_cgroup_capability :: u32 where "workload_cgroup_capability = 1"

record GatewayWelcome =
  gw_gateway_id :: u32
  gw_workload_cgroup_observations :: bool

datatype UpFrameCode = UpGatewayHello | UpGatewayWelcome | UpHeartbeat | UpForwardedSbFrame

primrec up_code_byte :: "UpFrameCode \<Rightarrow> u8" where
  "up_code_byte UpGatewayHello = 32"
| "up_code_byte UpGatewayWelcome = 33"
| "up_code_byte UpHeartbeat = 34"
| "up_code_byte UpForwardedSbFrame = 48"

definition up_code_try_from :: "u8 \<Rightarrow> WireError + UpFrameCode" where
  "up_code_try_from v =
     (if v = 32 then Ok UpGatewayHello
      else if v = 33 then Ok UpGatewayWelcome
      else if v = 34 then Ok UpHeartbeat
      else if v = 48 then Ok UpForwardedSbFrame
      else Err (WireError (''unknown upstream frame code '' @ show_nat (unat v))))"

record UpFrameHeader =
  uh_code :: UpFrameCode
  uh_payload_length :: u32

definition up_header_encode :: "UpFrameHeader \<Rightarrow> bytes" where
  "up_header_encode h =
     be16 up_magic @ [up_version, up_code_byte (uh_code h)] @ be32 (uh_payload_length h)"

definition up_header_decode :: "bytes \<Rightarrow> WireError + UpFrameHeader" where
  "up_header_decode bs =
     (if from_be [bs ! 0, bs ! 1] \<noteq> up_magic then Err (WireError ''invalid upstream frame magic'')
      else if bs ! 2 \<noteq> up_version
      then Err (WireError (''unsupported upstream protocol version '' @ show_nat (unat (bs ! 2))))
      else
        bind_result (up_code_try_from (bs ! 3)) (\<lambda>code.
        let payload_length = from_be (drop 4 (take 8 bs))
        in case checked_add_usize header_bytes (unat payload_length) of
             None \<Rightarrow> Err (WireError ''upstream frame length overflow'')
           | Some frame_length \<Rightarrow>
               if up_max_frame_bytes < frame_length
               then Err (WireError (''upstream frame length '' @ show_nat frame_length @ '' exceeds ''
                      @ show_nat up_max_frame_bytes))
               else Ok \<lparr>uh_code = code, uh_payload_length = payload_length\<rparr>))"

record UpFrame =
  uf_code :: UpFrameCode
  uf_payload :: bytes

definition up_frame_new :: "UpFrameCode \<Rightarrow> bytes \<Rightarrow> WireError + UpFrame" where
  "up_frame_new code payload =
     (if 2 ^ 32 \<le> length payload then Err (WireError ''upstream payload does not fit u32'')
      else
        bind_result (up_header_decode (up_header_encode
            \<lparr>uh_code = code, uh_payload_length = of_nat (length payload)\<rparr>)) (\<lambda>_.
        Ok \<lparr>uf_code = code, uf_payload = payload\<rparr>))"

definition up_numeric_id :: "UpFrameCode \<Rightarrow> u32 \<Rightarrow> UpFrame" where
  "up_numeric_id code ident = \<lparr>uf_code = code, uf_payload = be32 ident\<rparr>"

definition gateway_hello :: "bool \<Rightarrow> UpFrame" where
  "gateway_hello workload_cgroup_observations =
     \<lparr>uf_code = UpGatewayHello,
      uf_payload = (if workload_cgroup_observations then be32 workload_cgroup_capability else [])\<rparr>"

definition up_decode_numeric_id :: "UpFrame \<Rightarrow> WireError + u32" where
  "up_decode_numeric_id f =
     (if length (uf_payload f) = 4 then Ok (from_be (uf_payload f))
      else Err (WireError ''numeric ID payload must contain four bytes''))"

definition decode_gateway_hello :: "UpFrame \<Rightarrow> WireError + bool" where
  "decode_gateway_hello f =
     (if uf_code f \<noteq> UpGatewayHello then Err (WireError ''frame is not a gateway hello'')
      else if uf_payload f = [] then Ok False
      else
        bind_result (up_decode_numeric_id f) (\<lambda>flags.
        if flags AND NOT workload_cgroup_capability \<noteq> 0
        then Err (WireError ''gateway hello contains unknown capabilities'')
        else Ok (flags AND workload_cgroup_capability \<noteq> 0)))"

definition gateway_welcome :: "u32 \<Rightarrow> bool \<Rightarrow> WireError + UpFrame" where
  "gateway_welcome gateway_id workload_cgroup_observations =
     (if gateway_id = 0 then Err (WireError ''gateway ID must be non-zero'')
      else up_frame_new UpGatewayWelcome
             (be32 gateway_id @ (if workload_cgroup_observations then be32 workload_cgroup_capability else [])))"

definition decode_gateway_welcome :: "UpFrame \<Rightarrow> WireError + GatewayWelcome" where
  "decode_gateway_welcome f =
     (if uf_code f \<noteq> UpGatewayWelcome then Err (WireError ''frame is not a gateway welcome'')
      else
        bind_result (if length (uf_payload f) = 4 then Ok (take 4 (uf_payload f), 0)
                     else if length (uf_payload f) = 8
                     then Ok (take 4 (uf_payload f), from_be (drop 4 (uf_payload f)))
                     else Err (WireError ''invalid gateway welcome payload length''))
          (\<lambda>(id_bytes, flags :: u32).
        if flags AND NOT workload_cgroup_capability \<noteq> 0
        then Err (WireError ''gateway welcome contains unknown capabilities'')
        else
          (let gateway_id = from_be id_bytes
           in if gateway_id = 0 then Err (WireError ''gateway welcome contains reserved ID zero'')
              else Ok \<lparr>gw_gateway_id = gateway_id,
                       gw_workload_cgroup_observations = (flags AND workload_cgroup_capability \<noteq> 0)\<rparr>)))"

definition up_frame_encode :: "UpFrame \<Rightarrow> WireError + bytes" where
  "up_frame_encode f =
     (if 2 ^ 32 \<le> length (uf_payload f) then Err (WireError ''upstream payload does not fit u32'')
      else Ok (up_header_encode \<lparr>uh_code = uf_code f, uh_payload_length = of_nat (length (uf_payload f))\<rparr>
             @ uf_payload f))"

definition up_header_fields :: "bytes \<Rightarrow> WireError + UpFrameCode \<times> u32" where
  "up_header_fields bs = bind_result (up_header_decode bs) (\<lambda>h. Ok (uh_code h, uh_payload_length h))"

definition up_next_frame :: "FrameDecoder \<Rightarrow> FrameDecoder \<times> (WireError + UpFrame option)" where
  "up_next_frame d =
     (case next_frame up_header_fields d of
        (d, Inl e) \<Rightarrow> (d, Err e)
      | (d, Inr None) \<Rightarrow> (d, Ok None)
      | (d, Inr (Some (code, payload))) \<Rightarrow> (d, Ok (Some \<lparr>uf_code = code, uf_payload = payload\<rparr>)))"

record ForwardedSbFrame =
  fw_sb_id :: u32
  fw_frame_bytes :: bytes

definition forwarded_new :: "u32 \<Rightarrow> bytes \<Rightarrow> WireError + ForwardedSbFrame" where
  "forwarded_new sb_id frame_bytes =
     (if sb_id = 0 then Err (WireError ''SB ID zero is reserved'')
      else if frame_bytes = [] then Err (WireError ''forwarded SB frame is empty'')
      else Ok \<lparr>fw_sb_id = sb_id, fw_frame_bytes = frame_bytes\<rparr>)"

definition forwarded_encode :: "ForwardedSbFrame \<Rightarrow> bytes" where
  "forwarded_encode f = be32 (fw_sb_id f) @ fw_frame_bytes f"

definition forwarded_decode :: "bytes \<Rightarrow> WireError + ForwardedSbFrame" where
  "forwarded_decode payload =
     (if length payload \<le> 4 then Err (WireError ''forwarded SB payload is truncated'')
      else forwarded_new (from_be (take 4 payload)) (drop 4 payload))"

section \<open>Both links are framed\<close>

lemma header_parts:
  assumes "bs = be16 m @ [v, c] @ be32 n"
  shows "from_be [bs ! 0, bs ! 1] = m" "bs ! 2 = v" "bs ! 3 = c" "from_be (drop 4 (take 8 bs)) = n"
proof -
  have "[bs ! 0, bs ! 1] = be16 m" using assms by (simp add: numeral_2_eq_2)
  then show "from_be [bs ! 0, bs ! 1] = m" by simp
  show "bs ! 2 = v" "bs ! 3 = c" using assms by (simp_all add: nth_append)
  have "drop 4 (take 8 bs) = be32 n" using assms by simp
  then show "from_be (drop 4 (take 8 bs)) = n" by simp
qed

lemma sb_code_text [simp]: "sb_code_try_from (sb_code_byte c) = Ok c"
  by (cases c) (simp_all add: sb_code_try_from_def)

lemma up_code_text [simp]: "up_code_try_from (up_code_byte c) = Ok c"
  by (cases c) (simp_all add: up_code_try_from_def)

definition sb_header :: "SbFrameCode \<Rightarrow> u32 \<Rightarrow> bytes" where
  "sb_header code n = sb_header_encode \<lparr>sh_code = code, sh_payload_length = n\<rparr>"

definition up_header :: "UpFrameCode \<Rightarrow> u32 \<Rightarrow> bytes" where
  "up_header code n = up_header_encode \<lparr>uh_code = code, uh_payload_length = n\<rparr>"

lemma sb_header_text:
  "header_bytes + unat n \<le> sb_max_frame_bytes
    \<Longrightarrow> sb_header_decode (sb_header code n) = Ok \<lparr>sh_code = code, sh_payload_length = n\<rparr>"
  using header_parts [of "sb_header code n" sb_magic sb_version "sb_code_byte code" n]
  by (simp add: sb_header_decode_def sb_header_def sb_header_encode_def checked_add_usize_def
      sb_max_frame_bytes_def header_bytes_def)

lemma up_header_text:
  "header_bytes + unat n \<le> up_max_frame_bytes
    \<Longrightarrow> up_header_decode (up_header code n) = Ok \<lparr>uh_code = code, uh_payload_length = n\<rparr>"
  using header_parts [of "up_header code n" up_magic up_version "up_code_byte code" n]
  by (simp add: up_header_decode_def up_header_def up_header_encode_def checked_add_usize_def
      up_max_frame_bytes_def header_bytes_def)

interpretation sb_link: framing sb_header sb_header_fields sb_max_frame_bytes
proof
  show "length (sb_header code n) = header_bytes" for code n
    by (simp add: sb_header_def sb_header_encode_def header_bytes_def)
  show "sb_header_fields (sb_header code n) = Ok (code, n)"
    if "header_bytes + unat n \<le> sb_max_frame_bytes" for code n
    by (simp add: sb_header_fields_def sb_header_text [OF that] del: bind_result_eq_Ok)
qed (simp add: sb_max_frame_bytes_def)

interpretation up_link: framing up_header up_header_fields up_max_frame_bytes
proof
  show "length (up_header code n) = header_bytes" for code n
    by (simp add: up_header_def up_header_encode_def header_bytes_def)
  show "up_header_fields (up_header code n) = Ok (code, n)"
    if "header_bytes + unat n \<le> up_max_frame_bytes" for code n
    by (simp add: up_header_fields_def up_header_text [OF that] del: bind_result_eq_Ok)
qed (simp add: up_max_frame_bytes_def)

end
