(* ===== verification/Gateway_Admission.thy ===== *)
theory Gateway_Admission
  imports Sandbox_Observation Sandbox_Frame
begin

text \<open>
  Admission at the two ends of the gateway: the connections of the daemon
  (\<open>crates/core/gateway_ingest_runtime/src/runtime.rs\<close>), whose counters are atomics that several
  threads update, and the sandbox sessions of the gateway
  (\<open>crates/core/vsock_gateway_runtime/src/session.rs\<close>), kept under a lock.
\<close>

section \<open>The ingest runtime\<close>

datatype GatewayOpenError = InvalidConnectionLimit | Capacity | IdExhausted | ShuttingDown

record RuntimeState =
  gi_max_connections :: u32
  gi_next_gateway_id :: u64
  gi_shutdown_requested :: bool
  gi_active_connections :: u32
  gi_accepted_connections :: u64
  gi_rejected_connections :: u64
  gi_closed_connections :: u64
  gi_heartbeats :: u64
  gi_delivered_batches :: u64
  gi_delivered_observations :: u64
  gi_delivery_failures :: u64

definition ingest_new :: "u32 \<Rightarrow> GatewayOpenError + RuntimeState" where
  "ingest_new max_connections =
     (if max_connections = 0 then Err InvalidConnectionLimit
      else Ok \<lparr>gi_max_connections = max_connections, gi_next_gateway_id = 1, gi_shutdown_requested = False,
               gi_active_connections = 0, gi_accepted_connections = 0, gi_rejected_connections = 0,
               gi_closed_connections = 0, gi_heartbeats = 0, gi_delivered_batches = 0,
               gi_delivered_observations = 0, gi_delivery_failures = 0\<rparr>)"

text \<open>The atomic operations of \<open>try_open\<close>.\<close>

definition reserve_connection :: "RuntimeState \<Rightarrow> RuntimeState option" where
  "reserve_connection st =
     (if gi_active_connections st < gi_max_connections st
      then Some (st\<lparr>gi_active_connections := gi_active_connections st + 1\<rparr>) else None)"

definition count_rejected :: "RuntimeState \<Rightarrow> RuntimeState" where
  "count_rejected st = st\<lparr>gi_rejected_connections := gi_rejected_connections st + 1\<rparr>"

definition release_reserved_connection :: "RuntimeState \<Rightarrow> RuntimeState" where
  "release_reserved_connection st = st\<lparr>gi_active_connections := gi_active_connections st - 1\<rparr>"

definition take_gateway_id :: "RuntimeState \<Rightarrow> RuntimeState \<times> u64" where
  "take_gateway_id st = (st\<lparr>gi_next_gateway_id := gi_next_gateway_id st + 1\<rparr>, gi_next_gateway_id st)"

definition usable_id :: "u64 \<Rightarrow> u32 option" where
  "usable_id raw = (if unat raw < 2 ^ 32 \<and> raw \<noteq> 0 then Some (ucast raw) else None)"

definition count_accepted :: "RuntimeState \<Rightarrow> RuntimeState" where
  "count_accepted st = st\<lparr>gi_accepted_connections := gi_accepted_connections st + 1\<rparr>"

definition try_open :: "RuntimeState \<Rightarrow> RuntimeState \<times> (GatewayOpenError + u32)" where
  "try_open st =
     (if gi_shutdown_requested st then (st, Err ShuttingDown)
      else case reserve_connection st of
        None \<Rightarrow> (count_rejected st, Err Capacity)
      | Some st \<Rightarrow>
          if gi_shutdown_requested st then (release_reserved_connection st, Err ShuttingDown)
          else case take_gateway_id st of
            (st, raw_id) \<Rightarrow>
              (case usable_id raw_id of
                 Some gateway_id \<Rightarrow> (count_accepted st, Ok gateway_id)
               | None \<Rightarrow> (release_reserved_connection st, Err IdExhausted)))"

definition request_shutdown :: "RuntimeState \<Rightarrow> RuntimeState" where
  "request_shutdown st = st\<lparr>gi_shutdown_requested := True\<rparr>"

definition record_heartbeat :: "RuntimeState \<Rightarrow> RuntimeState" where
  "record_heartbeat st = st\<lparr>gi_heartbeats := gi_heartbeats st + 1\<rparr>"

text \<open>The sink is a parameter with its own state.\<close>

datatype SinkDeliveryError = SinkDeliveryError (sink_stage: string) (sink_message: string)

type_synonym 'k Sink = "u32 \<Rightarrow> u32 \<Rightarrow> ObservationBatch \<Rightarrow> 'k \<Rightarrow> 'k \<times> (SinkDeliveryError + unit)"

definition ingest_deliver ::
    "'k Sink \<Rightarrow> u32 \<Rightarrow> u32 \<Rightarrow> ObservationBatch \<Rightarrow> RuntimeState \<Rightarrow> 'k
      \<Rightarrow> RuntimeState \<times> 'k \<times> (SinkDeliveryError + unit)" where
  "ingest_deliver sink gateway_id sb_id batch st k =
     (let observation_count = of_nat (length (ob_observations batch))
      in case sink gateway_id sb_id batch k of
           (k, Inr _) \<Rightarrow>
             (st\<lparr>gi_delivered_batches := gi_delivered_batches st + 1,
                 gi_delivered_observations := gi_delivered_observations st + observation_count\<rparr>, k, Ok ())
         | (k, Inl e) \<Rightarrow> (st\<lparr>gi_delivery_failures := gi_delivery_failures st + 1\<rparr>, k, Err e))"

definition drop_connection :: "RuntimeState \<Rightarrow> RuntimeState" where
  "drop_connection st =
     st\<lparr>gi_active_connections := gi_active_connections st - 1,
        gi_closed_connections := gi_closed_connections st + 1\<rparr>"

section \<open>Interleaved threads\<close>

text \<open>
  Where a thread stands between two atomic operations of opening, using and dropping a
  connection.
\<close>

datatype OpenPc =
    OpenCheck | OpenReserve | OpenReject | OpenRecheck | OpenTakeId
  | OpenRelease GatewayOpenError | OpenCount u32 | Connected u32 | CountClosed
  | OpenFailed GatewayOpenError | Closed

fun open_step :: "RuntimeState \<Rightarrow> OpenPc \<Rightarrow> RuntimeState \<times> OpenPc" where
  "open_step st OpenCheck =
     (st, if gi_shutdown_requested st then OpenFailed ShuttingDown else OpenReserve)"
| "open_step st OpenReserve =
     (case reserve_connection st of None \<Rightarrow> (st, OpenReject) | Some st \<Rightarrow> (st, OpenRecheck))"
| "open_step st OpenReject = (count_rejected st, OpenFailed Capacity)"
| "open_step st OpenRecheck =
     (st, if gi_shutdown_requested st then OpenRelease ShuttingDown else OpenTakeId)"
| "open_step st OpenTakeId =
     (case take_gateway_id st of
        (st, raw_id) \<Rightarrow>
          (st, case usable_id raw_id of Some gateway_id \<Rightarrow> OpenCount gateway_id | None \<Rightarrow> OpenRelease IdExhausted))"
| "open_step st (OpenRelease e) = (release_reserved_connection st, OpenFailed e)"
| "open_step st (OpenCount gateway_id) = (count_accepted st, Connected gateway_id)"
| "open_step st (Connected gateway_id) = (release_reserved_connection st, CountClosed)"
| "open_step st CountClosed =
     (st\<lparr>gi_closed_connections := gi_closed_connections st + 1\<rparr>, Closed)"
| "open_step st (OpenFailed e) = (st, OpenFailed e)"
| "open_step st Closed = (st, Closed)"

text \<open>Run alone, a thread computes \<open>try_open\<close>.\<close>

definition open_result :: "OpenPc \<Rightarrow> (GatewayOpenError + u32) option" where
  "open_result pc = (case pc of Connected i \<Rightarrow> Some (Ok i) | OpenFailed e \<Rightarrow> Some (Err e) | _ \<Rightarrow> None)"

lemma try_open_run:
  "\<exists>n. case ((\<lambda>(st, pc). open_step st pc) ^^ n) (st, OpenCheck) of
     (st', pc) \<Rightarrow> st' = fst (try_open st) \<and> open_result pc = Some (snd (try_open st))"
proof (cases "gi_shutdown_requested st")
  case True
  then show ?thesis by (intro exI [of _ 1]) (simp add: try_open_def open_result_def)
next
  case live: False
  show ?thesis
  proof (cases "reserve_connection st")
    case None
    with live show ?thesis
      by (intro exI [of _ 3]) (simp add: try_open_def open_result_def eval_nat_numeral)
  next
    case (Some st1)
    then have live1: "\<not> gi_shutdown_requested st1"
      using live by (auto simp: reserve_connection_def split: if_splits)
    obtain st2 raw where take_id: "take_gateway_id st1 = (st2, raw)" by fastforce
    show ?thesis
      using live Some live1 take_id
      by (intro exI [of _ 5])
        (cases "usable_id raw"; simp add: try_open_def open_result_def eval_nat_numeral)
  qed
qed

record AdmissionSystem =
  as_state :: RuntimeState
  as_threads :: "OpenPc list"
  as_drawn :: nat

inductive admission_step :: "AdmissionSystem \<Rightarrow> AdmissionSystem \<Rightarrow> bool" where
  arrive: "admission_step s (s\<lparr>as_threads := as_threads s @ [OpenCheck]\<rparr>)"
| advance: "i < length (as_threads s) \<Longrightarrow> open_step (as_state s) (as_threads s ! i) = (st, pc) \<Longrightarrow>
    admission_step s (s\<lparr>as_state := st, as_threads := (as_threads s)[i := pc],
                        as_drawn := as_drawn s + (if as_threads s ! i = OpenTakeId then 1 else 0)\<rparr>)"
| shutdown: "admission_step s (s\<lparr>as_state := request_shutdown (as_state s)\<rparr>)"
| heartbeat: "admission_step s (s\<lparr>as_state := record_heartbeat (as_state s)\<rparr>)"

definition admission_start :: "AdmissionSystem \<Rightarrow> bool" where
  "admission_start s \<longleftrightarrow>
     (\<exists>max_connections. ingest_new max_connections = Ok (as_state s)) \<and> as_threads s = [] \<and> as_drawn s = 0"

abbreviation admission_reachable :: "AdmissionSystem \<Rightarrow> bool" where
  "admission_reachable \<equiv> reachable admission_start admission_step"

text \<open>The threads that hold a reservation, and the identifiers that are in use.\<close>

fun holds_slot :: "OpenPc \<Rightarrow> bool" where
  "holds_slot OpenRecheck = True"
| "holds_slot OpenTakeId = True"
| "holds_slot (OpenRelease _) = True"
| "holds_slot (OpenCount _) = True"
| "holds_slot (Connected _) = True"
| "holds_slot _ = False"

fun used_id :: "OpenPc \<Rightarrow> u32 option" where
  "used_id (OpenCount i) = Some i"
| "used_id (Connected i) = Some i"
| "used_id _ = None"

definition used_ids :: "OpenPc list \<Rightarrow> u32 list" where
  "used_ids pcs = List.map_filter used_id pcs"

definition connection_ids :: "OpenPc list \<Rightarrow> u32 list" where
  "connection_ids pcs = List.map_filter (\<lambda>pc. case pc of Connected i \<Rightarrow> Some i | _ \<Rightarrow> None) pcs"

definition admission_inv :: "AdmissionSystem \<Rightarrow> bool" where
  "admission_inv s \<longleftrightarrow>
     unat (gi_active_connections (as_state s)) = length (filter holds_slot (as_threads s))
     \<and> gi_active_connections (as_state s) \<le> gi_max_connections (as_state s)
     \<and> (as_drawn s < 2 ^ 64 - 1 \<longrightarrow>
          unat (gi_next_gateway_id (as_state s)) = as_drawn s + 1
          \<and> distinct (used_ids (as_threads s))
          \<and> (\<forall>i \<in> set (used_ids (as_threads s)). i \<noteq> 0 \<and> unat i \<le> as_drawn s))"

lemma used_ids_append [simp]:
  "used_ids (us @ vs) = used_ids us @ used_ids vs" "used_ids [] = []"
  "used_ids (x # xs) = (case used_id x of None \<Rightarrow> used_ids xs | Some i \<Rightarrow> i # used_ids xs)"
  by (auto simp: used_ids_def map_filter_def split: option.splits)

lemma list_update_split:
  assumes "i < length xs"
  obtains us vs where "xs = us @ xs ! i # vs" and "\<And>y. xs[i := y] = us @ y # vs"
  using assms by (intro that [of "take i xs" "drop (Suc i) xs"]) (simp_all add: id_take_nth_drop upd_conv_take_nth_drop)

lemma unat_active_bounds:
  "a < m \<Longrightarrow> unat (a + 1 :: u32) = unat a + 1" "0 < unat a \<Longrightarrow> unat (a - 1 :: u32) = unat a - 1"
proof -
  show "unat (a + 1) = unat a + 1" if "a < m" for a m :: u32
    using that unsigned_less [of m, where 'a = nat] by (simp add: word_less_nat_alt unat_word_ariths)
  show "unat (a - 1) = unat a - 1" if "0 < unat a" for a :: u32
    using that by (simp add: unat_gt_0 unat_minus_one)
qed

lemma unat_next_id: "unat (w :: u64) = n + 1 \<Longrightarrow> n + 1 < 2 ^ 64 - 1 \<Longrightarrow> unat (w + 1) = n + 2"
  by (simp add: unat_word_ariths)

text \<open>What one atomic operation does to the reservations and to the identifiers.\<close>

lemma open_step_slots:
  assumes "open_step st pc = (st', pc')" and "holds_slot pc \<longrightarrow> 0 < unat (gi_active_connections st)"
  shows "gi_max_connections st' = gi_max_connections st"
    and "unat (gi_active_connections st') + (if holds_slot pc then 1 else 0)
      = unat (gi_active_connections st) + (if holds_slot pc' then 1 else 0)"
    and "gi_active_connections st \<le> gi_max_connections st \<Longrightarrow> gi_active_connections st' \<le> gi_max_connections st'"
proof -
  have dec: "unat (gi_active_connections st - 1) = unat (gi_active_connections st) - 1"
    if "0 < unat (gi_active_connections st)" using that by (rule unat_active_bounds(2))
  show "gi_max_connections st' = gi_max_connections st"
    using assms(1) by (cases "(st, pc)" rule: open_step.cases)
      (auto simp: reserve_connection_def count_rejected_def take_gateway_id_def release_reserved_connection_def
        count_accepted_def split: if_splits option.splits)
  show "unat (gi_active_connections st') + (if holds_slot pc then 1 else 0)
      = unat (gi_active_connections st) + (if holds_slot pc' then 1 else 0)"
    using assms dec unat_active_bounds(1) [of "gi_active_connections st" "gi_max_connections st"]
    by (cases "(st, pc)" rule: open_step.cases)
      (auto simp: reserve_connection_def count_rejected_def take_gateway_id_def release_reserved_connection_def
        count_accepted_def split: if_splits option.splits)
  show "gi_active_connections st' \<le> gi_max_connections st'" if "gi_active_connections st \<le> gi_max_connections st"
    using assms that dec unat_active_bounds(1) [of "gi_active_connections st" "gi_max_connections st"]
    by (cases "(st, pc)" rule: open_step.cases)
      (auto simp: reserve_connection_def count_rejected_def take_gateway_id_def release_reserved_connection_def
        count_accepted_def word_le_nat_alt word_less_nat_alt split: if_splits option.splits)
qed

lemma open_step_ids:
  assumes "open_step st pc = (st', pc')"
  shows "pc \<noteq> OpenTakeId \<Longrightarrow> gi_next_gateway_id st' = gi_next_gateway_id st \<and> (used_id pc' = used_id pc \<or> used_id pc' = None)"
    and "pc = OpenTakeId \<Longrightarrow> gi_next_gateway_id st' = gi_next_gateway_id st + 1
      \<and> used_id pc' = usable_id (gi_next_gateway_id st)"
  using assms
  by (cases "(st, pc)" rule: open_step.cases;
      auto simp: reserve_connection_def count_rejected_def take_gateway_id_def release_reserved_connection_def
        count_accepted_def split: if_splits option.splits)+

lemma usable_id_Some: "usable_id raw = Some i \<Longrightarrow> i \<noteq> 0 \<and> unat i = unat raw"
proof -
  assume "usable_id raw = Some i"
  then have i: "i = ucast raw" and raw: "unat raw < 2 ^ 32" "raw \<noteq> 0" by (auto simp: usable_id_def split: if_splits)
  have "unat i = unat raw" unfolding i using raw(1) by (simp add: unsigned_ucast_eq take_bit_nat_eq_self unsigned_take_bit_eq)
  moreover have "0 < unat raw" using raw(2) by (simp add: unat_gt_0)
  ultimately show ?thesis by auto
qed

lemma advance_inv:
  assumes inv: "admission_inv s" and i: "i < length (as_threads s)"
    and step: "open_step (as_state s) (as_threads s ! i) = (st, pc)"
  shows "admission_inv (s\<lparr>as_state := st, as_threads := (as_threads s)[i := pc],
    as_drawn := as_drawn s + (if as_threads s ! i = OpenTakeId then 1 else 0)\<rparr>)" (is "admission_inv ?t")
proof -
  let ?old = "as_threads s ! i"
  obtain us vs where xs: "as_threads s = us @ ?old # vs" and upd: "\<And>y. (as_threads s)[i := y] = us @ y # vs"
    using list_update_split [OF i] by blast
  have count: "unat (gi_active_connections (as_state s)) = length (filter holds_slot (us @ ?old # vs))"
    and le: "gi_active_connections (as_state s) \<le> gi_max_connections (as_state s)"
    using inv xs by (auto simp: admission_inv_def)
  have held: "holds_slot ?old \<longrightarrow> 0 < unat (gi_active_connections (as_state s))" using count by simp
  note slots = open_step_slots [OF step held]
  have "unat (gi_active_connections st) = length (filter holds_slot (us @ pc # vs))"
    using slots(2) count by (auto split: if_splits)
  moreover have "unat (gi_next_gateway_id st) = as_drawn ?t + 1 \<and> distinct (used_ids (us @ pc # vs))
      \<and> (\<forall>j \<in> set (used_ids (us @ pc # vs)). j \<noteq> 0 \<and> unat j \<le> as_drawn ?t)"
    if "as_drawn ?t < 2 ^ 64 - 1"
  proof -
    from that inv have ids: "unat (gi_next_gateway_id (as_state s)) = as_drawn s + 1"
      "distinct (used_ids (us @ ?old # vs))" "\<forall>j \<in> set (used_ids (us @ ?old # vs)). j \<noteq> 0 \<and> unat j \<le> as_drawn s"
      using xs by (auto simp: admission_inv_def split: if_splits)
    show ?thesis
    proof (cases "?old = OpenTakeId")
      case False
      with open_step_ids(1) [OF step False] ids show ?thesis by (cases "used_id ?old") auto
    next
      case True
      with ids(1) that have next_id: "unat (gi_next_gateway_id st) = as_drawn s + 2"
        using open_step_ids(2) [OF step True] unat_next_id [of "gi_next_gateway_id (as_state s)" "as_drawn s"] by simp
      show ?thesis
      proof (cases "used_id pc")
        case None
        with ids True next_id show ?thesis by (auto simp: le_SucI)
      next
        case (Some j)
        with open_step_ids(2) [OF step True] have "usable_id (gi_next_gateway_id (as_state s)) = Some j" by simp
        from usable_id_Some [OF this] ids(1) have j: "j \<noteq> 0" "unat j = as_drawn s + 1" by auto
        have "j \<notin> set (used_ids us) \<union> set (used_ids vs)" using bspec [OF ids(3), of j] j(2) True by auto
        with Some ids True next_id j show ?thesis by (auto simp: le_SucI)
      qed
    qed
  qed
  ultimately show ?thesis using slots(3) [OF le] unfolding admission_inv_def by (simp add: upd)
qed

lemma ingest_new_Ok:
  "ingest_new m = Ok st \<Longrightarrow> gi_active_connections st = 0 \<and> gi_next_gateway_id st = 1 \<and> gi_max_connections st = m"
  by (auto simp: ingest_new_def split: if_splits)

interpretation admission: guarded_system admission_start admission_step admission_inv
proof
  show "admission_inv s" if "admission_start s" for s
    using that by (auto simp: admission_start_def admission_inv_def dest!: ingest_new_Ok)
  show "admission_inv t" if "admission_inv s" "admission_step s t" for s t
    using that(2)
  proof cases
    case (advance i st pc)
    show ?thesis unfolding advance(1) by (rule advance_inv [OF that(1) advance(2,3)])
  qed (use that(1) in \<open>auto simp: admission_inv_def request_shutdown_def record_heartbeat_def\<close>)
qed

section \<open>Sandbox sessions\<close>

record RegistryState =
  sr_next_id :: u32
  sr_active :: "u32 btree_set"

definition registry_new :: RegistryState where
  "registry_new = \<lparr>sr_next_id = 1, sr_active = bm_empty\<rparr>"

fun allocate_from :: "nat \<Rightarrow> RegistryState \<Rightarrow> RegistryState \<times> (string + u32)" where
  "allocate_from 0 st = (st, Err ''no free SB numeric ID'')"
| "allocate_from (Suc n) st =
     (let candidate = max (sr_next_id st) 1;
          st = st\<lparr>sr_next_id := max (candidate + 1) 1\<rparr>
      in if bs_contains (sr_active st) candidate then allocate_from n st
         else (st\<lparr>sr_active := bs_insert candidate (sr_active st)\<rparr>, Ok candidate))"

definition registry_allocate :: "nat \<Rightarrow> RegistryState \<Rightarrow> RegistryState \<times> (string + u32)" where
  "registry_allocate capacity st =
     (if capacity \<le> bs_len (sr_active st) then (st, Err ''SB connection capacity reached'')
      else allocate_from (capacity + 1) st)"

definition registry_release :: "u32 \<Rightarrow> RegistryState \<Rightarrow> RegistryState" where
  "registry_release ident st = st\<lparr>sr_active := bm_remove ident (sr_active st)\<rparr>"

definition registry_active_count :: "RegistryState \<Rightarrow> nat" where
  "registry_active_count st = bs_len (sr_active st)"

text \<open>
  The candidates from a number on run through the non-zero numbers, so among the first
  \<open>2 ^ 32 - 1\<close> there is none twice.
\<close>

definition candidate_at :: "u32 \<Rightarrow> nat \<Rightarrow> u32" where
  "candidate_at w k = of_nat ((unat w - 1 + k) mod (2 ^ 32 - 1) + 1)"

lemma unat_of_nat_u32: "n < 2 ^ 32 \<Longrightarrow> unat (of_nat n :: u32) = n"
  by (simp add: unsigned_of_nat take_bit_nat_eq_self)

lemma unat_candidate: "unat (candidate_at w k) = (unat w - 1 + k) mod (2 ^ 32 - 1) + 1"
proof -
  have "(unat w - 1 + k) mod (2 ^ 32 - 1) < 2 ^ 32 - 1" by (rule mod_less_divisor) simp
  then have "(unat w - 1 + k) mod (2 ^ 32 - 1) + 1 < 2 ^ 32" by simp
  then show ?thesis unfolding candidate_at_def by (rule unat_of_nat_u32)
qed

lemma unat_u32_bound: "unat (w :: u32) \<le> 2 ^ 32 - 1"
  using unsigned_less [of w, where 'a = nat] by simp

lemma candidate_0: "w \<noteq> 0 \<Longrightarrow> candidate_at w 0 = w"
proof -
  assume "w \<noteq> 0"
  then have "0 < unat w" by (simp add: unat_gt_0)
  then have "unat (candidate_at w 0) = unat w" using unat_u32_bound [of w] by (simp add: unat_candidate)
  then show "candidate_at w 0 = w" by (simp only: word_unat_eq_iff)
qed

lemma unat_successor: "w \<noteq> 0 \<Longrightarrow> unat (max (w + 1) 1 :: u32) = unat w mod (2 ^ 32 - 1) + 1"
proof -
  assume "w \<noteq> 0"
  then have "0 < unat w" by (simp add: unat_gt_0)
  show ?thesis
  proof (cases "unat w = 2 ^ 32 - 1")
    case True
    then have "w + 1 = 0" by (simp add: word_unat_eq_iff unat_word_ariths)
    with True show ?thesis by (simp add: max_def)
  next
    case False
    with unat_u32_bound [of w] have less: "unat w < 2 ^ 32 - 1" by simp
    then have "unat (w + 1) = unat w + 1" by (simp add: unat_word_ariths)
    then have "1 \<le> w + 1" by (simp add: word_le_nat_alt)
    with less \<open>unat (w + 1) = unat w + 1\<close> show ?thesis by (simp add: max_def)
  qed
qed

lemma candidate_Suc: "w \<noteq> 0 \<Longrightarrow> candidate_at (max (w + 1) 1) k = candidate_at w (Suc k)"
proof -
  assume w: "w \<noteq> 0"
  then have "0 < unat w" by (simp add: unat_gt_0)
  then have "unat (candidate_at (max (w + 1) 1) k) = unat (candidate_at w (Suc k))"
    by (simp add: unat_candidate unat_successor [OF w] mod_add_left_eq)
  then show ?thesis by (simp only: word_unat_eq_iff)
qed

lemma mod_add_left_inj: "(a + i) mod m = (a + j) mod m \<Longrightarrow> i mod m = j mod (m :: nat)"
proof (induction i j rule: linorder_wlog)
  case (le i j)
  then have "m dvd j - i" using mod_eq_dvd_iff_nat [of "a + i" "a + j" m] by simp
  with le(1) show ?case using mod_eq_dvd_iff_nat [of i j m] by simp
qed simp

lemma candidate_inj: "n \<le> 2 ^ 32 - 1 \<Longrightarrow> inj_on (candidate_at w) {..<n}"
proof (rule inj_onI)
  fix i j
  assume n: "n \<le> 2 ^ 32 - 1" and ij: "i \<in> {..<n}" "j \<in> {..<n}" and "candidate_at w i = candidate_at w j"
  then have "(unat w - 1 + i) mod (2 ^ 32 - 1) = (unat w - 1 + j) mod (2 ^ 32 - 1)"
    using unat_candidate [of w i] unat_candidate [of w j] by simp
  then have "i mod (2 ^ 32 - 1) = j mod (2 ^ 32 - 1)" by (rule mod_add_left_inj)
  with n ij show "i = j" by simp
qed


lemma allocate_from_fails:
  "allocate_from n st = (st', Inl e) \<Longrightarrow> k < n \<Longrightarrow>
     bs_contains (sr_active st) (candidate_at (max (sr_next_id st) 1) k)"
proof (induction n arbitrary: st k)
  case (Suc n)
  let ?c = "max (sr_next_id st) 1" and ?st = "st\<lparr>sr_next_id := max (max (sr_next_id st) 1 + 1) 1\<rparr>"
  have c: "?c \<noteq> 0" by (auto simp: max_def)
  from Suc.prems(1) have held: "bs_contains (sr_active st) ?c" and rest: "allocate_from n ?st = (st', Inl e)"
    by (auto simp: Let_def split: if_splits)
  show ?case
  proof (cases k)
    case 0
    with held show ?thesis by (simp add: candidate_0 [OF c])
  next
    case (Suc i)
    with Suc.prems(2) Suc.IH [OF rest, of i] show ?thesis by (simp add: candidate_Suc [OF c] max.absorb1)
  qed
qed simp

lemma allocate_from_Ok:
  "allocate_from n st = (st', Inr c) \<Longrightarrow>
     c \<noteq> 0 \<and> \<not> bs_contains (sr_active st) c \<and> sr_active st' = bs_insert c (sr_active st)"
proof (induction n arbitrary: st)
  case (Suc n)
  let ?c = "max (sr_next_id st) 1" and ?st = "st\<lparr>sr_next_id := max (max (sr_next_id st) 1 + 1) 1\<rparr>"
  have "?c \<noteq> 0" by (auto simp: max_def)
  show ?case
  proof (cases "bs_contains (sr_active st) ?c")
    case True
    with Suc.prems have "allocate_from n ?st = (st', Inr c)" by (simp add: Let_def)
    from Suc.IH [OF this] show ?thesis by simp
  next
    case False
    with Suc.prems \<open>?c \<noteq> 0\<close> show ?thesis by (auto simp: Let_def)
  qed
qed simp

lemma bs_len_card: "bs_len s = card {x. bs_contains s x}"
  using distinct_card [of "bs_to_list s"] by (simp add: bs_len_def)

lemma finite_bs: "finite {x. bs_contains s x}"
  by (metis List.finite_set set_bs_to_list)

lemma bs_len_insert: "\<not> bs_contains s x \<Longrightarrow> bs_len (bs_insert x s) = bs_len s + 1"
proof -
  assume new: "\<not> bs_contains s x"
  have "{y. bs_contains (bs_insert x s) y} = insert x {y. bs_contains s y}" by auto
  with new show ?thesis by (simp add: bs_len_card finite_bs)
qed

lemma bs_len_remove: "bs_len (bm_remove x s) \<le> bs_len s"
proof -
  have "{y. bs_contains (bm_remove x s) y} \<subseteq> {y. bs_contains s y}" by (auto simp: bs_contains_def)
  then show ?thesis unfolding bs_len_card by (rule card_mono [OF finite_bs])
qed

text \<open>Fewer identifiers are active than candidates are tried, so one of them is free.\<close>

lemma allocate_succeeds:
  assumes room: "bs_len (sr_active st) < capacity" and small: "capacity < 2 ^ 32 - 1"
  obtains st' c where "registry_allocate capacity st = (st', Inr c)"
proof -
  obtain st' res where res: "allocate_from (capacity + 1) st = (st', res)" by fastforce
  show ?thesis
  proof (cases res)
    case (Inr c)
    with room res show ?thesis by (intro that [of st' c]) (simp add: registry_allocate_def)
  next
    case (Inl e)
    let ?tried = "candidate_at (max (sr_next_id st) 1) ` {..<capacity + 1}"
    have "?tried \<subseteq> {x. bs_contains (sr_active st) x}"
      using allocate_from_fails [OF res [unfolded Inl]] by auto
    then have "card ?tried \<le> bs_len (sr_active st)" unfolding bs_len_card by (rule card_mono [OF finite_bs])
    moreover have "card ?tried = capacity + 1"
      using card_image [OF candidate_inj [of "capacity + 1"]] small by simp
    ultimately show ?thesis using room by simp
  qed
qed

inductive registry_step :: "nat \<Rightarrow> RegistryState \<Rightarrow> RegistryState \<Rightarrow> bool" for capacity where
  allocate: "registry_allocate capacity st = (st', res) \<Longrightarrow> registry_step capacity st st'"
| release: "registry_step capacity st (registry_release ident st)"

definition registry_inv :: "nat \<Rightarrow> RegistryState \<Rightarrow> bool" where
  "registry_inv capacity st \<longleftrightarrow> bs_len (sr_active st) \<le> capacity \<and> \<not> bs_contains (sr_active st) 0"

abbreviation registry_reachable :: "nat \<Rightarrow> RegistryState \<Rightarrow> bool" where
  "registry_reachable capacity \<equiv> reachable (\<lambda>st. st = registry_new) (registry_step capacity)"

lemma allocate_from_state: "allocate_from n st = (st', Inl e) \<Longrightarrow> sr_active st' = sr_active st"
  by (induction n arbitrary: st) (auto simp: Let_def split: if_splits)

lemma registry_allocate_inv:
  assumes "registry_inv capacity st" and "registry_allocate capacity st = (st', res)"
  shows "registry_inv capacity st'"
proof (cases "capacity \<le> bs_len (sr_active st)")
  case True
  with assms show ?thesis by (simp add: registry_allocate_def)
next
  case room: False
  with assms(2) have res: "allocate_from (capacity + 1) st = (st', res)" by (simp add: registry_allocate_def)
  show ?thesis
  proof (cases res)
    case (Inl e)
    with assms(1) allocate_from_state [OF res [unfolded Inl]] show ?thesis by (simp add: registry_inv_def)
  next
    case (Inr c)
    with assms(1) room allocate_from_Ok [OF res [unfolded Inr]] show ?thesis
      by (simp add: registry_inv_def bs_len_insert)
  qed
qed

interpretation sessions: guarded_system "\<lambda>st. st = registry_new" "registry_step capacity" "registry_inv capacity"
  for capacity
proof
  show "registry_inv capacity t" if "registry_inv capacity s" "registry_step capacity s t" for s t
    using that(2)
  proof cases
    case (allocate res)
    with that(1) show ?thesis by (auto intro: registry_allocate_inv)
  next
    case (release ident)
    with that(1) bs_len_remove [of ident "sr_active s"] show ?thesis
      by (auto simp: registry_inv_def registry_release_def bs_contains_def split: if_splits)
  qed
qed (simp add: registry_inv_def registry_new_def)

text \<open>With one connection at a time, every non-zero number is handed out in turn.\<close>

lemma next_id_reachable:
  "n < 2 ^ 32 - 1 \<Longrightarrow> registry_reachable 1 \<lparr>sr_next_id = of_nat (n + 1), sr_active = bm_empty\<rparr>"
proof (induction n)
  case 0
  show ?case by (rule reachable_start) (simp add: registry_new_def)
next
  case (Suc n)
  let ?w = "of_nat (n + 1) :: u32"
  let ?st = "\<lparr>sr_next_id = ?w, sr_active = bm_empty\<rparr> :: RegistryState"
  let ?mid = "\<lparr>sr_next_id = ?w + 1, sr_active = bs_insert ?w bm_empty\<rparr> :: RegistryState"
  have w: "unat ?w = n + 1" "unat (?w + 1) = n + 2"
    using Suc.prems unat_of_nat_u32 [of "n + 1"] unat_of_nat_u32 [of "n + 2"] by (simp_all add: add.commute)
  then have "max ?w 1 = ?w" "max (?w + 1) 1 = ?w + 1" by (simp_all add: max_def word_le_nat_alt)
  then have "registry_allocate 1 ?st = (?mid, Ok ?w)" by (simp add: registry_allocate_def Let_def)
  then have "registry_step 1 ?st ?mid" by (rule registry_step.allocate)
  then have "registry_reachable 1 ?mid" using Suc.IH Suc.prems by (auto intro: reachable_step)
  moreover have "registry_step 1 ?mid (registry_release ?w ?mid)" by (rule registry_step.release)
  moreover have "bm_remove ?w (bs_insert ?w bm_empty) = bm_empty"
    by (rule bs_ext) (simp add: bs_contains_def bs_insert_def)
  then have "registry_release ?w ?mid = \<lparr>sr_next_id = of_nat (Suc n + 1), sr_active = bm_empty\<rparr>"
    by (simp add: registry_release_def add.commute del: of_nat_Suc of_nat_add) (simp add: add.commute)
  ultimately show ?case by (auto intro: reachable_step)
qed

end
