(* ===== verification/Gateway_Queue.thy ===== *)
theory Gateway_Queue
  imports Sandbox_Frame "HOL-Library.Multiset"
begin

text \<open>
  The way from the sandbox sessions of the gateway to the daemon
  (\<open>crates/core/vsock_gateway_runtime/src/upstream.rs\<close>): a quota for each session, one bounded
  queue, and the thread that writes the queue to the daemon and reconnects when a write fails.
  The threads run interleaved.
\<close>

section \<open>Quotas\<close>

datatype IoErrorKind =
    BrokenPipe | WouldBlock | TimedOut | InvalidData | InvalidInput | UnexpectedEof | ConnectionRefused | OtherKind

datatype IoError = IoError (io_kind: IoErrorKind) (io_message: string)

record SessionForwardState =
  fq_active :: bool
  fq_pending :: nat
  fq_limit :: nat

definition quota_new :: "nat \<Rightarrow> SessionForwardState" where
  "quota_new limit = \<lparr>fq_active = True, fq_pending = 0, fq_limit = limit\<rparr>"

definition quota_close :: "SessionForwardState \<Rightarrow> SessionForwardState" where
  "quota_close q = q\<lparr>fq_active := False\<rparr>"

definition permit_drop :: "SessionForwardState \<Rightarrow> SessionForwardState" where
  "permit_drop q = q\<lparr>fq_pending := (if fq_pending q = 0 then 2 ^ 64 - 1 else fq_pending q - 1)\<rparr>"

definition try_reserve :: "SessionForwardState \<Rightarrow> SessionForwardState \<times> (IoError + unit)" where
  "try_reserve q =
     (if \<not> fq_active q then (q, Err (IoError BrokenPipe ''SB session is closed''))
      else if \<not> fq_pending q < fq_limit q
      then (q, Err (IoError WouldBlock ''per-SB forward quota is full''))
      else
        (let q = q\<lparr>fq_pending := fq_pending q + 1\<rparr>
         in if \<not> fq_active q
            then (permit_drop q, Err (IoError BrokenPipe ''SB session closed while reserving forward quota''))
            else (q, Ok ())))"

section \<open>The queue and its writer\<close>

text \<open>
  An item carries its permit, which is a reference to the state of its session; sessions are
  numbered in the order they were opened, connections to the daemon likewise. \<open>uq_sending\<close> holds the items whose permit a session
  thread has just reserved and that are not in the channel yet. Where the writer stands in its
  loop is \<open>uq_pc\<close>. The last fields are logs: what was written on the present connection, how
  often a new connection lacked a capability of the last, what the channel took, in order, and
  what became of what left it.
\<close>

record ForwardItem =
  fi_bytes :: bytes
  fi_session :: nat

datatype WorkerPc =
    LoopTop
  | HaveItem ForwardItem
  | HeartbeatDue
  | WriteFailed
  | Reconnecting bool
  | Draining GatewayWelcome
  | Registered GatewayWelcome
  | Returned

datatype Fate = Written nat | SessionClosed | Discarded

datatype StreamWrite = WroteItem ForwardItem | WroteHeartbeat

record UpstreamState =
  uq_quotas :: "SessionForwardState list"
  uq_sending :: "ForwardItem list"
  uq_queue :: "ForwardItem list"
  uq_capacity :: nat
  uq_disconnected :: bool
  uq_pending :: "ForwardItem option"
  uq_pc :: WorkerPc
  uq_gateway_id :: u32
  uq_workload_cgroup_observations :: bool
  uq_connection :: nat
  uq_stream :: "StreamWrite list"
  uq_downgrades :: nat
  uq_sent :: "ForwardItem list"
  uq_done :: "(ForwardItem \<times> Fate) list"

definition link_start :: "nat \<Rightarrow> GatewayWelcome \<Rightarrow> UpstreamState" where
  "link_start capacity welcome =
     \<lparr>uq_quotas = [], uq_sending = [], uq_queue = [], uq_capacity = capacity, uq_disconnected = False,
      uq_pending = None, uq_pc = LoopTop, uq_gateway_id = gw_gateway_id welcome,
      uq_workload_cgroup_observations = gw_workload_cgroup_observations welcome,
      uq_connection = 0, uq_stream = [], uq_downgrades = 0, uq_sent = [], uq_done = []\<rparr>"

definition drop_item :: "ForwardItem \<Rightarrow> UpstreamState \<Rightarrow> UpstreamState" where
  "drop_item item st =
     st\<lparr>uq_quotas := (uq_quotas st)[fi_session item := permit_drop (uq_quotas st ! fi_session item)]\<rparr>"

text \<open>What a session thread does: \<open>try_send\<close> reserves a permit, then offers the item to the channel.\<close>

definition send_reserve :: "nat \<Rightarrow> bytes \<Rightarrow> UpstreamState \<Rightarrow> UpstreamState \<times> (IoError + ForwardItem)" where
  "send_reserve session bs st =
     (case try_reserve (uq_quotas st ! session) of
        (q, Inl e) \<Rightarrow> (st\<lparr>uq_quotas := (uq_quotas st)[session := q]\<rparr>, Err e)
      | (q, Inr _) \<Rightarrow>
          (let item = \<lparr>fi_bytes = bs, fi_session = session\<rparr>
           in (st\<lparr>uq_quotas := (uq_quotas st)[session := q], uq_sending := item # uq_sending st\<rparr>, Ok item)))"

definition send_enqueue :: "ForwardItem \<Rightarrow> UpstreamState \<Rightarrow> UpstreamState \<times> (IoError + unit)" where
  "send_enqueue item st =
     (let st = st\<lparr>uq_sending := remove1 item (uq_sending st)\<rparr>
      in if uq_disconnected st
         then (drop_item item st, Err (IoError BrokenPipe ''gateway upstream worker is closed''))
         else if uq_capacity st \<le> length (uq_queue st)
         then (drop_item item st, Err (IoError WouldBlock ''gateway upstream queue is full''))
         else (st\<lparr>uq_queue := uq_queue st @ [item], uq_sent := uq_sent st @ [item]\<rparr>, Ok ()))"

definition try_send :: "nat \<Rightarrow> bytes \<Rightarrow> UpstreamState \<Rightarrow> UpstreamState \<times> (IoError + unit)" where
  "try_send session bs st =
     (case send_reserve session bs st of
        (st, Inl e) \<Rightarrow> (st, Err e)
      | (st, Inr item) \<Rightarrow> send_enqueue item st)"

definition session_open :: "nat \<Rightarrow> UpstreamState \<Rightarrow> UpstreamState" where
  "session_open limit st = st\<lparr>uq_quotas := uq_quotas st @ [quota_new limit]\<rparr>"

definition session_close :: "nat \<Rightarrow> UpstreamState \<Rightarrow> UpstreamState" where
  "session_close session st =
     st\<lparr>uq_quotas := (uq_quotas st)[session := quota_close (uq_quotas st ! session)]\<rparr>"

text \<open>
  What the writer finds at each step: whether it was told to stop, whether a heartbeat is due,
  whether its write succeeds, and how reconnecting ends.
\<close>

record WorkerInput =
  wi_stop :: bool
  wi_heartbeat_due :: bool
  wi_write_ok :: bool
  wi_reconnected :: "GatewayWelcome option"

definition write_bytes :: "StreamWrite \<Rightarrow> bytes" where
  "write_bytes w = (case w of WroteItem item \<Rightarrow> fi_bytes item | WroteHeartbeat \<Rightarrow> up_header UpHeartbeat 0)"

definition settle :: "ForwardItem \<Rightarrow> Fate \<Rightarrow> UpstreamState \<Rightarrow> UpstreamState" where
  "settle item fate st = drop_item item (st\<lparr>uq_done := uq_done st @ [(item, fate)]\<rparr>)"

text \<open>Returning drops the local item, the receiver with what is queued, and the identity.\<close>

definition worker_return :: "UpstreamState \<Rightarrow> UpstreamState" where
  "worker_return st =
     (let left = (case uq_pending st of None \<Rightarrow> [] | Some item \<Rightarrow> [item]) @ uq_queue st;
          st = fold (\<lambda>item. settle item Discarded) left st
      in st\<lparr>uq_pending := None, uq_queue := [], uq_disconnected := True, uq_gateway_id := 0,
           uq_workload_cgroup_observations := False, uq_pc := Returned\<rparr>)"

fun worker_step :: "WorkerInput \<Rightarrow> WorkerPc \<Rightarrow> UpstreamState \<Rightarrow> UpstreamState" where
  "worker_step inp LoopTop st =
     (if wi_stop inp then worker_return st
      else case uq_pending st of
        Some item \<Rightarrow> st\<lparr>uq_pending := None, uq_pc := HaveItem item\<rparr>
      | None \<Rightarrow>
          (case uq_queue st of
             item # rest \<Rightarrow> st\<lparr>uq_queue := rest, uq_pc := HaveItem item\<rparr>
           | [] \<Rightarrow> if wi_heartbeat_due inp then st\<lparr>uq_pc := HeartbeatDue\<rparr> else st))"
| "worker_step inp (HaveItem item) st =
     (if \<not> fq_active (uq_quotas st ! fi_session item)
      then settle item SessionClosed (st\<lparr>uq_pc := LoopTop\<rparr>)
      else if wi_write_ok inp
      then settle item (Written (uq_connection st)) (st\<lparr>uq_stream := uq_stream st @ [WroteItem item], uq_pc := LoopTop\<rparr>)
      else st\<lparr>uq_pending := Some item, uq_pc := WriteFailed\<rparr>)"
| "worker_step inp HeartbeatDue st =
     (if wi_write_ok inp then st\<lparr>uq_stream := uq_stream st @ [WroteHeartbeat], uq_pc := LoopTop\<rparr>
      else st\<lparr>uq_pc := WriteFailed\<rparr>)"
| "worker_step inp WriteFailed st =
     st\<lparr>uq_gateway_id := 0, uq_workload_cgroup_observations := False,
        uq_pc := Reconnecting (uq_workload_cgroup_observations st)\<rparr>"
| "worker_step inp (Reconnecting previously_supported) st =
     (case wi_reconnected inp of
        None \<Rightarrow> worker_return st
      | Some welcome \<Rightarrow>
          (let st = st\<lparr>uq_connection := uq_connection st + 1, uq_stream := []\<rparr>
           in if previously_supported \<and> \<not> gw_workload_cgroup_observations welcome
              then
                (let st = st\<lparr>uq_downgrades := uq_downgrades st + 1, uq_pc := Draining welcome\<rparr>
                 in case uq_pending st of
                      None \<Rightarrow> st
                    | Some item \<Rightarrow> settle item Discarded (st\<lparr>uq_pending := None\<rparr>))
              else st\<lparr>uq_pc := Registered welcome\<rparr>))"
| "worker_step inp (Draining welcome) st =
     (case uq_queue st of
        [] \<Rightarrow> st\<lparr>uq_pc := Registered welcome\<rparr>
      | item # rest \<Rightarrow> settle item Discarded (st\<lparr>uq_queue := rest\<rparr>))"
| "worker_step inp (Registered welcome) st =
     st\<lparr>uq_gateway_id := gw_gateway_id welcome,
        uq_workload_cgroup_observations := gw_workload_cgroup_observations welcome, uq_pc := LoopTop\<rparr>"
| "worker_step inp Returned st = st"

section \<open>All threads together\<close>

text \<open>
  At most \<open>max_sessions\<close> sessions are open at a time, each with the same quota: the registry
  admits no more.
\<close>

definition open_sessions :: "UpstreamState \<Rightarrow> nat" where
  "open_sessions st = length (filter fq_active (uq_quotas st))"

inductive link_step :: "nat \<Rightarrow> nat \<Rightarrow> UpstreamState \<Rightarrow> UpstreamState \<Rightarrow> bool"
  for max_sessions quota :: nat where
  session_opens: "open_sessions st < max_sessions \<Longrightarrow> link_step max_sessions quota st (session_open quota st)"
| session_reserves: "i < length (uq_quotas st) \<Longrightarrow> send_reserve i bs st = (st', res) \<Longrightarrow> link_step max_sessions quota st st'"
| session_enqueues: "item \<in> set (uq_sending st) \<Longrightarrow> send_enqueue item st = (st', res) \<Longrightarrow> link_step max_sessions quota st st'"
| session_closes: "i < length (uq_quotas st) \<Longrightarrow> link_step max_sessions quota st (session_close i st)"
| writer_runs: "link_step max_sessions quota st (worker_step inp (uq_pc st) st)"

abbreviation link_reachable :: "nat \<Rightarrow> nat \<Rightarrow> nat \<Rightarrow> UpstreamState \<Rightarrow> bool" where
  "link_reachable capacity max_sessions quota \<equiv>
     reachable (\<lambda>st. \<exists>welcome. st = link_start capacity welcome) (link_step max_sessions quota)"

text \<open>The items that have left the channel and are not settled, and all items that hold a permit.\<close>

definition in_hand :: "UpstreamState \<Rightarrow> ForwardItem list" where
  "in_hand st = (case uq_pc st of HaveItem item \<Rightarrow> [item] | _ \<Rightarrow> []) @ (case uq_pending st of Some item \<Rightarrow> [item] | None \<Rightarrow> [])"

definition permits :: "UpstreamState \<Rightarrow> nat \<Rightarrow> nat" where
  "permits st i = count_list (map fi_session (uq_sending st @ in_hand st @ uq_queue st)) i"


section \<open>Every permit is accounted for\<close>

definition accounted :: "nat \<Rightarrow> SessionForwardState list \<Rightarrow> (nat \<Rightarrow> nat) \<Rightarrow> bool" where
  "accounted quota qs held \<longleftrightarrow>
     (\<forall>i < length qs. fq_pending (qs ! i) = held i \<and> held i \<le> quota \<and> fq_limit (qs ! i) = quota)"

lemma accounted_cong: "accounted quota qs f \<Longrightarrow> (\<And>i. f i = g i) \<Longrightarrow> accounted quota qs g"
  by (simp add: accounted_def)

lemma accounted_drop:
  assumes "accounted quota qs held" and "s < length qs" and "\<And>i. held i = held' i + (if i = s then 1 else 0)"
  shows "accounted quota (qs[s := permit_drop (qs ! s)]) held'"
  using assms by (auto simp: accounted_def permit_drop_def nth_list_update)

lemma accounted_reserve:
  assumes "accounted quota qs held" and "s < length qs" and "try_reserve (qs ! s) = (q, Inr u)"
    and "\<And>i. held' i = held i + (if i = s then 1 else 0)"
  shows "accounted quota (qs[s := q]) held'"
  using assms by (auto simp: accounted_def try_reserve_def Let_def nth_list_update split: if_splits)

lemma try_reserve_fails: "try_reserve q = (q', Inl e) \<Longrightarrow> q' = q"
  by (auto simp: try_reserve_def Let_def split: if_splits)

lemma try_reserve_active: "try_reserve q = (q', r) \<Longrightarrow> fq_active q' = fq_active q"
  by (auto simp: try_reserve_def Let_def permit_drop_def split: if_splits)

lemma accounted_close:
  "accounted quota qs held \<Longrightarrow> accounted quota (qs[s := quota_close (qs ! s)]) held"
  by (cases "s < length qs") (auto simp: accounted_def quota_close_def nth_list_update)

lemma settle_fields [simp]:
  "uq_sending (settle item f st) = uq_sending st" "uq_queue (settle item f st) = uq_queue st"
  "uq_capacity (settle item f st) = uq_capacity st" "uq_pending (settle item f st) = uq_pending st"
  "uq_pc (settle item f st) = uq_pc st" "uq_connection (settle item f st) = uq_connection st"
  "uq_stream (settle item f st) = uq_stream st" "uq_downgrades (settle item f st) = uq_downgrades st"
  "uq_sent (settle item f st) = uq_sent st" "uq_disconnected (settle item f st) = uq_disconnected st"
  "uq_done (settle item f st) = uq_done st @ [(item, f)]"
  "uq_quotas (settle item f st) =
     (uq_quotas st)[fi_session item := permit_drop (uq_quotas st ! fi_session item)]"
  by (simp_all add: settle_def drop_item_def)

text \<open>
  A session keeps being closed or open when a permit is dropped, and there are as many sessions.
\<close>

definition actives :: "SessionForwardState list \<Rightarrow> bool list" where
  "actives qs = map fq_active qs"

lemma actives_drop [simp]: "actives (qs[s := permit_drop (qs ! s)]) = actives qs"
  by (cases "s < length qs") (simp_all add: actives_def permit_drop_def map_update list_update_beyond list_update_same_conv)

lemma actives_length: "actives qs = actives rs \<Longrightarrow> length qs = length rs"
  unfolding actives_def by (metis length_map)

lemma actives_nth: "actives qs = actives rs \<Longrightarrow> i < length qs \<Longrightarrow> fq_active (qs ! i) = fq_active (rs ! i)"
  unfolding actives_def by (metis length_map nth_map)

lemma settle_all:
  "\<lbrakk>\<forall>item \<in> set left. fi_session item < length (uq_quotas st);
    accounted quota (uq_quotas st) (\<lambda>i. held i + count_list (map fi_session left) i)\<rbrakk>
   \<Longrightarrow> let st' = fold (\<lambda>item. settle item f) left st
      in accounted quota (uq_quotas st') held \<and> actives (uq_quotas st') = actives (uq_quotas st)
         \<and> uq_done st' = uq_done st @ map (\<lambda>item. (item, f)) left
         \<and> uq_sending st' = uq_sending st \<and> uq_capacity st' = uq_capacity st \<and> uq_sent st' = uq_sent st
         \<and> uq_connection st' = uq_connection st \<and> uq_stream st' = uq_stream st
         \<and> uq_downgrades st' = uq_downgrades st"
proof (induction left arbitrary: st)
  case (Cons item left)
  have "accounted quota (uq_quotas (settle item f st)) (\<lambda>i. held i + count_list (map fi_session left) i)"
    unfolding settle_fields using Cons.prems by (intro accounted_drop [OF Cons.prems(2)]) simp_all
  moreover have "\<forall>item \<in> set left. fi_session item < length (uq_quotas (settle item f st))"
    using Cons.prems by simp
  ultimately show ?case using Cons.IH [of "settle item f st"] by (simp add: Let_def)
qed simp


section \<open>The invariant\<close>

definition items_of :: "StreamWrite list \<Rightarrow> ForwardItem list" where
  "items_of ws = List.map_filter (\<lambda>w. case w of WroteItem item \<Rightarrow> Some item | WroteHeartbeat \<Rightarrow> None) ws"

definition written_on :: "nat \<Rightarrow> (ForwardItem \<times> Fate) list \<Rightarrow> ForwardItem list" where
  "written_on n ds = map fst (filter (\<lambda>(_, f). f = Written n) ds)"

lemma log_simps [simp]:
  "items_of [] = []" "items_of (ws @ [WroteItem item]) = items_of ws @ [item]"
  "items_of (ws @ [WroteHeartbeat]) = items_of ws"
  "written_on n [] = []" "written_on n (ds @ es) = written_on n ds @ written_on n es"
  "written_on n ((item, f) # ds) = (if f = Written n then item # written_on n ds else written_on n ds)"
  by (simp_all add: items_of_def written_on_def map_filter_def)

lemma written_on_discarded [simp]: "written_on n (map (\<lambda>item. (item, Discarded)) items) = []"
  by (induction items) simp_all

definition live_items :: "UpstreamState \<Rightarrow> ForwardItem list" where
  "live_items st = uq_sending st @ in_hand st @ uq_queue st"

fun pc_ok :: "WorkerPc \<Rightarrow> UpstreamState \<Rightarrow> bool" where
  "pc_ok (HaveItem _) st \<longleftrightarrow> uq_pending st = None \<and> \<not> uq_disconnected st"
| "pc_ok (Draining _) st \<longleftrightarrow> uq_pending st = None \<and> \<not> uq_disconnected st \<and> 0 < uq_downgrades st"
| "pc_ok Returned st \<longleftrightarrow> uq_pending st = None \<and> uq_queue st = [] \<and> uq_disconnected st"
| "pc_ok _ st \<longleftrightarrow> \<not> uq_disconnected st"

fun fate_ok :: "UpstreamState \<Rightarrow> ForwardItem \<times> Fate \<Rightarrow> bool" where
  "fate_ok st (item, Written n) \<longleftrightarrow> n \<le> uq_connection st"
| "fate_ok st (item, SessionClosed) \<longleftrightarrow>
     fi_session item < length (uq_quotas st) \<and> \<not> fq_active (uq_quotas st ! fi_session item)"
| "fate_ok st (item, Discarded) \<longleftrightarrow> 0 < uq_downgrades st \<or> uq_disconnected st"

definition account_inv :: "nat \<Rightarrow> nat \<Rightarrow> nat \<Rightarrow> UpstreamState \<Rightarrow> bool" where
  "account_inv capacity max_sessions quota st \<longleftrightarrow>
     accounted quota (uq_quotas st) (permits st)
     \<and> (\<forall>item \<in> set (live_items st). fi_session item < length (uq_quotas st))
     \<and> uq_capacity st = capacity \<and> length (uq_queue st) \<le> capacity
     \<and> length (filter id (actives (uq_quotas st))) \<le> max_sessions"

definition log_inv :: "UpstreamState \<Rightarrow> bool" where
  "log_inv st \<longleftrightarrow>
     uq_sent st = map fst (uq_done st) @ in_hand st @ uq_queue st
     \<and> pc_ok (uq_pc st) st
     \<and> list_all (fate_ok st) (uq_done st)
     \<and> items_of (uq_stream st) = written_on (uq_connection st) (uq_done st)"

lemma permits_live: "permits st i = count_list (map fi_session (live_items st)) i"
  by (simp add: permits_def live_items_def)

text \<open>A step that keeps the items that hold permits, up to their order.\<close>

lemma account_move:
  assumes "account_inv capacity max_sessions quota st"
    and "mset (live_items st') = mset (live_items st)"
    and "uq_quotas st' = uq_quotas st" "uq_capacity st' = uq_capacity st" "length (uq_queue st') \<le> capacity"
  shows "account_inv capacity max_sessions quota st'"
proof -
  have "count_list (map fi_session (live_items st')) i = count_list (map fi_session (live_items st)) i" for i
    using assms(2) by (metis count_mset mset_map)
  moreover have "set (live_items st') = set (live_items st)" using assms(2) by (rule mset_eq_setD)
  ultimately show ?thesis
    using assms by (auto simp: account_inv_def permits_live intro: accounted_cong)
qed

text \<open>A step that gives back one permit.\<close>

lemma account_drop:
  assumes "account_inv capacity max_sessions quota st"
    and "mset (live_items st) = add_mset item (mset (live_items st'))"
    and "uq_quotas st' = (uq_quotas st)[fi_session item := permit_drop (uq_quotas st ! fi_session item)]"
    and "uq_capacity st' = uq_capacity st" "length (uq_queue st') \<le> capacity"
  shows "account_inv capacity max_sessions quota st'"
proof -
  have "mset (map fi_session (live_items st)) = add_mset (fi_session item) (mset (map fi_session (live_items st')))"
    using assms(2) by simp
  then have "permits st i = permits st' i + (if i = fi_session item then 1 else 0)" for i
    unfolding permits_live count_mset [symmetric] by simp
  moreover have "set (live_items st) = insert item (set (live_items st'))"
    using assms(2) by (metis set_mset_add_mset_insert set_mset_mset)
  ultimately show ?thesis
    using assms by (auto simp: account_inv_def intro: accounted_drop)
qed


section \<open>Every step keeps the invariant\<close>

lemma send_reserve_account:
  assumes inv: "account_inv capacity max_sessions quota st" and i: "i < length (uq_quotas st)"
    and step: "send_reserve i bs st = (st', res)"
  shows "account_inv capacity max_sessions quota st'"
proof (cases "try_reserve (uq_quotas st ! i)")
  case (Pair q r)
  show ?thesis
  proof (cases r)
    case (Inl e)
    with Pair have "q = uq_quotas st ! i" by (auto dest: try_reserve_fails)
    with Pair Inl step have "st' = st" by (auto simp: send_reserve_def)
    with inv show ?thesis by simp
  next
    case (Inr u)
    let ?item = "\<lparr>fi_bytes = bs, fi_session = i\<rparr>"
    from Pair Inr step have st': "st' = st\<lparr>uq_quotas := (uq_quotas st)[i := q], uq_sending := ?item # uq_sending st\<rparr>"
      by (simp add: send_reserve_def Let_def)
    have live: "live_items st' = ?item # live_items st" by (simp add: st' live_items_def in_hand_def)
    have "accounted quota (uq_quotas st') (permits st')"
      using inv i Pair Inr live by (auto simp: st' account_inv_def permits_live intro!: accounted_reserve)
    moreover have "actives (uq_quotas st') = actives (uq_quotas st)"
      using i try_reserve_active [OF Pair] by (simp add: st' actives_def map_update list_update_same_conv)
    ultimately show ?thesis using inv i live by (simp add: account_inv_def) (simp add: st')
  qed
qed

text \<open>What a fate refers to only grows: sessions stay closed, connections are counted up.\<close>

definition log_le :: "UpstreamState \<Rightarrow> UpstreamState \<Rightarrow> bool" where
  "log_le st st' \<longleftrightarrow>
     length (uq_quotas st) \<le> length (uq_quotas st')
     \<and> (\<forall>i < length (uq_quotas st). fq_active (uq_quotas st' ! i) \<longrightarrow> fq_active (uq_quotas st ! i))
     \<and> uq_connection st \<le> uq_connection st' \<and> uq_downgrades st \<le> uq_downgrades st'
     \<and> (uq_disconnected st \<longrightarrow> uq_disconnected st')"

lemma fate_ok_mono: "fate_ok st d \<Longrightarrow> log_le st st' \<Longrightarrow> fate_ok st' d"
  by (cases "(st, d)" rule: fate_ok.cases) (auto simp: log_le_def)

lemma fates_mono: "list_all (fate_ok st) ds \<Longrightarrow> log_le st st' \<Longrightarrow> list_all (fate_ok st') ds"
  by (auto simp: list_all_iff intro: fate_ok_mono)

lemma log_le_actives:
  "actives (uq_quotas st') = actives (uq_quotas st) \<Longrightarrow> uq_connection st \<le> uq_connection st' \<Longrightarrow>
   uq_downgrades st \<le> uq_downgrades st' \<Longrightarrow> (uq_disconnected st \<longrightarrow> uq_disconnected st') \<Longrightarrow> log_le st st'"
  using actives_length [of "uq_quotas st'" "uq_quotas st"] actives_nth [of "uq_quotas st'" "uq_quotas st"]
  by (auto simp: log_le_def)

text \<open>A step of a session thread touches none of what the writer has logged.\<close>

lemma log_session:
  assumes "log_inv st" and "log_le st st'" and "uq_sent st' = map fst (uq_done st) @ in_hand st @ uq_queue st'"
    and "uq_pc st' = uq_pc st" "uq_pending st' = uq_pending st" "uq_done st' = uq_done st"
    and "uq_stream st' = uq_stream st" "uq_connection st' = uq_connection st"
    and "uq_disconnected st' = uq_disconnected st" "uq_downgrades st' = uq_downgrades st"
    and "uq_disconnected st \<Longrightarrow> uq_queue st' = uq_queue st"
  shows "log_inv st'"
proof -
  have "pc_ok (uq_pc st') st'" using assms by (cases "uq_pc st") (auto simp: log_inv_def)
  moreover have "in_hand st' = in_hand st" using assms by (simp add: in_hand_def)
  ultimately show ?thesis using assms fates_mono [OF _ assms(2)] by (simp add: log_inv_def)
qed

lemma send_reserve_log:
  assumes "log_inv st" and "i < length (uq_quotas st)" and "send_reserve i bs st = (st', res)"
  shows "log_inv st'"
proof -
  have actives: "actives (uq_quotas st') = actives (uq_quotas st)" and same: 
    "uq_sent st' = uq_sent st" "uq_done st' = uq_done st" "uq_queue st' = uq_queue st" "uq_pc st' = uq_pc st"
    "uq_pending st' = uq_pending st" "uq_disconnected st' = uq_disconnected st" "uq_stream st' = uq_stream st"
    "uq_connection st' = uq_connection st" "uq_downgrades st' = uq_downgrades st"
    using assms(2,3) by (auto simp: send_reserve_def Let_def actives_def map_update list_update_same_conv
        dest: try_reserve_active try_reserve_fails split: prod.splits sum.splits)
  show ?thesis
    using assms(1) same by (intro log_session [OF assms(1) log_le_actives [OF actives]]) (auto simp: log_inv_def)
qed

lemma send_enqueue_account:
  assumes "account_inv capacity max_sessions quota st" and item: "item \<in> set (uq_sending st)"
    and step: "send_enqueue item st = (st', res)"
  shows "account_inv capacity max_sessions quota st'"
proof (cases "\<not> uq_disconnected st \<and> length (uq_queue st) < uq_capacity st")
  case True
  with step have "st' = st\<lparr>uq_sending := remove1 item (uq_sending st), uq_queue := uq_queue st @ [item],
      uq_sent := uq_sent st @ [item]\<rparr>" by (simp add: send_enqueue_def Let_def)
  with True item assms(1) show ?thesis
    by (intro account_move [OF assms(1)]) (auto simp: live_items_def in_hand_def account_inv_def)
next
  case False
  with step have "st' = drop_item item (st\<lparr>uq_sending := remove1 item (uq_sending st)\<rparr>)"
    by (auto simp: send_enqueue_def Let_def split: if_splits)
  with item assms(1) show ?thesis
    by (intro account_drop [OF assms(1), of item]) (auto simp: live_items_def in_hand_def account_inv_def drop_item_def)
qed

lemma send_enqueue_log:
  assumes "log_inv st" and "send_enqueue item st = (st', res)"
  shows "log_inv st'"
proof -
  have "actives (uq_quotas st') = actives (uq_quotas st)" "uq_connection st' = uq_connection st"
    "uq_downgrades st' = uq_downgrades st" "uq_disconnected st' = uq_disconnected st"
    using assms(2) by (auto simp: send_enqueue_def Let_def drop_item_def split: if_splits)
  then have "log_le st st'" by (intro log_le_actives) simp_all
  then show ?thesis
    using assms by (intro log_session [OF assms(1)])
      (auto simp: log_inv_def send_enqueue_def Let_def drop_item_def split: if_splits)
qed

lemma session_open_inv:
  "account_inv capacity max_sessions quota st \<Longrightarrow> open_sessions st < max_sessions
    \<Longrightarrow> account_inv capacity max_sessions quota (session_open quota st)"
proof -
  assume inv: "account_inv capacity max_sessions quota st" and room: "open_sessions st < max_sessions"
  let ?st = "session_open quota st"
  have live: "live_items ?st = live_items st" by (simp add: session_open_def live_items_def in_hand_def)
  then have permits: "permits ?st = permits st" by (simp add: fun_eq_iff permits_live)
  have qs: "uq_quotas ?st = uq_quotas st @ [quota_new quota]" by (simp add: session_open_def)
  have "permits st (length (uq_quotas st)) = 0"
    using inv by (auto simp: account_inv_def permits_live count_list_0_iff)
  then have "accounted quota (uq_quotas ?st) (permits ?st)"
    using inv unfolding permits qs by (auto simp: account_inv_def accounted_def nth_append quota_new_def less_Suc_eq)
  moreover have "length (filter id (actives (uq_quotas ?st))) \<le> max_sessions"
    using room by (simp add: session_open_def actives_def quota_new_def open_sessions_def filter_map comp_def)
  ultimately show ?thesis
    using inv unfolding account_inv_def live qs by (auto simp: session_open_def intro: less_SucI)
qed

lemma session_close_inv:
  "account_inv capacity max_sessions quota st \<Longrightarrow> account_inv capacity max_sessions quota (session_close i st)"
proof -
  assume inv: "account_inv capacity max_sessions quota st"
  let ?st = "session_close i st"
  have live: "live_items ?st = live_items st" by (simp add: session_close_def live_items_def in_hand_def)
  then have permits: "permits ?st = permits st" by (simp add: fun_eq_iff permits_live)
  have "length (filter id (bs[i := False])) \<le> length (filter id bs)" for bs
    by (induction bs arbitrary: i) (auto split: nat.splits intro: le_SucI)
  moreover have "actives (uq_quotas ?st) = (actives (uq_quotas st))[i := False]"
    by (simp add: actives_def session_close_def map_update quota_close_def)
  ultimately have "length (filter id (actives (uq_quotas ?st))) \<le> max_sessions"
    using inv by (metis account_inv_def order_trans)
  moreover have "accounted quota (uq_quotas ?st) (permits ?st)"
    using inv accounted_close [of quota "uq_quotas st" "permits st" i] unfolding permits
    by (simp add: account_inv_def session_close_def)
  ultimately show ?thesis using inv unfolding account_inv_def live by (simp add: session_close_def)
qed


lemma session_log:
  "log_inv st \<Longrightarrow> log_inv (session_open limit st)"
  "log_inv st \<Longrightarrow> log_inv (session_close i st)"
proof -
  have "fq_active ((qs[i := quota_close (qs ! i)]) ! j) \<Longrightarrow> fq_active (qs ! j)" for qs j
    by (cases "i < length qs"; cases "i = j") (simp_all add: quota_close_def list_update_beyond)
  then show "log_inv (session_close i st)" if "log_inv st"
    using that by (intro log_session [OF that]) (simp_all add: log_inv_def log_le_def session_close_def)
  show "log_inv (session_open limit st)" if "log_inv st"
    using that by (intro log_session [OF that]) (simp_all add: log_inv_def log_le_def session_open_def nth_append)
qed

lemma worker_return_inv:
  assumes acc: "account_inv capacity max_sessions quota st" and log: "log_inv st"
    and top: "\<And>item. uq_pc st \<noteq> HaveItem item"
  shows "account_inv capacity max_sessions quota (worker_return st)" and "log_inv (worker_return st)"
proof -
  define left where "left = (case uq_pending st of None \<Rightarrow> [] | Some item \<Rightarrow> [item]) @ uq_queue st"
  define st1 where "st1 = fold (\<lambda>item. settle item Discarded) left st"
  let ?st = "worker_return st" and ?held = "count_list (map fi_session (uq_sending st))"
  have hand: "in_hand st @ uq_queue st = left"
    using top by (auto simp: in_hand_def left_def split: WorkerPc.splits option.splits)
  then have live: "live_items st = uq_sending st @ left" by (simp add: live_items_def)
  have st': "?st = st1\<lparr>uq_pending := None, uq_queue := [], uq_disconnected := True, uq_gateway_id := 0,
      uq_workload_cgroup_observations := False, uq_pc := Returned\<rparr>"
    by (simp add: worker_return_def st1_def left_def Let_def)
  have "\<forall>item \<in> set left. fi_session item < length (uq_quotas st)" using acc live by (auto simp: account_inv_def)
  moreover have "accounted quota (uq_quotas st) (\<lambda>i. ?held i + count_list (map fi_session left) i)"
    using acc by (auto simp: account_inv_def permits_live live intro: accounted_cong)
  ultimately have all: "accounted quota (uq_quotas st1) ?held" "actives (uq_quotas st1) = actives (uq_quotas st)"
    "uq_done st1 = uq_done st @ map (\<lambda>item. (item, Discarded)) left" "uq_sending st1 = uq_sending st"
    "uq_capacity st1 = uq_capacity st" "uq_sent st1 = uq_sent st" "uq_connection st1 = uq_connection st"
    "uq_stream st1 = uq_stream st" "uq_downgrades st1 = uq_downgrades st"
    using settle_all [of left st quota ?held Discarded] by (simp_all add: st1_def Let_def)
  have live': "live_items ?st = uq_sending st" by (simp add: st' live_items_def in_hand_def all)
  then have "permits ?st = ?held" by (simp add: fun_eq_iff permits_live)
  then show "account_inv capacity max_sessions quota ?st"
    using acc live all live' actives_length [OF all(2)] by (simp add: account_inv_def) (simp add: st')
  have "log_le st ?st" by (rule log_le_actives) (simp_all add: st' all)
  then have "list_all (fate_ok ?st) (uq_done st)" using log fates_mono by (auto simp: log_inv_def)
  moreover have "list_all (fate_ok ?st) (map (\<lambda>item. (item, Discarded)) left)"
    by (simp add: list_all_iff st')
  ultimately show "log_inv ?st"
    using log hand by (simp add: log_inv_def st' all in_hand_def comp_def)
qed


text \<open>The steps of the writer: an item is settled, or items only move.\<close>

definition writer_frame :: "UpstreamState \<Rightarrow> UpstreamState \<Rightarrow> bool" where
  "writer_frame st mid \<longleftrightarrow>
     uq_quotas mid = uq_quotas st \<and> uq_sending mid = uq_sending st \<and> uq_capacity mid = uq_capacity st
     \<and> uq_sent mid = uq_sent st \<and> uq_done mid = uq_done st \<and> uq_connection st \<le> uq_connection mid
     \<and> uq_downgrades st \<le> uq_downgrades mid \<and> uq_disconnected mid = uq_disconnected st
     \<and> length (uq_queue mid) \<le> length (uq_queue st) \<and> pc_ok (uq_pc mid) mid"

lemma settle_inv:
  assumes inv: "account_inv capacity max_sessions quota st" "log_inv st"
    and frame: "writer_frame st mid"
    and live: "in_hand st @ uq_queue st = item # in_hand mid @ uq_queue mid"
    and fate: "fate_ok (settle item f mid) (item, f)"
    and stream: "items_of (uq_stream mid) = written_on (uq_connection mid) (uq_done st @ [(item, f)])"
  shows "account_inv capacity max_sessions quota (settle item f mid) \<and> log_inv (settle item f mid)"
proof
  let ?st = "settle item f mid"
  have hand: "in_hand ?st = in_hand mid" by (simp add: in_hand_def)
  show "account_inv capacity max_sessions quota ?st"
    using inv frame live
    by (intro account_drop [OF inv(1), of item]) (auto simp: live_items_def hand writer_frame_def account_inv_def)
  have "log_le st ?st" using frame by (intro log_le_actives) (simp_all add: writer_frame_def)
  then have "list_all (fate_ok ?st) (uq_done st)" using inv(2) fates_mono by (auto simp: log_inv_def)
  moreover have "pc_ok (uq_pc ?st) ?st" using frame by (cases "uq_pc mid") (auto simp: writer_frame_def)
  ultimately show "log_inv ?st" using inv frame hand live fate stream by (simp add: log_inv_def writer_frame_def)
qed

lemma move_inv:
  assumes inv: "account_inv capacity max_sessions quota st" "log_inv st"
    and frame: "writer_frame st mid"
    and live: "in_hand st @ uq_queue st = in_hand mid @ uq_queue mid"
    and stream: "items_of (uq_stream mid) = written_on (uq_connection mid) (uq_done st)"
  shows "account_inv capacity max_sessions quota mid \<and> log_inv mid"
proof
  show "account_inv capacity max_sessions quota mid"
    using inv frame live
    by (intro account_move [OF inv(1)]) (auto simp: live_items_def writer_frame_def account_inv_def)
  have "log_le st mid" using frame by (intro log_le_actives) (simp_all add: writer_frame_def)
  then have "list_all (fate_ok mid) (uq_done st)" using inv(2) fates_mono by (auto simp: log_inv_def)
  then show "log_inv mid" using inv frame live stream by (simp add: log_inv_def writer_frame_def)
qed

lemma written_on_fresh: "list_all (fate_ok st) ds \<Longrightarrow> uq_connection st < n \<Longrightarrow> written_on n ds = []"
  by (induction ds) (auto split: Fate.splits)

lemma reconnect_inv:
  assumes inv: "account_inv capacity max_sessions quota st" "log_inv st" and pc: "uq_pc st = Reconnecting previously"
  shows "account_inv capacity max_sessions quota (worker_step inp (uq_pc st) st)
    \<and> log_inv (worker_step inp (uq_pc st) st)"
proof (cases "wi_reconnected inp")
  case None
  with pc show ?thesis using worker_return_inv [OF inv] by simp
next
  case (Some reply)
  have live: "\<not> uq_disconnected st" using inv(2) pc by (simp add: log_inv_def)
  have fresh: "written_on (uq_connection st + 1) (uq_done st) = []"
    using inv(2) by (intro written_on_fresh [of st]) (auto simp: log_inv_def)
  show ?thesis
  proof (cases "previously \<and> \<not> gw_workload_cgroup_observations reply")
    case False
    with Some pc fresh live show ?thesis
      by (simp, intro move_inv [OF inv]) (auto simp: writer_frame_def in_hand_def)
  next
    case lost: True
    show ?thesis
    proof (cases "uq_pending st")
      case None
      with Some pc lost fresh live show ?thesis
        by (simp, intro move_inv [OF inv]) (auto simp: writer_frame_def in_hand_def)
    next
      case (Some item)
      with \<open>wi_reconnected inp = Some reply\<close> pc lost fresh live show ?thesis
        by (simp, intro settle_inv [OF inv]) (auto simp: writer_frame_def in_hand_def)
    qed
  qed
qed

lemma worker_step_inv:
  assumes inv: "account_inv capacity max_sessions quota st" "log_inv st"
  shows "account_inv capacity max_sessions quota (worker_step inp (uq_pc st) st)
    \<and> log_inv (worker_step inp (uq_pc st) st)"
proof (cases "uq_pc st")
  case LoopTop
  show ?thesis
  proof (cases "wi_stop inp")
    case True
    with LoopTop show ?thesis using worker_return_inv [OF inv] by simp
  next
    case False
    with LoopTop inv show ?thesis
      by (intro move_inv [OF inv])
        (auto simp: writer_frame_def in_hand_def log_inv_def split: option.splits list.splits)
  qed
next
  case (HaveItem item)
  have known: "fi_session item < length (uq_quotas st)"
    using inv(1) HaveItem by (simp add: account_inv_def live_items_def in_hand_def)
  show ?thesis
  proof (cases "fq_active (uq_quotas st ! fi_session item)")
    case False
    with HaveItem inv(2) known show ?thesis
      by (simp, intro settle_inv [OF inv])
        (auto simp: writer_frame_def in_hand_def log_inv_def permit_drop_def)
  next
    case True
    with HaveItem inv(2) show ?thesis
      by (cases "wi_write_ok inp"; simp)
        (intro settle_inv [OF inv] move_inv [OF inv];
          auto simp: writer_frame_def in_hand_def log_inv_def)+
  qed
next
  case (Reconnecting previously)
  with inv show ?thesis by (rule reconnect_inv)
next
  case (Draining reply)
  show ?thesis
  proof (cases "uq_queue st")
    case Nil
    with Draining inv show ?thesis
      by (intro move_inv [OF inv]) (auto simp: writer_frame_def in_hand_def log_inv_def)
  next
    case (Cons item rest)
    with Draining inv show ?thesis
      by (simp, intro settle_inv [OF inv]) (auto simp: writer_frame_def in_hand_def log_inv_def)
  qed
next
  case Returned
  with inv show ?thesis by simp
qed (use inv in \<open>(intro move_inv [OF inv]; auto simp: writer_frame_def in_hand_def log_inv_def)+\<close>)

interpretation uplink: guarded_system "\<lambda>st. \<exists>reply. st = link_start capacity reply"
    "link_step max_sessions quota" "\<lambda>st. account_inv capacity max_sessions quota st \<and> log_inv st"
  for capacity max_sessions quota
proof
  show "account_inv capacity max_sessions quota t \<and> log_inv t"
    if "account_inv capacity max_sessions quota s \<and> log_inv s" "link_step max_sessions quota s t" for s t
    using that(2) that(1)
    by cases (auto intro: session_open_inv session_close_inv session_log send_reserve_account send_reserve_log
        send_enqueue_account send_enqueue_log simp: worker_step_inv)
qed (auto simp: account_inv_def log_inv_def link_start_def accounted_def live_items_def in_hand_def actives_def)

end
