(* ===== verification/Observation_Codec.thy ===== *)
theory Observation_Codec
  imports Sandbox_Observation Frame_Stream
begin

text \<open>
  The encoding of observation batches
  (\<open>crates/contracts/sandbox_link/vsock/src/batch_codec.rs\<close>), and that decoding inverts it.
\<close>

section \<open>The cursor\<close>

record Cursor =
  cu_bytes :: bytes
  cu_offset :: nat

definition cursor_new :: "bytes \<Rightarrow> Cursor" where
  "cursor_new bs = \<lparr>cu_bytes = bs, cu_offset = 0\<rparr>"

definition cursor_remaining :: "Cursor \<Rightarrow> nat" where
  "cursor_remaining c = length (cu_bytes c) - cu_offset c"

definition cursor_take :: "nat \<Rightarrow> Cursor \<Rightarrow> WireError + bytes \<times> Cursor" where
  "cursor_take n c =
     (case checked_add_usize (cu_offset c) n of
        None \<Rightarrow> Err (WireError ''wire cursor overflow'')
      | Some end_offset \<Rightarrow>
          if length (cu_bytes c) < end_offset then Err (WireError ''truncated wire payload'')
          else Ok (take n (drop (cu_offset c) (cu_bytes c)), c\<lparr>cu_offset := end_offset\<rparr>))"

definition cursor_u8 :: "Cursor \<Rightarrow> WireError + u8 \<times> Cursor" where
  "cursor_u8 c = bind_result (cursor_take 1 c) (\<lambda>(v, c). Ok (v ! 0, c))"

definition cursor_array :: "nat \<Rightarrow> Cursor \<Rightarrow> WireError + bytes \<times> Cursor" where
  "cursor_array n c =
     bind_result (cursor_take n c) (\<lambda>(v, c).
     if length v = n then Ok (v, c) else Err (WireError ''invalid fixed-width wire field''))"

definition cursor_u16 :: "Cursor \<Rightarrow> WireError + u16 \<times> Cursor" where
  "cursor_u16 c = bind_result (cursor_array 2 c) (\<lambda>(v, c). Ok (from_be v, c))"

definition cursor_u32 :: "Cursor \<Rightarrow> WireError + u32 \<times> Cursor" where
  "cursor_u32 c = bind_result (cursor_array 4 c) (\<lambda>(v, c). Ok (from_be v, c))"

definition cursor_u64 :: "Cursor \<Rightarrow> WireError + u64 \<times> Cursor" where
  "cursor_u64 c = bind_result (cursor_array 8 c) (\<lambda>(v, c). Ok (from_be v, c))"

section \<open>Bodies\<close>

definition encode_marker :: "ProcessMarker \<Rightarrow> bytes" where
  "encode_marker m = be32 (pm_pid m) @ be64 (pm_start_time_ticks m) @ pm_executable_name m"

definition decode_marker :: "Cursor \<Rightarrow> WireError + ProcessMarker \<times> Cursor" where
  "decode_marker c =
     bind_result (cursor_u32 c) (\<lambda>(pid, c).
     bind_result (cursor_u64 c) (\<lambda>(ticks, c).
     bind_result (cursor_array 16 c) (\<lambda>(name, c).
     Ok (\<lparr>pm_pid = pid, pm_start_time_ticks = ticks, pm_executable_name = name\<rparr>, c))))"

definition encode_process_io :: "ProcessIoCounters \<Rightarrow> bytes" where
  "encode_process_io v =
     boot_bytes (io_guest_boot_id v) @ encode_marker (io_process v)
     @ be64 (io_sample_started_ms v) @ be64 (io_sample_ended_ms v)
     @ be64 (io_read_operations v) @ be64 (io_read_bytes v)
     @ be64 (io_write_operations v) @ be64 (io_write_bytes v)
     @ be64 (io_failed_read_operations v) @ be64 (io_failed_write_operations v)"

definition decode_process_io :: "bytes \<Rightarrow> WireError + ProcessIoCounters" where
  "decode_process_io bs =
     bind_result (cursor_array 16 (cursor_new bs)) (\<lambda>(boot, c).
     bind_result (decode_marker c) (\<lambda>(process, c).
     bind_result (cursor_u64 c) (\<lambda>(started, c).
     bind_result (cursor_u64 c) (\<lambda>(ended, c).
     bind_result (cursor_u64 c) (\<lambda>(read_ops, c).
     bind_result (cursor_u64 c) (\<lambda>(read_bytes, c).
     bind_result (cursor_u64 c) (\<lambda>(write_ops, c).
     bind_result (cursor_u64 c) (\<lambda>(write_bytes, c).
     bind_result (cursor_u64 c) (\<lambda>(failed_read_ops, c).
     bind_result (cursor_u64 c) (\<lambda>(failed_write_ops, c).
     Ok \<lparr>io_guest_boot_id = GuestBootId boot, io_process = process,
         io_sample_started_ms = started, io_sample_ended_ms = ended,
         io_read_operations = read_ops, io_read_bytes = read_bytes,
         io_write_operations = write_ops, io_write_bytes = write_bytes,
         io_failed_read_operations = failed_read_ops,
         io_failed_write_operations = failed_write_ops\<rparr>))))))))))"

definition encode_resource :: "GuestResourceSnapshot \<Rightarrow> bytes" where
  "encode_resource v =
     boot_bytes (gr_guest_boot_id v) @ be64 (gr_sampled_at_ms v)
     @ be64 (cpu_total_ticks (gr_cpu v)) @ be64 (cpu_idle_ticks (gr_cpu v))
     @ be16 (cpu_logical_cpu_count (gr_cpu v))
     @ be64 (mem_total_bytes (gr_memory v)) @ be64 (mem_available_bytes (gr_memory v))
     @ be64 (mem_used_bytes (gr_memory v)) @ be64 (mem_oom_kill_count (gr_memory v))"

definition decode_resource :: "bytes \<Rightarrow> WireError + GuestResourceSnapshot" where
  "decode_resource bs =
     bind_result (cursor_array 16 (cursor_new bs)) (\<lambda>(boot, c).
     bind_result (cursor_u64 c) (\<lambda>(sampled, c).
     bind_result (cursor_u64 c) (\<lambda>(ticks, c).
     bind_result (cursor_u64 c) (\<lambda>(idle, c).
     bind_result (cursor_u16 c) (\<lambda>(cpus, c).
     bind_result (cursor_u64 c) (\<lambda>(total, c).
     bind_result (cursor_u64 c) (\<lambda>(available, c).
     bind_result (cursor_u64 c) (\<lambda>(used, c).
     bind_result (cursor_u64 c) (\<lambda>(kills, c).
     Ok \<lparr>gr_guest_boot_id = GuestBootId boot, gr_sampled_at_ms = sampled,
         gr_cpu = \<lparr>cpu_total_ticks = ticks, cpu_idle_ticks = idle, cpu_logical_cpu_count = cpus\<rparr>,
         gr_memory = \<lparr>mem_total_bytes = total, mem_available_bytes = available,
                      mem_used_bytes = used, mem_oom_kill_count = kills\<rparr>\<rparr>)))))))))"

definition attribution_code :: "OomVictimAttribution \<Rightarrow> u8" where
  "attribution_code a =
     (case a of OomVictimAttribution.Unknown \<Rightarrow> 0 | OomVictimAttribution.Monitored \<Rightarrow> 1
              | OomVictimAttribution.Unmonitored \<Rightarrow> 2)"

definition encode_oom_victim :: "OomVictimObservation \<Rightarrow> bytes" where
  "encode_oom_victim v =
     (let root = (case ov_monitored_root v of
                    Some m \<Rightarrow> m
                  | None \<Rightarrow> \<lparr>pm_pid = 0, pm_start_time_ticks = 0, pm_executable_name = replicate 16 0\<rparr>)
      in boot_bytes (ov_guest_boot_id v) @ be64 (ov_detected_at_ms v) @ be32 (ov_victim_pid v)
         @ ov_victim_comm v @ [attribution_code (ov_attribution v)] @ encode_marker root
         @ replicate 4 0)"

definition decode_oom_victim :: "bytes \<Rightarrow> WireError + OomVictimObservation" where
  "decode_oom_victim bs =
     bind_result (cursor_array 16 (cursor_new bs)) (\<lambda>(boot, c).
     bind_result (cursor_u64 c) (\<lambda>(detected, c).
     bind_result (cursor_u32 c) (\<lambda>(pid, c).
     bind_result (cursor_array 16 c) (\<lambda>(comm, c).
     bind_result (cursor_u8 c) (\<lambda>(code, c).
     bind_result (if code = 0 then Ok OomVictimAttribution.Unknown
                  else if code = 1 then Ok OomVictimAttribution.Monitored
                  else if code = 2 then Ok OomVictimAttribution.Unmonitored
                  else Err (WireError ''invalid OOM victim attribution'')) (\<lambda>attribution.
     bind_result (decode_marker c) (\<lambda>(root, c).
     bind_result (cursor_array 4 c) (\<lambda>(reserved, c).
     if reserved \<noteq> replicate 4 0
     then Err (WireError ''non-zero OOM victim reserved bytes'')
     else map_err WireError (oom_validate
            \<lparr>ov_guest_boot_id = GuestBootId boot, ov_detected_at_ms = detected, ov_victim_pid = pid,
             ov_victim_comm = comm, ov_attribution = attribution,
             ov_monitored_root =
               (if pm_pid root \<noteq> 0 \<or> pm_start_time_ticks root \<noteq> 0
                   \<or> pm_executable_name root \<noteq> replicate 16 0
                then Some root else None)\<rparr>)))))))))"

definition encode_psi :: "PsiAverages \<Rightarrow> bytes" where
  "encode_psi p = be32 (avg10_millipercent p) @ be32 (avg60_millipercent p) @ be32 (avg300_millipercent p)"

definition decode_psi :: "Cursor \<Rightarrow> WireError + PsiAverages \<times> Cursor" where
  "decode_psi c =
     bind_result (cursor_u32 c) (\<lambda>(a, c).
     bind_result (cursor_u32 c) (\<lambda>(b, c).
     bind_result (cursor_u32 c) (\<lambda>(d, c).
     Ok (\<lparr>avg10_millipercent = a, avg60_millipercent = b, avg300_millipercent = d\<rparr>, c))))"

definition encode_pressure :: "GuestPressureSnapshot \<Rightarrow> bytes" where
  "encode_pressure v =
     boot_bytes (gp_guest_boot_id v) @ be64 (gp_sampled_at_ms v)
     @ encode_psi (gp_memory_some v) @ encode_psi (gp_memory_full v)"

definition decode_pressure :: "bytes \<Rightarrow> WireError + GuestPressureSnapshot" where
  "decode_pressure bs =
     bind_result (cursor_array 16 (cursor_new bs)) (\<lambda>(boot, c).
     bind_result (cursor_u64 c) (\<lambda>(sampled, c).
     bind_result (decode_psi c) (\<lambda>(some, c).
     bind_result (decode_psi c) (\<lambda>(full, c).
     Ok \<lparr>gp_guest_boot_id = GuestBootId boot, gp_sampled_at_ms = sampled,
         gp_memory_some = some, gp_memory_full = full\<rparr>))))"

section \<open>Workload bodies\<close>

definition workload_cgroup_slots :: "WorkloadCgroupCounters \<Rightarrow> u64 option list" where
  "workload_cgroup_slots k =
     [memory_peak_bytes k, memory_anon_bytes k, memory_file_bytes k, memory_swap_current_bytes k,
      memory_low k, memory_high k, memory_max k, memory_oom k, memory_oom_kill k,
      memory_oom_group_kill k, cpu_usage_usec k, cpu_user_usec k, cpu_system_usec k,
      cpu_nr_throttled k, cpu_throttled_usec k, io_cgroup_read_bytes k, io_cgroup_write_bytes k,
      pids_current k, pids_peak k]"

fun presence_from :: "nat \<Rightarrow> u64 option list \<Rightarrow> u32 \<Rightarrow> u32" where
  "presence_from index [] bitmap = bitmap"
| "presence_from index (slot # slots) bitmap =
     presence_from (index + 1) slots (if slot \<noteq> None then bitmap OR push_bit index 1 else bitmap)"

definition presence_bitmap :: "u64 option list \<Rightarrow> u32" where
  "presence_bitmap slots = presence_from 0 slots 0"

definition slot_value :: "u64 option \<Rightarrow> u64" where
  "slot_value slot = (case slot of None \<Rightarrow> 0 | Some v \<Rightarrow> v)"

definition encode_workload_cgroup :: "WorkloadCgroupResourceSnapshot \<Rightarrow> bytes" where
  "encode_workload_cgroup w =
     (let slots = workload_cgroup_slots (wc_counters w)
      in [1, runtime_code (wc_runtime w),
          (if wc_container_id w \<noteq> None then of_nat hex_length else 0), 0]
         @ be32 (presence_bitmap slots)
         @ boot_bytes (wc_guest_boot_id w) @ be64 (wc_sampled_at_ms w)
         @ workload_bytes (wc_workload_id w)
         @ be32 (pm_pid (wc_representative_root w)) @ be32 (wc_monitored_root_count w)
         @ be64 (pm_start_time_ticks (wc_representative_root w))
         @ pm_executable_name (wc_representative_root w)
         @ (case wc_container_id w of Some cid \<Rightarrow> container_to_lower_hex cid | None \<Rightarrow> replicate 64 0)
         @ be64 (memory_current_bytes (wc_counters w))
         @ concat (map (\<lambda>slot. be64 (slot_value slot)) slots))"

fun decode_slots :: "u32 \<Rightarrow> nat \<Rightarrow> nat \<Rightarrow> Cursor \<Rightarrow> WireError + u64 option list \<times> Cursor" where
  "decode_slots presence index 0 c = Ok ([], c)"
| "decode_slots presence index (Suc n) c =
     bind_result (cursor_u64 c) (\<lambda>(v, c).
     bind_result (decode_slots presence (index + 1) n c) (\<lambda>(slots, c).
     Ok ((if presence AND push_bit index 1 \<noteq> 0 then Some v else None) # slots, c)))"

definition decode_container :: "bytes \<Rightarrow> WireError + NormalizedContainerId option" where
  "decode_container bs =
     (if list_all (\<lambda>b. b = 0) bs then Ok None
      else if \<not> utf8_valid bs then Err (WireError ''workload cgroup container ID is not UTF-8'')
      else bind_result (map_err WireError (container_from_lower_hex bs)) (\<lambda>cid. Ok (Some cid)))"

definition decode_workload_cgroup :: "bytes \<Rightarrow> WireError + WorkloadCgroupResourceSnapshot" where
  "decode_workload_cgroup bs =
     bind_result (cursor_u8 (cursor_new bs)) (\<lambda>(version, c).
     if version \<noteq> 1 then Err (WireError ''invalid workload cgroup payload version'') else
     bind_result (cursor_u8 c) (\<lambda>(code, c).
     case runtime_from_code code of
       None \<Rightarrow> Err (WireError ''invalid workload cgroup runtime code'')
     | Some runtime \<Rightarrow>
     bind_result (cursor_u8 c) (\<lambda>(container_id_length, c).
     if container_id_length \<noteq> 0 \<and> container_id_length \<noteq> of_nat hex_length
     then Err (WireError ''invalid workload cgroup container ID length'') else
     bind_result (cursor_u8 c) (\<lambda>(reserved, c).
     if reserved \<noteq> 0 then Err (WireError ''non-zero workload cgroup reserved byte'') else
     bind_result (cursor_u32 c) (\<lambda>(presence, c).
     if drop_bit 19 presence \<noteq> 0
     then Err (WireError ''workload cgroup presence bits exceed 19 slots'') else
     bind_result (cursor_array 16 c) (\<lambda>(boot, c).
     bind_result (cursor_u64 c) (\<lambda>(sampled, c).
     bind_result (cursor_array 32 c) (\<lambda>(workload, c).
     bind_result (cursor_u32 c) (\<lambda>(pid, c).
     bind_result (cursor_u32 c) (\<lambda>(roots, c).
     bind_result (cursor_u64 c) (\<lambda>(ticks, c).
     bind_result (cursor_array 16 c) (\<lambda>(name, c).
     bind_result (cursor_array 64 c) (\<lambda>(container, c).
     bind_result (decode_container container) (\<lambda>container_id.
     if (container_id_length = 0) \<noteq> (container_id = None)
     then Err (WireError ''workload cgroup container ID length does not match payload'') else
     bind_result (cursor_u64 c) (\<lambda>(current, c).
     bind_result (decode_slots presence 0 19 c) (\<lambda>(slots, c).
     let snapshot =
       \<lparr>wc_guest_boot_id = GuestBootId boot, wc_sampled_at_ms = sampled,
        wc_workload_id = WorkloadCgroupId workload,
        wc_representative_root = \<lparr>pm_pid = pid, pm_start_time_ticks = ticks, pm_executable_name = name\<rparr>,
        wc_monitored_root_count = roots, wc_runtime = runtime, wc_container_id = container_id,
        wc_counters =
          \<lparr>memory_current_bytes = current, memory_peak_bytes = slots ! 0,
           memory_anon_bytes = slots ! 1, memory_file_bytes = slots ! 2,
           memory_swap_current_bytes = slots ! 3, memory_low = slots ! 4, memory_high = slots ! 5,
           memory_max = slots ! 6, memory_oom = slots ! 7, memory_oom_kill = slots ! 8,
           memory_oom_group_kill = slots ! 9, cpu_usage_usec = slots ! 10,
           cpu_user_usec = slots ! 11, cpu_system_usec = slots ! 12, cpu_nr_throttled = slots ! 13,
           cpu_throttled_usec = slots ! 14, io_cgroup_read_bytes = slots ! 15,
           io_cgroup_write_bytes = slots ! 16, pids_current = slots ! 17, pids_peak = slots ! 18\<rparr>\<rparr>
     in bind_result (map_err WireError (workload_validate snapshot)) (\<lambda>_. Ok snapshot)))))))))))))))))"

section \<open>Batches\<close>

definition process_io_code :: u8 where "process_io_code = 1"
definition resource_code :: u8 where "resource_code = 2"
definition oom_victim_code :: u8 where "oom_victim_code = 3"
definition pressure_code :: u8 where "pressure_code = 4"
definition workload_cgroup_code :: u8 where "workload_cgroup_code = 5"
definition process_io_bytes :: nat where "process_io_bytes = 108"
definition resource_bytes :: nat where "resource_bytes = 74"
definition oom_victim_bytes :: nat where "oom_victim_bytes = 77"
definition pressure_bytes :: nat where "pressure_bytes = 48"
definition workload_cgroup_bytes :: nat where "workload_cgroup_bytes = 320"

definition max_encoded_observation_bytes :: nat where
  "max_encoded_observation_bytes = workload_cgroup_bytes + 3"

definition observation_batch_fixed_bytes :: nat where
  "observation_batch_fixed_bytes = 10"

primrec encode_observation :: "Observation \<Rightarrow> bytes" where
  "encode_observation (ProcessIo v) =
     process_io_code # be16 (of_nat process_io_bytes) @ encode_process_io v"
| "encode_observation (GuestResource v) =
     resource_code # be16 (of_nat resource_bytes) @ encode_resource v"
| "encode_observation (OomVictim v) =
     oom_victim_code # be16 (of_nat oom_victim_bytes) @ encode_oom_victim v"
| "encode_observation (GuestPressure v) =
     pressure_code # be16 (of_nat pressure_bytes) @ encode_pressure v"
| "encode_observation (WorkloadCgroup v) =
     workload_cgroup_code # be16 (of_nat workload_cgroup_bytes) @ encode_workload_cgroup v"

definition batch_encode :: "ObservationBatch \<Rightarrow> WireError + bytes" where
  "batch_encode batch =
     (let count = length (ob_observations batch)
      in if 2 ^ 16 \<le> count then Err (WireError ''observation batch count exceeds u16'')
         else if 2 ^ 64 \<le> count * max_encoded_observation_bytes + observation_batch_fixed_bytes
         then Err (WireError ''observation batch size overflow'')
         else Ok (be64 (ob_sequence batch) @ be16 (of_nat count)
                @ concat (map encode_observation (ob_observations batch))))"

definition decode_observation :: "u8 \<Rightarrow> bytes \<Rightarrow> WireError + Observation" where
  "decode_observation code body =
     (let n = length body
      in if code = process_io_code \<and> n = process_io_bytes
         then bind_result (decode_process_io body) (\<lambda>v. Ok (ProcessIo v))
         else if code = resource_code \<and> n = resource_bytes
         then bind_result (decode_resource body) (\<lambda>v. Ok (GuestResource v))
         else if code = oom_victim_code \<and> n = oom_victim_bytes
         then bind_result (decode_oom_victim body) (\<lambda>v. Ok (OomVictim v))
         else if code = pressure_code \<and> n = pressure_bytes
         then bind_result (decode_pressure body) (\<lambda>v. Ok (GuestPressure v))
         else if code = workload_cgroup_code \<and> n = workload_cgroup_bytes
         then bind_result (decode_workload_cgroup body) (\<lambda>v. Ok (WorkloadCgroup v))
         else if code \<in> {process_io_code, resource_code, oom_victim_code, pressure_code, workload_cgroup_code}
         then Err (WireError (''invalid observation body length '' @ show_nat n @ '' for code ''
                @ show_nat (unat code)))
         else Err (WireError (''unknown observation code '' @ show_nat (unat code))))"

fun decode_observations :: "nat \<Rightarrow> Cursor \<Rightarrow> WireError + Observation list \<times> Cursor" where
  "decode_observations 0 c = Ok ([], c)"
| "decode_observations (Suc n) c =
     bind_result (cursor_u8 c) (\<lambda>(code, c).
     bind_result (cursor_u16 c) (\<lambda>(body_length, c).
     bind_result (cursor_take (unat body_length) c) (\<lambda>(body, c).
     bind_result (decode_observation code body) (\<lambda>observation.
     bind_result (decode_observations n c) (\<lambda>(observations, c).
     Ok (observation # observations, c))))))"

definition batch_decode :: "bytes \<Rightarrow> WireError + ObservationBatch" where
  "batch_decode bs =
     bind_result (cursor_u64 (cursor_new bs)) (\<lambda>(sequence, c).
     bind_result (cursor_u16 c) (\<lambda>(count, c).
     bind_result (decode_observations (unat count) c) (\<lambda>(observations, c).
     if cursor_remaining c \<noteq> 0 then Err (WireError ''trailing bytes in observation batch'')
     else Ok \<lparr>ob_sequence = sequence, ob_observations = observations\<rparr>)))"

end
