(* ===== verification/Gateway_Session.thy ===== *)
theory Gateway_Session
  imports Gateway_Admission Gateway_Queue Observation_Codec
begin

text \<open>
  A sandbox session at its two ends: the protocol of the agent in the sandbox
  (\<open>crates/core/sandbox_agent_runtime/src/session/protocol.rs\<close>) and the worker of the gateway that
  serves it (\<open>crates/core/vsock_gateway_runtime/src/runtime.rs\<close>), with the loop that accepts
  connections. What the reads of a socket return is a list; after its end nothing arrives.
\<close>

section \<open>The agent\<close>

datatype SocketRead = SocketData bytes | SocketBlocked | SocketFault IoError

definition invalid_data :: "WireError \<Rightarrow> IoError" where
  "invalid_data e = IoError InvalidData (wire_message e)"

definition sb_frame_bytes :: "SbFrame \<Rightarrow> IoError + bytes" where
  "sb_frame_bytes frame = map_err invalid_data (sb_frame_encode frame)"

definition encode_batch_frame :: "ObservationBatch \<Rightarrow> IoError + bytes" where
  "encode_batch_frame batch =
     bind_result (map_err invalid_data (batch_encode batch)) (\<lambda>payload.
     bind_result (map_err invalid_data (sb_frame_new SbObservationBatch payload)) sb_frame_bytes)"

text \<open>The observations are back in the buffer of the caller, whatever happens.\<close>

definition send_batch ::
    "(bytes \<Rightarrow> IoError + unit) \<Rightarrow> u64 \<Rightarrow> Observation list \<Rightarrow> Observation list \<times> (IoError + unit)" where
  "send_batch write_all sequence observations =
     (observations,
      bind_result (encode_batch_frame \<lparr>ob_sequence = sequence, ob_observations = observations\<rparr>) write_all)"

definition heartbeat_frame_bytes :: "IoError + bytes" where
  "heartbeat_frame_bytes =
     bind_result (map_err invalid_data (sb_frame_new SbHeartbeat [])) sb_frame_bytes"

text \<open>Reading one frame waits for as long as nothing arrives: no value then.\<close>

fun protocol_read_frame ::
    "(nat \<Rightarrow> nat \<Rightarrow> nat) \<Rightarrow> FrameDecoder \<Rightarrow> SocketRead list \<Rightarrow> (IoError + SbFrame) option" where
  "protocol_read_frame grow d [] = None"
| "protocol_read_frame grow d (SocketBlocked # reads) = Some (Err (IoError WouldBlock []))"
| "protocol_read_frame grow d (SocketFault e # reads) = Some (Err e)"
| "protocol_read_frame grow d (SocketData bs # reads) =
     (if bs = [] then Some (Err (IoError UnexpectedEof ''gateway closed during SB handshake''))
      else case sb_next_frame (decoder_push grow d bs) of
        (d, Inl e) \<Rightarrow> Some (Err (invalid_data e))
      | (d, Inr (Some frame)) \<Rightarrow> Some (Ok frame)
      | (d, Inr None) \<Rightarrow> protocol_read_frame grow d reads)"

definition handshake ::
    "(nat \<Rightarrow> nat \<Rightarrow> nat) \<Rightarrow> (bytes \<Rightarrow> IoError + unit) \<Rightarrow> SocketRead list \<Rightarrow> (IoError + SbWelcome) option" where
  "handshake grow write_all reads =
     (case bind_result (map_err invalid_data (sb_frame_new SbHello []))
             (\<lambda>hello. bind_result (sb_frame_bytes hello) write_all) of
        Inl e \<Rightarrow> Some (Err e)
      | Inr _ \<Rightarrow>
          (case protocol_read_frame grow (decoder_with_capacity 1024) reads of
             None \<Rightarrow> None
           | Some (Inl e) \<Rightarrow> Some (Err e)
           | Some (Inr frame) \<Rightarrow>
               Some (if sf_code frame \<noteq> SbWelcome
                     then Err (IoError InvalidData ''gateway did not return SbWelcome'')
                     else map_err invalid_data (decode_sb_welcome frame))))"

section \<open>The gateway's worker\<close>

text \<open>
  The configuration without the addresses; durations in nanoseconds. The outcome of validating
  the listener's part is an argument.
\<close>

record GatewayConfig =
  gl_max_sb_connections :: nat
  gl_per_sb_forward_quota :: nat
  gl_outbound_queue_capacity :: nat
  gl_upstream_heartbeat_interval :: nat
  gl_sb_peer_idle_timeout :: nat
  gl_io_timeout :: nat
  gl_reconnect_interval :: nat
  gl_accept_poll_interval :: nat
  gl_connection_thread_stack_bytes :: nat

fun first_zero :: "(string \<times> nat) list \<Rightarrow> string option" where
  "first_zero [] = None"
| "first_zero ((name, v) # rest) = (if v = 0 then Some name else first_zero rest)"

definition config_validate :: "IoError + unit \<Rightarrow> GatewayConfig \<Rightarrow> IoError + unit" where
  "config_validate listener c =
     bind_result listener (\<lambda>_.
     if gl_max_sb_connections c = 0 \<or> gl_per_sb_forward_quota c = 0 \<or> gl_outbound_queue_capacity c = 0
        \<or> gl_connection_thread_stack_bytes c = 0
     then Err (IoError InvalidInput ''gateway capacities and thread stack must be positive'')
     else case first_zero
         [(''upstream_heartbeat_interval'', gl_upstream_heartbeat_interval c),
          (''sb_peer_idle_timeout'', gl_sb_peer_idle_timeout c), (''io_timeout'', gl_io_timeout c),
          (''reconnect_interval'', gl_reconnect_interval c), (''accept_poll_interval'', gl_accept_poll_interval c)] of
       Some name \<Rightarrow> Err (IoError InvalidInput (''gateway '' @ name @ '' must be positive''))
     | None \<Rightarrow>
         (let reserved = gl_max_sb_connections c * gl_per_sb_forward_quota c
          in if 2 ^ 64 \<le> reserved
             then Err (IoError InvalidInput ''gateway reserved forward capacity overflow'')
             else if gl_outbound_queue_capacity c < reserved
             then Err (IoError InvalidInput ''global outbound queue must cover every SB reserved forward quota'')
             else Ok ()))"

lemma config_validate_Ok:
  "config_validate listener c = Ok () \<Longrightarrow>
     gl_max_sb_connections c * gl_per_sb_forward_quota c \<le> gl_outbound_queue_capacity c"
  by (auto simp: config_validate_def Let_def split: if_splits option.splits)

record GatewayState =
  gs_sessions :: RegistryState
  gs_upstream :: UpstreamState
  gs_forwarded_frames :: u64

definition read_frame_once ::
    "(nat \<Rightarrow> nat \<Rightarrow> nat) \<Rightarrow> FrameDecoder \<Rightarrow> SocketRead list
      \<Rightarrow> FrameDecoder \<times> SocketRead list \<times> (IoError + SbFrame option)" where
  "read_frame_once grow d reads =
     (case sb_next_frame d of
        (d, Inl e) \<Rightarrow> (d, reads, Err (invalid_data e))
      | (d, Inr (Some frame)) \<Rightarrow> (d, reads, Ok (Some frame))
      | (d, Inr None) \<Rightarrow>
          (case reads of
             [] \<Rightarrow> (d, [], Ok None)
           | SocketBlocked # reads \<Rightarrow> (d, reads, Ok None)
           | SocketFault e # reads \<Rightarrow>
               (d, reads, if io_kind e \<in> {WouldBlock, TimedOut} then Ok None else Err e)
           | SocketData bs # reads \<Rightarrow>
               if bs = [] then (d, reads, Err (IoError UnexpectedEof ''SB closed VSOCK connection''))
               else (case sb_next_frame (decoder_push grow d bs) of (d, res) \<Rightarrow> (d, reads, map_err invalid_data res))))"

definition forward_bytes :: "u32 \<Rightarrow> SbFrame \<Rightarrow> IoError + bytes" where
  "forward_bytes sb_id frame =
     bind_result (map_err invalid_data (sb_frame_encode frame)) (\<lambda>inner.
     bind_result (map_err invalid_data (forwarded_new sb_id inner)) (\<lambda>forwarded.
     map_err invalid_data (bind_result (up_frame_new UpForwardedSbFrame (forwarded_encode forwarded)) up_frame_encode)))"

text \<open>
  A worker is a thread: each of its steps uses what other threads share at most once, the registry
  of sessions, the capability flag, the quota of the session or the channel. Between two steps any other
  thread may run. From the allocation on, leaving the function drops the guard of the session, which
  closes the quota and then releases the identifier.
\<close>

record SbSession =
  ss_registry_id :: u32
  ss_sb_id :: u32
  ss_quota :: nat
  ss_workload_cgroup :: bool

datatype SbActivity = Welcoming bytes | Reading | Reserving bytes | Enqueueing ForwardItem | Counting

datatype SbPhase =
    AwaitHello
  | Allocated u32
  | Serving SbSession SbActivity
  | Closing u32 nat
  | Releasing u32
  | SessionOver

record SbConnectionWorker =
  sw_phase :: SbPhase
  sw_decoder :: FrameDecoder
  sw_reads :: "SocketRead list"
  sw_output :: bytes

definition sb_worker_new :: "SocketRead list \<Rightarrow> SbConnectionWorker" where
  "sb_worker_new reads =
     \<lparr>sw_phase = AwaitHello, sw_decoder = decoder_with_capacity 4096, sw_reads = reads, sw_output = []\<rparr>"

text \<open>What a step finds: the stop flag, whether the time is up, whether a write succeeds.\<close>

record SbRound =
  br_stop :: bool
  br_expired :: bool
  br_write_ok :: bool

text \<open>The first frame, and the allocation of an identifier.\<close>

definition session_allocate ::
    "GatewayConfig \<Rightarrow> SbFrame \<Rightarrow> SbConnectionWorker \<Rightarrow> GatewayState \<Rightarrow> SbConnectionWorker \<times> GatewayState" where
  "session_allocate limits hello w gs =
     (if sf_code hello \<noteq> SbHello \<or> sf_payload hello \<noteq> [] then (w\<lparr>sw_phase := SessionOver\<rparr>, gs)
      else case registry_allocate (gl_max_sb_connections limits) (gs_sessions gs) of
        (reg, Inl e) \<Rightarrow> (w\<lparr>sw_phase := SessionOver\<rparr>, gs\<lparr>gs_sessions := reg\<rparr>)
      | (reg, Inr registry_id) \<Rightarrow> (w\<lparr>sw_phase := Allocated registry_id\<rparr>, gs\<lparr>gs_sessions := reg\<rparr>))"

definition await_hello ::
    "GatewayConfig \<Rightarrow> (nat \<Rightarrow> nat \<Rightarrow> nat) \<Rightarrow> SbRound \<Rightarrow> SbConnectionWorker \<Rightarrow> GatewayState
      \<Rightarrow> SbConnectionWorker \<times> GatewayState" where
  "await_hello limits grow r w gs =
     (if br_expired r \<or> br_stop r then (w\<lparr>sw_phase := SessionOver\<rparr>, gs)
      else case read_frame_once grow (sw_decoder w) (sw_reads w) of
        (d, reads, res) \<Rightarrow>
          (let w = w\<lparr>sw_decoder := d, sw_reads := reads\<rparr>
           in case res of
                Inl e \<Rightarrow> (w\<lparr>sw_phase := SessionOver\<rparr>, gs)
              | Inr None \<Rightarrow> (w, gs)
              | Inr (Some hello) \<Rightarrow> session_allocate limits hello w gs))"

text \<open>The quota of the session, the capability and the bytes of the welcome.\<close>

definition session_greet ::
    "GatewayConfig \<Rightarrow> u32 \<Rightarrow> SbConnectionWorker \<Rightarrow> GatewayState \<Rightarrow> SbConnectionWorker \<times> GatewayState" where
  "session_greet limits registry_id w gs =
     (let quota = length (uq_quotas (gs_upstream gs));
          supported = uq_workload_cgroup_observations (gs_upstream gs);
          gs = gs\<lparr>gs_upstream := session_open (gl_per_sb_forward_quota limits) (gs_upstream gs)\<rparr>;
          closing = w\<lparr>sw_phase := Closing registry_id quota\<rparr>
      in case sb_welcome registry_id supported of
           Inl e \<Rightarrow> (closing, gs)
         | Inr reply \<Rightarrow>
             (case (sb_decode_numeric_id reply, sb_frame_encode reply) of
                (Inr sb_id, Inr bs) \<Rightarrow>
                  (w\<lparr>sw_phase := Serving \<lparr>ss_registry_id = registry_id, ss_sb_id = sb_id, ss_quota = quota,
                       ss_workload_cgroup = supported\<rparr> (Welcoming bs)\<rparr>, gs)
              | _ \<Rightarrow> (closing, gs)))"

text \<open>One round of the loop, up to the bytes that are to be sent.\<close>

definition session_read ::
    "(nat \<Rightarrow> nat \<Rightarrow> nat) \<Rightarrow> SbRound \<Rightarrow> SbSession \<Rightarrow> SbConnectionWorker \<Rightarrow> GatewayState \<Rightarrow> SbConnectionWorker" where
  "session_read grow r ses w gs =
     (let closing = (\<lambda>w. w\<lparr>sw_phase := Closing (ss_registry_id ses) (ss_quota ses)\<rparr>)
      in if br_stop r then closing w
         else case read_frame_once grow (sw_decoder w) (sw_reads w) of
           (d, reads, res) \<Rightarrow>
             (let w = w\<lparr>sw_decoder := d, sw_reads := reads\<rparr>
              in case res of
                   Inl e \<Rightarrow> closing w
                 | Inr None \<Rightarrow> if br_expired r then closing w else w
                 | Inr (Some frame) \<Rightarrow>
                     if sf_code frame = SbHeartbeat \<and> sf_payload frame = [] then w
                     else if sf_code frame = SbObservationBatch then
                       (if ss_workload_cgroup ses \<and> \<not> uq_workload_cgroup_observations (gs_upstream gs) then closing w
                        else case forward_bytes (ss_sb_id ses) frame of
                          Inl e \<Rightarrow> closing w
                        | Inr bs \<Rightarrow> w\<lparr>sw_phase := Serving ses (Reserving bs)\<rparr>)
                     else closing w))"

fun session_step ::
    "(nat \<Rightarrow> nat \<Rightarrow> nat) \<Rightarrow> SbRound \<Rightarrow> SbSession \<Rightarrow> SbActivity \<Rightarrow> SbConnectionWorker \<Rightarrow> GatewayState
      \<Rightarrow> SbConnectionWorker \<times> GatewayState" where
  "session_step grow r ses (Welcoming bs) w gs =
     (if br_write_ok r then (w\<lparr>sw_phase := Serving ses Reading, sw_output := sw_output w @ bs\<rparr>, gs)
      else (w\<lparr>sw_phase := Closing (ss_registry_id ses) (ss_quota ses)\<rparr>, gs))"
| "session_step grow r ses Reading w gs = (session_read grow r ses w gs, gs)"
| "session_step grow r ses (Reserving bs) w gs =
     (case send_reserve (ss_quota ses) bs (gs_upstream gs) of
        (up, Inl e) \<Rightarrow> (w\<lparr>sw_phase := Closing (ss_registry_id ses) (ss_quota ses)\<rparr>, gs\<lparr>gs_upstream := up\<rparr>)
      | (up, Inr item) \<Rightarrow> (w\<lparr>sw_phase := Serving ses (Enqueueing item)\<rparr>, gs\<lparr>gs_upstream := up\<rparr>))"
| "session_step grow r ses (Enqueueing item) w gs =
     (case send_enqueue item (gs_upstream gs) of
        (up, Inl e) \<Rightarrow> (w\<lparr>sw_phase := Closing (ss_registry_id ses) (ss_quota ses)\<rparr>, gs\<lparr>gs_upstream := up\<rparr>)
      | (up, Inr _) \<Rightarrow> (w\<lparr>sw_phase := Serving ses Counting\<rparr>, gs\<lparr>gs_upstream := up\<rparr>))"
| "session_step grow r ses Counting w gs =
     (w\<lparr>sw_phase := Serving ses Reading\<rparr>, gs\<lparr>gs_forwarded_frames := gs_forwarded_frames gs + 1\<rparr>)"

fun sb_worker_step ::
    "GatewayConfig \<Rightarrow> (nat \<Rightarrow> nat \<Rightarrow> nat) \<Rightarrow> SbRound \<Rightarrow> SbPhase \<Rightarrow> SbConnectionWorker \<Rightarrow> GatewayState
      \<Rightarrow> SbConnectionWorker \<times> GatewayState" where
  "sb_worker_step limits grow r AwaitHello w gs = await_hello limits grow r w gs"
| "sb_worker_step limits grow r (Allocated registry_id) w gs = session_greet limits registry_id w gs"
| "sb_worker_step limits grow r (Serving ses activity) w gs = session_step grow r ses activity w gs"
| "sb_worker_step limits grow r (Closing registry_id quota) w gs =
     (w\<lparr>sw_phase := Releasing registry_id\<rparr>, gs\<lparr>gs_upstream := session_close quota (gs_upstream gs)\<rparr>)"
| "sb_worker_step limits grow r (Releasing registry_id) w gs =
     (w\<lparr>sw_phase := SessionOver\<rparr>, gs\<lparr>gs_sessions := registry_release registry_id (gs_sessions gs)\<rparr>)"
| "sb_worker_step limits grow r SessionOver w gs = (w, gs)"

section \<open>The accept loop\<close>

definition swap_remove :: "'a list \<Rightarrow> nat \<Rightarrow> 'a list" where
  "swap_remove xs i = butlast (xs[i := last xs])"

function reap_finished :: "('a \<Rightarrow> bool) \<Rightarrow> nat \<Rightarrow> 'a list \<Rightarrow> 'a list" where
  "reap_finished finished index workers =
     (if index < length workers
      then if finished (workers ! index) then reap_finished finished index (swap_remove workers index)
           else reap_finished finished (index + 1) workers
      else workers)"
  by pat_completeness auto

termination
  by (relation "measure (\<lambda>(_, index, workers). length workers - index)") (auto simp: swap_remove_def)

declare reap_finished.simps [simp del]

definition spawn_connection :: "GatewayConfig \<Rightarrow> SocketRead list \<Rightarrow> SbConnectionWorker list \<Rightarrow> SbConnectionWorker list" where
  "spawn_connection limits reads workers =
     (if gl_max_sb_connections limits \<le> length workers then workers else workers @ [sb_worker_new reads])"

definition accept_round :: "GatewayConfig \<Rightarrow> SocketRead list option \<Rightarrow> SbConnectionWorker list \<Rightarrow> SbConnectionWorker list" where
  "accept_round limits accepted workers =
     (let workers = reap_finished (\<lambda>w. sw_phase w = SessionOver) 0 workers
      in case accepted of None \<Rightarrow> workers | Some reads \<Rightarrow> spawn_connection limits reads workers)"

end
