(* ===== verification/Ingest_Connection.thy ===== *)
theory Ingest_Connection
  imports Gateway_Admission Gateway_Queue Observation_Codec
begin

text \<open>
  A connection of a gateway at the daemon
  (\<open>crates/adapters/sandbox_link/upstream/src/connection.rs\<close>): it reads the stream of the gateway
  in pieces, takes the frames out of it and hands the observation batches to the sink. The sink,
  what the reads return and whether the one write succeeds are arguments.
\<close>

section \<open>The connection\<close>

datatype ConnectionError = ConnectionError (ce_stage: string) (ce_message: string)

definition protocol_error :: "string \<Rightarrow> ConnectionError" where
  "protocol_error message = ConnectionError ''protocol'' message"

definition wire_error :: "string \<Rightarrow> WireError \<Rightarrow> ConnectionError" where
  "wire_error stage e = ConnectionError stage (wire_message e)"

primrec open_error_text :: "GatewayOpenError \<Rightarrow> string" where
  "open_error_text InvalidConnectionLimit = ''gateway connection limit must be positive''"
| "open_error_text Capacity = ''gateway connection capacity is full''"
| "open_error_text IdExhausted = ''gateway ID space is exhausted''"
| "open_error_text ShuttingDown = ''gateway ingest is shutting down''"

record 'k ConnectionWorker =
  cw_connection :: "u32 option"
  cw_runtime :: RuntimeState
  cw_sink :: 'k
  cw_failed_batches :: u64
  cw_connection_failures :: u64
  cw_decoder :: FrameDecoder
  cw_welcomed :: bool
  cw_output :: bytes

definition worker_new :: "nat \<Rightarrow> RuntimeState \<Rightarrow> 'k \<Rightarrow> 'k ConnectionWorker" where
  "worker_new read_buffer_bytes runtime k =
     \<lparr>cw_connection = None, cw_runtime = runtime, cw_sink = k, cw_failed_batches = 0,
      cw_connection_failures = 0, cw_decoder = decoder_with_capacity read_buffer_bytes,
      cw_welcomed = False, cw_output = []\<rparr>"

type_synonym 'k Handled = "'k ConnectionWorker \<times> (ConnectionError + unit)"

definition write_frame :: "string option \<Rightarrow> UpFrame \<Rightarrow> 'k ConnectionWorker \<Rightarrow> 'k Handled" where
  "write_frame write_fault frame w =
     (case up_frame_encode frame of
        Inl e \<Rightarrow> (w, Err (wire_error ''upstream_encode'' e))
      | Inr bs \<Rightarrow>
          (case write_fault of
             Some message \<Rightarrow> (w, Err (ConnectionError ''write'' message))
           | None \<Rightarrow> (w\<lparr>cw_output := cw_output w @ bs\<rparr>, Ok ())))"

text \<open>
  The opened connection is a local variable until the welcome is written: leaving the function
  before drops it.
\<close>

definition handle_hello :: "string option \<Rightarrow> UpFrame \<Rightarrow> 'k ConnectionWorker \<Rightarrow> 'k Handled" where
  "handle_hello write_fault frame w =
     (if uf_code frame \<noteq> UpGatewayHello then (w, Err (protocol_error ''first frame must be GatewayHello''))
      else case decode_gateway_hello frame of
        Inl e \<Rightarrow> (w, Err (wire_error ''gateway_hello'' e))
      | Inr workload_cgroup_observations \<Rightarrow>
          (case try_open (cw_runtime w) of
             (rt, Inl e) \<Rightarrow> (w\<lparr>cw_runtime := rt\<rparr>, Err (protocol_error (open_error_text e)))
           | (rt, Inr gateway_id) \<Rightarrow>
               (let w = w\<lparr>cw_runtime := rt\<rparr>;
                    dropped = (\<lambda>w. w\<lparr>cw_runtime := drop_connection (cw_runtime w)\<rparr>)
                in case gateway_welcome gateway_id workload_cgroup_observations of
                     Inl e \<Rightarrow> (dropped w, Err (wire_error ''gateway_welcome'' e))
                   | Inr reply \<Rightarrow>
                       (case write_frame write_fault reply w of
                          (w, Inl e) \<Rightarrow> (dropped w, Err e)
                        | (w, Inr _) \<Rightarrow> (w\<lparr>cw_connection := Some gateway_id, cw_welcomed := True\<rparr>, Ok ())))))"

definition forwarded_batch :: "bytes \<Rightarrow> ConnectionError + u32 \<times> ObservationBatch" where
  "forwarded_batch payload =
     bind_result (map_err (wire_error ''forwarded_sb'') (forwarded_decode payload)) (\<lambda>forwarded.
     let frame_bytes = fw_frame_bytes forwarded;
         decoder = decoder_push (\<lambda>_ needed. needed) (decoder_with_capacity (length frame_bytes)) frame_bytes
     in case sb_next_frame decoder of
          (decoder, first) \<Rightarrow>
     bind_result (map_err (wire_error ''sb_frame'') first) (\<lambda>frame.
     case frame of
       None \<Rightarrow> Err (protocol_error ''forwarded SB frame is incomplete'')
     | Some frame \<Rightarrow>
     bind_result (map_err (wire_error ''sb_frame'') (snd (sb_next_frame decoder))) (\<lambda>second.
     bind_result (if second \<noteq> None then Ok True
                  else bind_result (map_err (wire_error ''sb_frame'') (sb_frame_encode frame))
                         (\<lambda>bs. Ok (bs \<noteq> frame_bytes))) (\<lambda>not_one.
     if not_one then Err (protocol_error ''ForwardedSbFrame must contain exactly one complete SB frame'')
     else if sf_code frame \<noteq> SbObservationBatch
     then Err (protocol_error ''ForwardedSbFrame must contain an ObservationBatch'')
     else bind_result (map_err (wire_error ''observation_batch'') (batch_decode (sf_payload frame)))
            (\<lambda>batch. Ok (fw_sb_id forwarded, batch))))))"

definition handle_forwarded :: "'k Sink \<Rightarrow> bytes \<Rightarrow> 'k ConnectionWorker \<Rightarrow> 'k Handled" where
  "handle_forwarded sink payload w =
     (case forwarded_batch payload of
        Inl e \<Rightarrow> (w, Err e)
      | Inr (sb_id, batch) \<Rightarrow>
          (case cw_connection w of
             None \<Rightarrow> (w, Err (protocol_error ''gateway connection is not registered''))
           | Some gateway_id \<Rightarrow>
               (case ingest_deliver sink gateway_id sb_id batch (cw_runtime w) (cw_sink w) of
                  (rt, k, res) \<Rightarrow>
                    (let w = w\<lparr>cw_runtime := rt, cw_sink := k\<rparr>
                     in (if isl res then w\<lparr>cw_failed_batches := cw_failed_batches w + 1\<rparr> else w, Ok ())))))"

definition handle_frame :: "'k Sink \<Rightarrow> string option \<Rightarrow> UpFrame \<Rightarrow> 'k ConnectionWorker \<Rightarrow> 'k Handled" where
  "handle_frame sink write_fault frame w =
     (if \<not> cw_welcomed w then handle_hello write_fault frame w
      else case uf_code frame of
        UpHeartbeat \<Rightarrow>
          if uf_payload frame = [] then
            (case cw_connection w of
               None \<Rightarrow> (w, Err (protocol_error ''gateway connection is not registered''))
             | Some _ \<Rightarrow> (w\<lparr>cw_runtime := record_heartbeat (cw_runtime w)\<rparr>, Ok ()))
          else (w, Err (protocol_error ''Heartbeat payload must be empty''))
      | UpForwardedSbFrame \<Rightarrow> handle_forwarded sink (uf_payload frame) w
      | _ \<Rightarrow> (w, Err (protocol_error ''unexpected handshake frame after GatewayWelcome'')))"

text \<open>All frames that are complete, one after the other.\<close>

lemma up_next_frame_shrinks:
  "up_next_frame d = (d', Inr (Some f)) \<Longrightarrow> length (unread d') < length (unread d)"
  by (auto simp: up_next_frame_def next_frame_def unread_def header_bytes_def Let_def
      split: if_splits sum.splits prod.splits option.splits)

lemma handle_frame_decoder:
  "handle_frame sink write_fault frame w = (w', res) \<Longrightarrow> cw_decoder w' = cw_decoder w"
  by (auto simp: handle_frame_def handle_hello_def handle_forwarded_def write_frame_def Let_def
      split: if_splits sum.splits prod.splits option.splits UpFrameCode.splits)

function drain_frames :: "'k Sink \<Rightarrow> string option \<Rightarrow> 'k ConnectionWorker \<Rightarrow> 'k Handled" where
  "drain_frames sink write_fault w =
     (case up_next_frame (cw_decoder w) of
        (d, Inl e) \<Rightarrow> (w\<lparr>cw_decoder := d\<rparr>, Err (wire_error ''upstream_decode'' e))
      | (d, Inr None) \<Rightarrow> (w\<lparr>cw_decoder := d\<rparr>, Ok ())
      | (d, Inr (Some frame)) \<Rightarrow>
          (case handle_frame sink write_fault frame (w\<lparr>cw_decoder := d\<rparr>) of
             (w, Inl e) \<Rightarrow> (w, Err e)
           | (w, Inr _) \<Rightarrow> drain_frames sink write_fault w))"
  by pat_completeness auto

termination
  by (relation "measure (\<lambda>(_, _, w). length (unread (cw_decoder w)))")
    (auto dest!: up_next_frame_shrinks [OF sym] handle_frame_decoder [OF sym])

declare drain_frames.simps [simp del]


text \<open>
  One round of the loop in \<open>run_inner\<close> finds the shutdown flag and what the read returns: bytes,
  where none means that the gateway closed the stream, nothing within the poll interval, with
  whether the connection has been idle for too long, or an error.
\<close>

datatype ReadOutcome = ReadBytes bytes | ReadTimeout bool | ReadFault string

record ReadRound =
  rr_shutdown :: bool
  rr_outcome :: ReadOutcome

fun run_inner ::
    "(nat \<Rightarrow> nat \<Rightarrow> nat) \<Rightarrow> 'k Sink \<Rightarrow> string option \<Rightarrow> ReadRound list \<Rightarrow> 'k ConnectionWorker
      \<Rightarrow> 'k ConnectionWorker \<times> (ConnectionError + unit) option" where
  "run_inner grow sink write_fault [] w = (w, None)"
| "run_inner grow sink write_fault (r # rs) w =
     (if rr_shutdown r then (w, Some (Ok ()))
      else case rr_outcome r of
        ReadBytes bs \<Rightarrow>
          if bs = [] then (w, Some (Ok ()))
          else (case drain_frames sink write_fault (w\<lparr>cw_decoder := decoder_push grow (cw_decoder w) bs\<rparr>) of
                  (w, Inl e) \<Rightarrow> (w, Some (Err e))
                | (w, Inr _) \<Rightarrow> run_inner grow sink write_fault rs w)
      | ReadTimeout idle \<Rightarrow> if idle then (w, Some (Ok ())) else run_inner grow sink write_fault rs w
      | ReadFault message \<Rightarrow> (w, Some (Err (ConnectionError ''read'' message))))"

text \<open>When the loop has ended the worker counts a failure and drops its connection.\<close>

definition worker_run ::
    "(nat \<Rightarrow> nat \<Rightarrow> nat) \<Rightarrow> 'k Sink \<Rightarrow> string option \<Rightarrow> ReadRound list \<Rightarrow> 'k ConnectionWorker \<Rightarrow> 'k ConnectionWorker" where
  "worker_run grow sink write_fault rounds w =
     (case run_inner grow sink write_fault rounds w of
        (w, None) \<Rightarrow> w
      | (w, Some res) \<Rightarrow>
          (let w = (if isl res then w\<lparr>cw_connection_failures := cw_connection_failures w + 1\<rparr> else w)
           in case cw_connection w of
                None \<Rightarrow> w
              | Some _ \<Rightarrow> w\<lparr>cw_connection := None, cw_runtime := drop_connection (cw_runtime w)\<rparr>))"

section \<open>The frames of the stream\<close>

text \<open>Handling a list of frames, regardless of how they arrived.\<close>

definition up_frame_of :: "UpFrameCode \<times> bytes \<Rightarrow> UpFrame" where
  "up_frame_of f = \<lparr>uf_code = fst f, uf_payload = snd f\<rparr>"

primrec handle_all :: "'k Sink \<Rightarrow> string option \<Rightarrow> (UpFrameCode \<times> bytes) list \<Rightarrow> 'k ConnectionWorker \<Rightarrow> 'k Handled" where
  "handle_all sink write_fault [] w = (w, Ok ())"
| "handle_all sink write_fault (f # fs) w =
     (case handle_frame sink write_fault (up_frame_of f) w of
        (w, Inl e) \<Rightarrow> (w, Err e)
      | (w, Inr _) \<Rightarrow> handle_all sink write_fault fs w)"

lemma handle_frame_any_decoder:
  "handle_frame sink write_fault frame (w\<lparr>cw_decoder := d\<rparr>) =
     (case handle_frame sink write_fault frame w of (w, res) \<Rightarrow> (w\<lparr>cw_decoder := d\<rparr>, res))"
  by (auto simp: handle_frame_def handle_hello_def handle_forwarded_def write_frame_def Let_def
      split: if_splits sum.splits prod.splits option.splits UpFrameCode.splits)

lemma handle_all_any_decoder:
  "handle_all sink write_fault fs (w\<lparr>cw_decoder := d\<rparr>) =
     (case handle_all sink write_fault fs w of (w, res) \<Rightarrow> (w\<lparr>cw_decoder := d\<rparr>, res))"
  by (induction fs arbitrary: w) (auto simp: handle_frame_any_decoder split: sum.splits prod.splits)

lemma handle_all_append:
  "handle_all sink write_fault (fs @ gs) w =
     (case handle_all sink write_fault fs w of (w, Inl e) \<Rightarrow> (w, Err e) | (w, Inr _) \<Rightarrow> handle_all sink write_fault gs w)"
  by (induction fs arbitrary: w) (auto split: sum.splits prod.splits)


text \<open>
  What the connection makes of a stream: the worker without its decoder, how it ends if it does,
  and the bytes of a frame that is not complete.
\<close>

definition strip :: "'k ConnectionWorker \<Rightarrow> 'k ConnectionWorker" where
  "strip w = w\<lparr>cw_decoder := decoder_with_capacity 0\<rparr>"

definition process_stream ::
    "'k Sink \<Rightarrow> string option \<Rightarrow> bytes \<Rightarrow> 'k ConnectionWorker
      \<Rightarrow> 'k ConnectionWorker \<times> (ConnectionError + unit) option \<times> bytes" where
  "process_stream sink write_fault s w =
     (case split_frames up_header_fields s of
        (fs, stop) \<Rightarrow>
          (case handle_all sink write_fault fs w of
             (v, Inl e) \<Rightarrow> (strip v, Some (Err e), [])
           | (v, Inr _) \<Rightarrow>
               (case stop of
                  Inl e \<Rightarrow> (strip v, Some (Err (wire_error ''upstream_decode'' e)), [])
                | Inr rest \<Rightarrow> (strip v, None, rest))))"

lemma strip_strip [simp]: "strip (strip w) = strip w" "strip (w\<lparr>cw_decoder := d\<rparr>) = strip w"
  by (simp_all add: strip_def)

lemma handle_all_strip:
  "handle_all sink write_fault fs (strip w) = (case handle_all sink write_fault fs w of (v, res) \<Rightarrow> (strip v, res))"
  unfolding strip_def by (rule handle_all_any_decoder)

lemma process_strip [simp]: "process_stream sink write_fault s (strip w) = process_stream sink write_fault s w"
  by (auto simp: process_stream_def handle_all_strip split: prod.splits sum.splits)

lemma process_append:
  "process_stream sink write_fault (s @ t) w =
     (case process_stream sink write_fault s w of
        (v, Some res, _) \<Rightarrow> (v, Some res, [])
      | (v, None, rest) \<Rightarrow> process_stream sink write_fault (rest @ t) v)"
proof -
  obtain fs stop where fs: "split_frames up_header_fields s = (fs, stop)" by fastforce
  obtain v res where v: "handle_all sink write_fault fs w = (v, res)" by fastforce
  show ?thesis
  proof (cases stop)
    case (Inl e)
    with fs v show ?thesis by (cases res) (simp_all add: process_stream_def split_frames_append [of _ s t])
  next
    case (Inr rest)
    obtain gs halt where gs: "split_frames up_header_fields (rest @ t) = (gs, halt)" by fastforce
    have whole: "split_frames up_header_fields (s @ t) = (fs @ gs, halt)"
      using fs gs Inr by (simp add: split_frames_append [of _ s t])
    show ?thesis
    proof (cases res)
      case (Inl e)
      with fs v whole Inr show ?thesis by (simp add: process_stream_def handle_all_append)
    next
      case (Inr u)
      obtain x r where "handle_all sink write_fault gs v = (x, r)" by fastforce
      with fs v whole gs Inr \<open>stop = Inr rest\<close> show ?thesis
        by (cases r; cases halt) (simp_all add: process_stream_def handle_all_append handle_all_strip)
    qed
  qed
qed

lemma drain_frames_refines:
  assumes "decoder_ok (cw_decoder w)"
  shows "case drain_frames sink write_fault w of
      (w', Inl e) \<Rightarrow> process_stream sink write_fault (unread (cw_decoder w)) w = (strip w', Some (Err e), [])
    | (w', Inr _) \<Rightarrow> decoder_ok (cw_decoder w') \<and>
        process_stream sink write_fault (unread (cw_decoder w)) w = (strip w', None, unread (cw_decoder w'))"
  using assms
proof (induction sink write_fault w rule: drain_frames.induct)
  case (1 sink write_fault w)
  let ?d = "cw_decoder w" and ?s = "unread (cw_decoder w)"
  obtain d res where nf: "next_frame up_header_fields ?d = (d, res)" by fastforce
  note refines = next_frame_refines [OF "1.prems" nf]
  note step = drain_frames.simps [of sink write_fault w] up_next_frame_def nf
  show ?case
  proof (cases "first_frame up_header_fields ?s")
    case (Inl e)
    with refines(2) have "split_frames up_header_fields ?s = ([], Err e)" "res = Err e" "d = ?d"
      by (simp_all add: split_frames.simps [of _ ?s])
    then show ?thesis by (simp add: step process_stream_def)
  next
    case (Inr r)
    show ?thesis
    proof (cases r)
      case None
      with Inr refines(2) have "split_frames up_header_fields ?s = ([], Ok ?s)" "res = Ok None" "d = ?d"
        by (simp_all add: split_frames.simps [of _ ?s])
      with "1.prems" show ?thesis by (simp add: step process_stream_def)
    next
      case (Some p)
      obtain f rest where p: "p = (f, rest)" by (cases p)
      with Inr Some refines(2) have res: "res = Ok (Some f)" "unread d = rest" by simp_all
      have split: "split_frames up_header_fields ?s = (case split_frames up_header_fields rest of (fs, r) \<Rightarrow> (f # fs, r))"
        using Inr Some p by (simp add: split_frames.simps [of _ ?s])
      have up: "up_next_frame ?d = (d, Ok (Some (up_frame_of f)))"
        using nf res by (cases f) (simp add: up_next_frame_def up_frame_of_def)
      obtain v hres where h: "handle_frame sink write_fault (up_frame_of f) w = (v, hres)" by fastforce
      show ?thesis
      proof (cases hres)
        case (Inl e)
        with up h split show ?thesis
          by (simp add: drain_frames.simps [of sink write_fault w] handle_frame_any_decoder process_stream_def
              split: prod.splits)
      next
        case (Inr u)
        let ?next = "v\<lparr>cw_decoder := d\<rparr>"
        have "process_stream sink write_fault ?s w = process_stream sink write_fault rest v"
          using h Inr split by (auto simp: process_stream_def split: prod.splits)
        also have "\<dots> = process_stream sink write_fault (unread (cw_decoder ?next)) ?next"
          using res by simp (metis process_strip strip_strip(2))
        finally have same: "process_stream sink write_fault ?s w = \<dots>" .
        have handled: "handle_frame sink write_fault (up_frame_of f) (w\<lparr>cw_decoder := d\<rparr>) = (?next, Inr u)"
          using h Inr by (simp add: handle_frame_any_decoder)
        then have drain: "drain_frames sink write_fault w = drain_frames sink write_fault ?next"
          using up by (simp add: drain_frames.simps [of sink write_fault w])
        show ?thesis unfolding same drain
          using refines(1) by (intro "1.IH" [OF up [symmetric] refl refl handled [symmetric] refl]) simp
      qed
    qed
  qed
qed

end
