(* ===== verification/Codec_Round_Trip.thy ===== *)
theory Codec_Round_Trip
  imports Observation_Codec
begin

text \<open>Decoding inverts encoding: the cursor at a prefix, the bodies, and batches.\<close>

section \<open>Reading what was written\<close>

definition cursor_at :: "bytes \<Rightarrow> bytes \<Rightarrow> Cursor" where
  "cursor_at pre rest = \<lparr>cu_bytes = pre @ rest, cu_offset = length pre\<rparr>"

lemma cursor_new_at: "cursor_new bs = cursor_at [] bs"
  by (simp add: cursor_new_def cursor_at_def)

lemma cursor_take_at:
  "length pre + length v < 2 ^ 64
    \<Longrightarrow> cursor_take (length v) (cursor_at pre (v @ rest)) = Ok (v, cursor_at (pre @ v) rest)"
  by (simp add: cursor_take_def cursor_at_def checked_add_usize_def)

lemma cursor_array_at:
  "length v = n \<Longrightarrow> length pre + n < 2 ^ 64
    \<Longrightarrow> cursor_array n (cursor_at pre (v @ rest)) = Ok (v, cursor_at (pre @ v) rest)"
  using cursor_take_at [of pre v rest] by (simp add: cursor_array_def)

lemma cursor_u8_at:
  "length pre + 1 < 2 ^ 64 \<Longrightarrow> cursor_u8 (cursor_at pre (x # rest)) = Ok (x, cursor_at (pre @ [x]) rest)"
  using cursor_take_at [of pre "[x]" rest] by (simp add: cursor_u8_def)

lemma cursor_word_at:
  "length pre + 2 < 2 ^ 64 \<Longrightarrow> cursor_u16 (cursor_at pre (be16 a @ rest)) = Ok (a, cursor_at (pre @ be16 a) rest)"
  "length pre + 4 < 2 ^ 64 \<Longrightarrow> cursor_u32 (cursor_at pre (be32 b @ rest)) = Ok (b, cursor_at (pre @ be32 b) rest)"
  "length pre + 8 < 2 ^ 64 \<Longrightarrow> cursor_u64 (cursor_at pre (be64 c @ rest)) = Ok (c, cursor_at (pre @ be64 c) rest)"
  using cursor_array_at [of "be16 a" 2 pre rest] cursor_array_at [of "be32 b" 4 pre rest]
    cursor_array_at [of "be64 c" 8 pre rest]
  by (simp_all add: cursor_u16_def cursor_u32_def cursor_u64_def)

lemma decode_marker_at:
  "marker_ok m \<Longrightarrow> length pre + 28 < 2 ^ 64
    \<Longrightarrow> decode_marker (cursor_at pre (encode_marker m @ rest)) = Ok (m, cursor_at (pre @ encode_marker m) rest)"
  by (simp add: decode_marker_def encode_marker_def marker_ok_def cursor_word_at cursor_array_at del: bind_result_eq_Ok)

lemma decode_psi_at:
  "length pre + 12 < 2 ^ 64
    \<Longrightarrow> decode_psi (cursor_at pre (encode_psi p @ rest)) = Ok (p, cursor_at (pre @ encode_psi p) rest)"
  by (simp add: decode_psi_def encode_psi_def cursor_word_at del: bind_result_eq_Ok)

text \<open>The same at the end of the input.\<close>

lemmas cursor_reads_end =
  cursor_array_at [of _ _ _ "[]", simplified append_Nil2] cursor_word_at(3) [of _ _ "[]", simplified append_Nil2]
  decode_psi_at [of _ _ "[]", simplified append_Nil2]

lemmas cursor_reads = cursor_array_at cursor_u8_at cursor_word_at decode_marker_at decode_psi_at

lemma encode_marker_length: "marker_ok m \<Longrightarrow> length (encode_marker m) = 28"
  by (simp add: encode_marker_def marker_ok_def)

lemma encode_psi_length: "length (encode_psi p) = 12"
  by (simp add: encode_psi_def)

section \<open>Bodies\<close>

lemma process_io_text:
  assumes "observation_ok (ProcessIo v)"
  shows "decode_process_io (encode_process_io v) = Ok v" and "length (encode_process_io v) = process_io_bytes"
proof -
  obtain boot where boot: "io_guest_boot_id v = GuestBootId boot" by (cases "io_guest_boot_id v")
  from assms boot have ok: "length boot = 16" "marker_ok (io_process v)" by (simp_all add: boot_ok_def)
  show "decode_process_io (encode_process_io v) = Ok v"
    using ok boot
    by (simp add: decode_process_io_def encode_process_io_def cursor_new_at cursor_reads cursor_reads_end
        encode_marker_length del: bind_result_eq_Ok)
  show "length (encode_process_io v) = process_io_bytes"
    using ok boot by (simp add: encode_process_io_def process_io_bytes_def encode_marker_length)
qed

lemma resource_text:
  assumes "observation_ok (GuestResource v)"
  shows "decode_resource (encode_resource v) = Ok v" and "length (encode_resource v) = resource_bytes"
proof -
  obtain boot where boot: "gr_guest_boot_id v = GuestBootId boot" by (cases "gr_guest_boot_id v")
  from assms boot have ok: "length boot = 16" by (simp add: boot_ok_def)
  show "decode_resource (encode_resource v) = Ok v"
    using ok boot
    by (simp add: decode_resource_def encode_resource_def cursor_new_at cursor_reads cursor_reads_end
        del: bind_result_eq_Ok)
  show "length (encode_resource v) = resource_bytes"
    using ok boot by (simp add: encode_resource_def resource_bytes_def)
qed

lemma pressure_text:
  assumes "observation_ok (GuestPressure v)"
  shows "decode_pressure (encode_pressure v) = Ok v" and "length (encode_pressure v) = pressure_bytes"
proof -
  obtain boot where boot: "gp_guest_boot_id v = GuestBootId boot" by (cases "gp_guest_boot_id v")
  from assms boot have ok: "length boot = 16" by (simp add: boot_ok_def)
  show "decode_pressure (encode_pressure v) = Ok v"
    using ok boot
    by (simp add: decode_pressure_def encode_pressure_def cursor_new_at cursor_reads cursor_reads_end
        encode_psi_length del: bind_result_eq_Ok)
  show "length (encode_pressure v) = pressure_bytes"
    using ok boot by (simp add: encode_pressure_def pressure_bytes_def encode_psi_length)
qed

lemma oom_victim_text:
  assumes "observation_ok (OomVictim v)"
  shows "decode_oom_victim (encode_oom_victim v) = Ok v" and "length (encode_oom_victim v) = oom_victim_bytes"
proof -
  let ?zero = "\<lparr>pm_pid = 0, pm_start_time_ticks = 0, pm_executable_name = replicate 16 0\<rparr> :: ProcessMarker"
  obtain boot where boot: "ov_guest_boot_id v = GuestBootId boot" by (cases "ov_guest_boot_id v")
  define root where "root = (case ov_monitored_root v of Some m \<Rightarrow> m | None \<Rightarrow> ?zero)"
  from assms boot have ok: "length boot = 16" "length (ov_victim_comm v) = 16" "oom_validate v = Ok v"
    by (simp_all add: boot_ok_def oom_ok_def)
  have root: "marker_ok root" using assms by (auto simp: root_def marker_ok_def oom_ok_def split: option.splits)
  have recovered: "(if pm_pid root \<noteq> 0 \<or> pm_start_time_ticks root \<noteq> 0 \<or> pm_executable_name root \<noteq> replicate 16 0
      then Some root else None) = ov_monitored_root v"
    using assms by (auto simp: root_def oom_ok_def zero_marker_def split: option.splits)
  have body: "encode_oom_victim v = boot @ be64 (ov_detected_at_ms v) @ be32 (ov_victim_pid v)
      @ ov_victim_comm v @ attribution_code (ov_attribution v) # encode_marker root @ replicate 4 0"
    by (simp add: encode_oom_victim_def root_def boot)
  have whole: "\<lparr>ov_guest_boot_id = GuestBootId boot, ov_detected_at_ms = ov_detected_at_ms v,
      ov_victim_pid = ov_victim_pid v, ov_victim_comm = ov_victim_comm v, ov_attribution = ov_attribution v,
      ov_monitored_root = ov_monitored_root v\<rparr> = v" by (simp add: boot [symmetric])
  have code: "(if attribution_code a = 0 then Ok OomVictimAttribution.Unknown
      else if attribution_code a = 1 then Ok OomVictimAttribution.Monitored
      else if attribution_code a = 2 then Ok OomVictimAttribution.Unmonitored
      else Err (WireError ''invalid OOM victim attribution'')) = Ok a" for a
    by (cases a) (simp_all add: attribution_code_def)
  show "decode_oom_victim (encode_oom_victim v) = Ok v"
    using ok root unfolding body decode_oom_victim_def
    by (simp add: cursor_new_at cursor_reads cursor_reads_end code encode_marker_length recovered whole
        del: bind_result_eq_Ok disj_not1 split del: if_split)
  show "length (encode_oom_victim v) = oom_victim_bytes"
    unfolding body using ok root by (simp add: oom_victim_bytes_def encode_marker_length)
qed

section \<open>Workload bodies\<close>

lemma presence_from_bit:
  "bit (presence_from index slots bitmap) k \<longleftrightarrow>
     bit bitmap k \<or> (k < 32 \<and> index \<le> k \<and> k < index + length slots \<and> slots ! (k - index) \<noteq> None)"
proof (induction index slots bitmap rule: presence_from.induct)
  case (2 index slot slots bitmap)
  have "bit (if slot \<noteq> None then bitmap OR push_bit index 1 else bitmap :: u32) k
      \<longleftrightarrow> bit bitmap k \<or> (k < 32 \<and> k = index \<and> slot \<noteq> None)"
    by (auto simp: bit_simps)
  with 2 show ?case by (auto simp: nth_Cons' Suc_le_eq less_Suc_eq_le)
qed auto

lemma presence_bitmap_bit:
  "length slots = 19 \<Longrightarrow> bit (presence_bitmap slots) k \<longleftrightarrow> k < 19 \<and> slots ! k \<noteq> None"
  by (auto simp: presence_bitmap_def presence_from_bit)

lemma presence_bitmap_small: "length slots = 19 \<Longrightarrow> drop_bit 19 (presence_bitmap slots) = 0"
  by (rule bit_word_eqI) (simp add: bit_drop_bit_eq presence_bitmap_bit)

lemma decode_slots_at:
  "length pre + 8 * length slots < 2 ^ 64 \<Longrightarrow> index + length slots \<le> 32
    \<Longrightarrow> (\<And>k. k < length slots \<Longrightarrow> bit presence (index + k) \<longleftrightarrow> slots ! k \<noteq> None)
    \<Longrightarrow> decode_slots presence index (length slots)
          (cursor_at pre (concat (map (\<lambda>slot. be64 (slot_value slot)) slots) @ rest))
        = Ok (slots, cursor_at (pre @ concat (map (\<lambda>slot. be64 (slot_value slot)) slots)) rest)"
proof (induction slots arbitrary: pre index)
  case (Cons slot slots)
  have "bit presence index \<longleftrightarrow> slot \<noteq> None" using Cons.prems(3) [of 0] by simp
  then have slot: "(if bit presence index then Some (slot_value slot) else None) = slot"
    by (cases slot) (simp_all add: slot_value_def)
  have "bit presence (index + 1 + k) \<longleftrightarrow> slots ! k \<noteq> None" if "k < length slots" for k
    using Cons.prems(3) [of "Suc k"] that by simp
  with Cons.IH [of "pre @ be64 (slot_value slot)" "index + 1"] Cons.prems slot show ?case
    by (simp add: cursor_word_at and_exp_eq_0_iff_not_bit del: bind_result_eq_Ok split del: if_split)
qed simp

lemma decode_container_text:
  assumes "case cid of None \<Rightarrow> True | Some c \<Rightarrow> length (container_bytes c) = 32"
  defines "text \<equiv> (case cid of Some c \<Rightarrow> container_to_lower_hex c | None \<Rightarrow> replicate 64 0)"
  shows "decode_container text = Ok cid" and "length text = 64"
proof -
  show "length text = 64"
    using assms(1) unfolding text_def by (cases cid; cases "the cid") (auto simp: container_hex_length)
  show "decode_container text = Ok cid"
  proof (cases cid)
    case None
    have "list_all (\<lambda>b. b = 0) (replicate 64 (0 :: u8))" by (simp add: list_all_iff)
    with None show ?thesis by (simp add: text_def decode_container_def)
  next
    case (Some c)
    let ?hex = "container_to_lower_hex c"
    have hex: "\<forall>b \<in> set ?hex. is_lower_hex b" using container_hex_digits [of c] by (simp add: list_all_iff)
    have "?hex \<noteq> []" using \<open>length text = 64\<close> by (auto simp: text_def Some)
    with hex have "\<not> list_all (\<lambda>b. b = 0) ?hex"
      by (cases ?hex) (auto simp: is_lower_hex_def)
    moreover have "utf8_valid ?hex"
    proof (rule utf8_ascii, rule ballI)
      fix b
      assume "b \<in> set ?hex"
      with hex have "is_lower_hex b" by blast
      then show "b \<le> 0x7F" by (auto simp: is_lower_hex_def elim: order_trans)
    qed
    moreover have "container_from_lower_hex ?hex = Ok c" using assms(1) Some by (intro container_text) simp
    ultimately show ?thesis by (simp add: decode_container_def text_def Some del: bind_result_eq_Ok)
  qed
qed

lemma runtime_text [simp]: "runtime_from_code (runtime_code r) = Some r"
  by (cases r) (simp_all add: runtime_from_code_def)

text \<open>The counters and their slots.\<close>

abbreviation counter_bytes :: "WorkloadCgroupCounters \<Rightarrow> bytes" where
  "counter_bytes k \<equiv> concat (map (\<lambda>slot. be64 (slot_value slot)) (workload_cgroup_slots k))"

lemma workload_slots_length: "length (workload_cgroup_slots k) = 19" "length (counter_bytes k) = 152"
  by (simp_all add: workload_cgroup_slots_def)

lemma workload_slots_at:
  "length pre = 168 \<Longrightarrow> decode_slots (presence_bitmap (workload_cgroup_slots k)) 0 19 (cursor_at pre (counter_bytes k))
     = Ok (workload_cgroup_slots k, cursor_at (pre @ counter_bytes k) [])"
  using decode_slots_at [of pre "workload_cgroup_slots k" 0 "presence_bitmap (workload_cgroup_slots k)" "[]"]
  by (simp add: workload_slots_length(1) presence_bitmap_bit)

lemma workload_counters:
  assumes "slots = workload_cgroup_slots k"
  shows "\<lparr>memory_current_bytes = memory_current_bytes k, memory_peak_bytes = slots ! 0,
      memory_anon_bytes = slots ! 1, memory_file_bytes = slots ! 2,
      memory_swap_current_bytes = slots ! 3, memory_low = slots ! 4, memory_high = slots ! 5,
      memory_max = slots ! 6, memory_oom = slots ! 7, memory_oom_kill = slots ! 8,
      memory_oom_group_kill = slots ! 9, cpu_usage_usec = slots ! 10,
      cpu_user_usec = slots ! 11, cpu_system_usec = slots ! 12, cpu_nr_throttled = slots ! 13,
      cpu_throttled_usec = slots ! 14, io_cgroup_read_bytes = slots ! 15,
      io_cgroup_write_bytes = slots ! 16, pids_current = slots ! 17, pids_peak = slots ! 18\<rparr> = k"
  by (simp add: assms workload_cgroup_slots_def)

lemma workload_cgroup_text:
  assumes "observation_ok (WorkloadCgroup w)"
  shows "decode_workload_cgroup (encode_workload_cgroup w) = Ok w"
    and "length (encode_workload_cgroup w) = workload_cgroup_bytes"
proof -
  let ?slots = "workload_cgroup_slots (wc_counters w)" and ?root = "wc_representative_root w"
  define container where "container =
    (case wc_container_id w of Some c \<Rightarrow> container_to_lower_hex c | None \<Rightarrow> replicate 64 0)"
  define tail where "tail = counter_bytes (wc_counters w)"
  define flag :: u8 where "flag = (if wc_container_id w \<noteq> None then of_nat hex_length else 0)"
  obtain boot where boot: "wc_guest_boot_id w = GuestBootId boot" by (cases "wc_guest_boot_id w")
  obtain wid where wid: "wc_workload_id w = WorkloadCgroupId wid" by (cases "wc_workload_id w")
  from assms boot wid have ok: "length boot = 16" "length wid = 32" "length (pm_executable_name ?root) = 16"
    "workload_validate w = Ok ()" by (simp_all add: boot_ok_def workload_ok_def marker_ok_def)
  from assms have "case wc_container_id w of None \<Rightarrow> True | Some c \<Rightarrow> length (container_bytes c) = 32"
    by (simp add: workload_ok_def)
  from decode_container_text [OF this] have container: "decode_container container = Ok (wc_container_id w)"
    "length container = 64" by (simp_all add: container_def)
  have body: "encode_workload_cgroup w = 1 # runtime_code (wc_runtime w) # flag # 0 # be32 (presence_bitmap ?slots)
      @ boot @ be64 (wc_sampled_at_ms w) @ wid @ be32 (pm_pid ?root) @ be32 (wc_monitored_root_count w)
      @ be64 (pm_start_time_ticks ?root) @ pm_executable_name ?root @ container
      @ be64 (memory_current_bytes (wc_counters w)) @ tail"
    by (simp add: encode_workload_cgroup_def Let_def container_def tail_def flag_def boot wid)
  have whole: "\<lparr>wc_guest_boot_id = GuestBootId boot, wc_sampled_at_ms = wc_sampled_at_ms w,
      wc_workload_id = WorkloadCgroupId wid,
      wc_representative_root = \<lparr>pm_pid = pm_pid ?root, pm_start_time_ticks = pm_start_time_ticks ?root,
        pm_executable_name = pm_executable_name ?root\<rparr>,
      wc_monitored_root_count = wc_monitored_root_count w, wc_runtime = wc_runtime w,
      wc_container_id = wc_container_id w, wc_counters = wc_counters w\<rparr> = w"
    by (simp add: boot [symmetric] wid [symmetric])
  show "length (encode_workload_cgroup w) = workload_cgroup_bytes"
    unfolding body using ok container by (simp add: workload_cgroup_bytes_def tail_def workload_slots_length)
  note reads = flag_def hex_length_def cursor_new_at cursor_reads container(1) Let_def
    presence_bitmap_small [OF workload_slots_length(1)] workload_slots_at [of _ "wc_counters w", folded tail_def]
    workload_counters [OF refl]
  show "decode_workload_cgroup (encode_workload_cgroup w) = Ok w"
  proof (cases "wc_container_id w")
    case None
    with ok container(2) whole [unfolded None] show ?thesis unfolding body decode_workload_cgroup_def
      by (simp add: reads del: bind_result_eq_Ok One_nat_def split del: if_split)
  next
    case (Some c)
    with ok container(2) whole [unfolded Some] show ?thesis unfolding body decode_workload_cgroup_def
      by (simp add: reads del: bind_result_eq_Ok One_nat_def split del: if_split)
  qed
qed

section \<open>Batches\<close>

lemma encode_observation_parts:
  assumes "observation_ok x"
  obtains code n body where "encode_observation x = code # be16 (of_nat n) @ body" and "length body = n"
    and "n \<le> 320" and "decode_observation code body = Ok x"
proof (cases x)
  case (ProcessIo v)
  with assms process_io_text [of v] show ?thesis
    by (intro that [of process_io_code process_io_bytes "encode_process_io v"])
      (simp_all add: decode_observation_def process_io_bytes_def)
next
  case (GuestResource v)
  with assms resource_text [of v] show ?thesis
    by (intro that [of resource_code resource_bytes "encode_resource v"])
      (simp_all add: decode_observation_def resource_bytes_def process_io_code_def resource_code_def)
next
  case (OomVictim v)
  with assms oom_victim_text [of v] show ?thesis
    by (intro that [of oom_victim_code oom_victim_bytes "encode_oom_victim v"])
      (simp_all add: decode_observation_def oom_victim_bytes_def process_io_code_def resource_code_def
        oom_victim_code_def)
next
  case (GuestPressure v)
  with assms pressure_text [of v] show ?thesis
    by (intro that [of pressure_code pressure_bytes "encode_pressure v"])
      (simp_all add: decode_observation_def pressure_bytes_def process_io_code_def resource_code_def
        oom_victim_code_def pressure_code_def)
next
  case (WorkloadCgroup v)
  with assms workload_cgroup_text [of v] show ?thesis
    by (intro that [of workload_cgroup_code workload_cgroup_bytes "encode_workload_cgroup v"])
      (simp_all add: decode_observation_def workload_cgroup_bytes_def process_io_code_def resource_code_def
        oom_victim_code_def pressure_code_def workload_cgroup_code_def)
qed

lemma encode_observation_length: "observation_ok x \<Longrightarrow> length (encode_observation x) \<le> max_encoded_observation_bytes"
  by (erule encode_observation_parts)
    (simp add: max_encoded_observation_bytes_def workload_cgroup_bytes_def)

lemma decode_observations_at:
  "list_all observation_ok xs \<Longrightarrow> length pre + length (concat (map encode_observation xs)) < 2 ^ 64
    \<Longrightarrow> decode_observations (length xs) (cursor_at pre (concat (map encode_observation xs) @ rest))
      = Ok (xs, cursor_at (pre @ concat (map encode_observation xs)) rest)"
proof (induction xs arbitrary: pre)
  case (Cons x xs)
  let ?more = "concat (map encode_observation xs)"
  from Cons.prems(1) have "observation_ok x" by simp
  then obtain code n body where x: "encode_observation x = code # be16 (of_nat n) @ body"
    and n: "length body = n" "n \<le> 320" and dec: "decode_observation code body = Ok x"
    by (rule encode_observation_parts)
  have "unat (of_nat n :: u16) = n" using n(2) by (simp add: unsigned_of_nat take_bit_nat_eq_self)
  moreover have "cursor_take n (cursor_at (pre @ code # be16 (of_nat n)) (body @ ?more @ rest))
      = Ok (body, cursor_at (pre @ code # be16 (of_nat n) @ body) (?more @ rest))"
    using cursor_take_at [of "pre @ code # be16 (of_nat n)" body "?more @ rest"] n Cons.prems(2)
    by (simp add: x)
  moreover have "decode_observations (length xs) (cursor_at (pre @ code # be16 (of_nat n) @ body) (?more @ rest))
      = Ok (xs, cursor_at ((pre @ code # be16 (of_nat n) @ body) @ ?more) rest)"
    using Cons.prems by (intro Cons.IH) (simp_all add: x)
  ultimately show ?case
    using Cons.prems(2) dec by (simp add: x cursor_u8_at cursor_word_at del: bind_result_eq_Ok)
qed simp

lemma encoded_length:
  "list_all observation_ok xs
    \<Longrightarrow> length (concat (map encode_observation xs)) \<le> length xs * max_encoded_observation_bytes"
  using encode_observation_length by (induction xs) (auto intro: add_mono)

end
