(* ===== verification/Gateway_Flow.thy ===== *)
theory Gateway_Flow
  imports Gateway_Session Ingest_Connection Codec_Round_Trip
begin

text \<open>
  From the agent over the gateway to the sink of the daemon. The frames that one part writes are
  the frames that the next part takes apart, and all threads of the gateway together keep its
  tables consistent.
\<close>

section \<open>What is written is what is read\<close>

lemma sb_frame_encode_wire:
  "fits sb_max_frame_bytes (code, payload) \<Longrightarrow>
     sb_frame_encode \<lparr>sf_code = code, sf_payload = payload\<rparr> = Ok (wire sb_header (code, payload))"
  by (simp add: sb_frame_encode_def wire_def sb_header_def fits_def sb_max_frame_bytes_def)

lemma up_frame_encode_wire:
  "fits up_max_frame_bytes (code, payload) \<Longrightarrow>
     up_frame_encode \<lparr>uf_code = code, uf_payload = payload\<rparr> = Ok (wire up_header (code, payload))"
  by (simp add: up_frame_encode_def wire_def up_header_def fits_def up_max_frame_bytes_def)

lemma sb_frame_new_fits:
  "fits sb_max_frame_bytes (code, payload) \<Longrightarrow>
     sb_frame_new code payload = Ok \<lparr>sf_code = code, sf_payload = payload\<rparr>"
  using sb_link.unat_length [of "(code, payload)"] sb_header_text [of "of_nat (length payload)" code]
  by (simp add: sb_frame_new_def sb_header_def fits_def sb_max_frame_bytes_def del: bind_result_eq_Ok)

lemma up_frame_new_fits:
  "fits up_max_frame_bytes (code, payload) \<Longrightarrow>
     up_frame_new code payload = Ok \<lparr>uf_code = code, uf_payload = payload\<rparr>"
  using up_link.unat_length [of "(code, payload)"] up_header_text [of "of_nat (length payload)" code]
  by (simp add: up_frame_new_def up_header_def fits_def up_max_frame_bytes_def del: bind_result_eq_Ok)

lemma length_sb_wire: "length (wire sb_header (code, payload)) = header_bytes + length payload"
  by (simp add: wire_def sb_link.header_length)

text \<open>Every frame of the sandbox link fits into a frame of the upstream link.\<close>

definition forwarded_payload :: "u32 \<Rightarrow> SbFrameCode \<times> bytes \<Rightarrow> bytes" where
  "forwarded_payload sb_id f = be32 sb_id @ wire sb_header f"

lemma forwarded_fits:
  "fits sb_max_frame_bytes (code, payload) \<Longrightarrow>
     fits up_max_frame_bytes (UpForwardedSbFrame, forwarded_payload sb_id (code, payload))"
  by (simp add: fits_def forwarded_payload_def length_sb_wire sb_max_frame_bytes_def up_max_frame_bytes_def
      header_bytes_def)

lemma forward_bytes_wire:
  assumes "fits sb_max_frame_bytes (code, payload)" and "sb_id \<noteq> 0"
  shows "forward_bytes sb_id \<lparr>sf_code = code, sf_payload = payload\<rparr>
    = Ok (wire up_header (UpForwardedSbFrame, forwarded_payload sb_id (code, payload)))"
proof -
  have "wire sb_header (code, payload) \<noteq> []"
    using length_sb_wire [of code payload] by (auto simp: header_bytes_def)
  with assms(2) have "forwarded_new sb_id (wire sb_header (code, payload))
      = Ok \<lparr>fw_sb_id = sb_id, fw_frame_bytes = wire sb_header (code, payload)\<rparr>"
    by (simp add: forwarded_new_def)
  moreover have "forwarded_encode \<lparr>fw_sb_id = sb_id, fw_frame_bytes = wire sb_header (code, payload)\<rparr>
      = forwarded_payload sb_id (code, payload)"
    by (simp add: forwarded_encode_def forwarded_payload_def)
  ultimately show ?thesis
    using up_frame_new_fits [OF forwarded_fits [OF assms(1)]] up_frame_encode_wire [OF forwarded_fits [OF assms(1)]]
    by (simp add: forward_bytes_def sb_frame_encode_wire [OF assms(1)] del: bind_result_eq_Ok)
qed

lemma forward_bytes_zero: "isl (forward_bytes 0 frame)"
  by (simp add: forward_bytes_def sb_frame_encode_def forwarded_new_def)

text \<open>The daemon takes the batch out again.\<close>

lemma forwarded_decode_payload:
  "sb_id \<noteq> 0 \<Longrightarrow> forwarded_decode (forwarded_payload sb_id (code, payload))
     = Ok \<lparr>fw_sb_id = sb_id, fw_frame_bytes = wire sb_header (code, payload)\<rparr>"
  using length_sb_wire [of code payload]
  by (auto simp: forwarded_decode_def forwarded_payload_def forwarded_new_def header_bytes_def)

lemma sb_next_frame_wire:
  assumes "fits sb_max_frame_bytes (code, payload)" and d: "decoder_ok d" "unread d = wire sb_header (code, payload)"
  obtains d' where "sb_next_frame d = (d', Ok (Some \<lparr>sf_code = code, sf_payload = payload\<rparr>))"
    and "sb_next_frame d' = (d', Ok None)"
proof -
  obtain d' res where nf: "next_frame sb_header_fields d = (d', res)" by fastforce
  have "first_frame sb_header_fields (unread d) = Ok (Some ((code, payload), []))"
    using sb_link.first_frame_wire [OF assms(1), of "[]"] d(2) by simp
  with next_frame_refines [OF d(1) nf] have "res = Ok (Some (code, payload))" "unread d' = []" by simp_all
  with nf show ?thesis
    by (intro that [of d']) (simp_all add: sb_next_frame_def next_frame_def unread_def header_bytes_def Let_def)
qed

lemma forwarded_batch_payload:
  assumes "fits sb_max_frame_bytes (SbObservationBatch, payload)" and "sb_id \<noteq> 0"
  shows "forwarded_batch (forwarded_payload sb_id (SbObservationBatch, payload)) =
    bind_result (map_err (wire_error ''observation_batch'') (batch_decode payload)) (\<lambda>batch. Ok (sb_id, batch))"
proof -
  let ?bytes = "wire sb_header (SbObservationBatch, payload)"
  let ?d = "decoder_push (\<lambda>_ needed. needed) (decoder_with_capacity (length ?bytes)) ?bytes"
  obtain d' where "sb_next_frame ?d = (d', Ok (Some \<lparr>sf_code = SbObservationBatch, sf_payload = payload\<rparr>))"
    and "sb_next_frame d' = (d', Ok None)"
    by (rule sb_next_frame_wire [OF assms(1), of ?d]) simp_all
  then show ?thesis
    by (simp add: forwarded_batch_def forwarded_decode_payload [OF assms(2)] sb_frame_encode_wire [OF assms(1)] Let_def
        del: bind_result_eq_Ok)
qed


lemma sb_frame_new_Ok:
  assumes "sb_frame_new code payload = Ok f"
  shows "f = \<lparr>sf_code = code, sf_payload = payload\<rparr>" and "fits sb_max_frame_bytes (code, payload)"
proof -
  let ?n = "of_nat (length payload) :: u32"
  let ?h = "sb_header_encode \<lparr>sh_code = code, sh_payload_length = ?n\<rparr>"
  from assms show "f = \<lparr>sf_code = code, sf_payload = payload\<rparr>" by (auto simp: sb_frame_new_def split: if_splits)
  from assms have "unat ?n = length payload"
    by (auto simp: sb_frame_new_def unat_of_nat_u32 split: if_splits)
  moreover obtain h where "sb_header_decode ?h = Ok h"
    using assms by (auto simp: sb_frame_new_def split: if_splits)
  ultimately show "fits sb_max_frame_bytes (code, payload)"
    using header_parts [of ?h sb_magic sb_version "sb_code_byte code" ?n]
    by (auto simp: sb_header_decode_def sb_header_encode_def fits_def checked_add_usize_def Let_def
        header_bytes_def split: if_splits)
qed

lemma batch_text:
  assumes "list_all observation_ok (ob_observations batch)" and "batch_encode batch = Ok payload"
  shows "batch_decode payload = Ok batch"
proof -
  let ?xs = "ob_observations batch" and ?head = "be64 (ob_sequence batch) @ be16 (of_nat (length (ob_observations batch)))"
  from assms(2) have count: "length ?xs < 2 ^ 16"
    and payload: "payload = ?head @ concat (map encode_observation ?xs)"
    by (auto simp: batch_encode_def Let_def split: if_splits)
  have n: "unat (of_nat (length ?xs) :: u16) = length ?xs"
    using count by (simp add: unsigned_of_nat take_bit_nat_eq_self)
  have "length ?xs * max_encoded_observation_bytes \<le> 2 ^ 16 * 323"
    using count by (intro mult_mono) (simp_all add: max_encoded_observation_bytes_def workload_cgroup_bytes_def)
  with encoded_length [OF assms(1)]
  have "length ?head + length (concat (map encode_observation ?xs)) < 2 ^ 64" by simp
  from decode_observations_at [OF assms(1) this, of "[]"] show ?thesis
    by (simp add: payload batch_decode_def cursor_new_at cursor_reads n del: bind_result_eq_Ok)
      (simp add: cursor_at_def cursor_remaining_def)
qed

lemma encode_batch_frame_wire:
  assumes "list_all observation_ok (ob_observations batch)" and "encode_batch_frame batch = Ok bs"
  obtains payload where "bs = wire sb_header (SbObservationBatch, payload)"
    and "fits sb_max_frame_bytes (SbObservationBatch, payload)" and "batch_decode payload = Ok batch"
    and "batch_encode batch = Ok payload"
proof -
  from assms(2) obtain payload f where payload: "batch_encode batch = Ok payload"
    and f: "sb_frame_new SbObservationBatch payload = Ok f" and bs: "sb_frame_bytes f = Ok bs"
    by (auto simp: encode_batch_frame_def)
  note new = sb_frame_new_Ok [OF f]
  with bs have "bs = wire sb_header (SbObservationBatch, payload)"
    by (simp add: sb_frame_bytes_def sb_frame_encode_wire)
  with new(2) batch_text [OF assms(1) payload] payload show ?thesis by (intro that)
qed

section \<open>However the stream is cut\<close>

definition data_round :: "bytes \<Rightarrow> ReadRound" where
  "data_round bs = \<lparr>rr_shutdown = False, rr_outcome = ReadBytes bs\<rparr>"

text \<open>No complete frame waits in the decoder.\<close>

definition drained :: "'k ConnectionWorker \<Rightarrow> bool" where
  "drained w \<longleftrightarrow> decoder_ok (cw_decoder w) \<and>
     split_frames up_header_fields (unread (cw_decoder w)) = ([], Ok (unread (cw_decoder w)))"

lemma drained_new [simp]: "drained (worker_new n rt k)"
  by (simp add: drained_def worker_new_def split_frames.simps first_frame_def header_bytes_def)

lemma split_frames_rest: "split_frames decode_header s = (fs, Ok rest) \<Longrightarrow> split_frames decode_header rest = ([], Ok rest)"
proof (induction decode_header s arbitrary: fs rule: split_frames.induct)
  case (1 decode_header s)
  show ?case
  proof (cases "first_frame decode_header s")
    case (Inl e)
    with "1.prems" show ?thesis by (simp add: split_frames.simps [of decode_header s])
  next
    case (Inr r)
    with 1 show ?thesis
      by (cases r) (auto simp: split_frames.simps [of decode_header s] split_frames.simps [of decode_header rest]
          split: prod.splits)
  qed
qed

lemma run_inner_refines:
  assumes "drained w" and "[] \<notin> set chunks"
  shows "case run_inner grow sink write_fault (map data_round chunks) w of
      (w', None) \<Rightarrow> process_stream sink write_fault (unread (cw_decoder w) @ concat chunks) w
          = (strip w', None, unread (cw_decoder w'))
    | (w', Some res) \<Rightarrow>
        process_stream sink write_fault (unread (cw_decoder w) @ concat chunks) w = (strip w', Some res, [])"
  using assms
proof (induction chunks arbitrary: w)
  case Nil
  then show ?case by (simp add: drained_def process_stream_def)
next
  case (Cons bs chunks)
  let ?w = "w\<lparr>cw_decoder := decoder_push grow (cw_decoder w) bs\<rparr>"
  obtain v res where drain: "drain_frames sink write_fault ?w = (v, res)" by fastforce
  have rest: "bs \<noteq> []" "[] \<notin> set chunks" using Cons.prems(2) by auto
  have ok: "decoder_ok (cw_decoder ?w)" "unread (cw_decoder ?w) = unread (cw_decoder w) @ bs"
    using Cons.prems(1) by (simp_all add: drained_def)
  have same: "process_stream sink write_fault s ?w = process_stream sink write_fault s w" for s
    by (metis process_strip strip_strip(2))
  show ?case
  proof (cases res)
    case (Inl e)
    with drain_frames_refines [OF ok(1), of sink write_fault] drain same ok(2) rest show ?thesis
      by (simp add: data_round_def process_append [of _ _ "unread (cw_decoder w) @ bs", simplified])
  next
    case (Inr u)
    with drain_frames_refines [OF ok(1), of sink write_fault] drain same ok(2)
    have v: "decoder_ok (cw_decoder v)"
      "process_stream sink write_fault (unread (cw_decoder w) @ bs) w = (strip v, None, unread (cw_decoder v))"
      by simp_all
    then have "drained v" by (auto simp: drained_def process_stream_def split: prod.splits sum.splits dest: split_frames_rest)
    have stream: "process_stream sink write_fault (unread (cw_decoder w) @ concat (bs # chunks)) w
        = process_stream sink write_fault (unread (cw_decoder v) @ concat chunks) v"
      using v(2) process_append [of sink write_fault "unread (cw_decoder w) @ bs" "concat chunks" w] by simp
    have run: "run_inner grow sink write_fault (map data_round (bs # chunks)) w
        = run_inner grow sink write_fault (map data_round chunks) v"
      using rest drain Inr by (simp add: data_round_def)
    show ?thesis unfolding stream run by (rule Cons.IH [OF \<open>drained v\<close> rest(2)])
  qed
qed


section \<open>What the daemon makes of the gateway's stream\<close>

text \<open>The way of a batch: the agent encodes it, the gateway wraps it for the daemon.\<close>

definition relayed :: "u32 \<times> ObservationBatch \<Rightarrow> IoError + bytes" where
  "relayed origin =
     bind_result (map_err invalid_data (batch_encode (snd origin))) (\<lambda>payload.
     bind_result (map_err invalid_data (sb_frame_new SbObservationBatch payload)) (\<lambda>frame.
     forward_bytes (fst origin) frame))"

definition batch_ok :: "ObservationBatch \<Rightarrow> bool" where
  "batch_ok batch \<longleftrightarrow> list_all observation_ok (ob_observations batch)"

definition batch_payload :: "ObservationBatch \<Rightarrow> bytes" where
  "batch_payload batch = projr (batch_encode batch)"

definition write_parts :: "(ForwardItem \<Rightarrow> u32 \<times> ObservationBatch) \<Rightarrow> StreamWrite \<Rightarrow> UpFrameCode \<times> bytes" where
  "write_parts origin w =
     (case w of
        WroteHeartbeat \<Rightarrow> (UpHeartbeat, [])
      | WroteItem item \<Rightarrow>
          (UpForwardedSbFrame,
           forwarded_payload (fst (origin item)) (SbObservationBatch, batch_payload (snd (origin item)))))"

definition deliver_all :: "'k Sink \<Rightarrow> u32 \<Rightarrow> (u32 \<times> ObservationBatch) list \<Rightarrow> 'k \<Rightarrow> 'k" where
  "deliver_all sink gateway_id = fold (\<lambda>(sb_id, batch) k. fst (sink gateway_id sb_id batch k))"

lemma relayed_wire:
  assumes "batch_ok (snd src)" and "relayed src = Ok bs"
  shows "bs = wire up_header (UpForwardedSbFrame, forwarded_payload (fst src) (SbObservationBatch, batch_payload (snd src)))"
    and "fits up_max_frame_bytes (UpForwardedSbFrame, forwarded_payload (fst src) (SbObservationBatch, batch_payload (snd src)))"
    and "forwarded_batch (forwarded_payload (fst src) (SbObservationBatch, batch_payload (snd src))) = Ok src"
proof -
  from assms(2) obtain payload frame where payload: "batch_encode (snd src) = Ok payload"
    and frame: "sb_frame_new SbObservationBatch payload = Ok frame" and bs: "forward_bytes (fst src) frame = Ok bs"
    by (auto simp: relayed_def)
  note new = sb_frame_new_Ok [OF frame]
  have nz: "fst src \<noteq> 0" using bs forward_bytes_zero [of frame] by auto
  have [simp]: "batch_payload (snd src) = payload" by (simp add: batch_payload_def payload)
  show "bs = wire up_header (UpForwardedSbFrame, forwarded_payload (fst src) (SbObservationBatch, batch_payload (snd src)))"
    using bs forward_bytes_wire [OF new(2) nz] new(1) by simp
  show "fits up_max_frame_bytes (UpForwardedSbFrame, forwarded_payload (fst src) (SbObservationBatch, batch_payload (snd src)))"
    using forwarded_fits [OF new(2)] by simp
  have "batch_decode payload = Ok (snd src)"
    using assms(1) payload by (intro batch_text) (simp_all add: batch_ok_def)
  then show "forwarded_batch (forwarded_payload (fst src) (SbObservationBatch, batch_payload (snd src))) = Ok src"
    using forwarded_batch_payload [OF new(2) nz] by simp
qed

lemma handle_write:
  assumes "cw_welcomed w" and "cw_connection w = Some gateway_id"
    and "\<And>item. wr = WroteItem item \<Longrightarrow> batch_ok (snd (origin item)) \<and> relayed (origin item) = Ok (fi_bytes item)"
  obtains w' where "handle_frame sink write_fault (up_frame_of (write_parts origin wr)) w = (w', Ok ())"
    and "cw_welcomed w'" "cw_connection w' = Some gateway_id" "cw_output w' = cw_output w"
    and "cw_sink w' = deliver_all sink gateway_id (map origin (items_of [wr])) (cw_sink w)"
proof (cases wr)
  case WroteHeartbeat
  with assms(1,2) show ?thesis
    by (intro that [of "w\<lparr>cw_runtime := record_heartbeat (cw_runtime w)\<rparr>"])
      (simp_all add: write_parts_def up_frame_of_def handle_frame_def deliver_all_def items_of_def map_filter_def)
next
  case (WroteItem item)
  with assms(3) have src: "batch_ok (snd (origin item))" "relayed (origin item) = Ok (fi_bytes item)" by simp_all
  obtain sb_id batch where sb: "origin item = (sb_id, batch)" by fastforce
  obtain rt k res where d: "ingest_deliver sink gateway_id sb_id batch (cw_runtime w) (cw_sink w) = (rt, k, res)"
    by (metis prod_cases3)
  then have "k = fst (sink gateway_id sb_id batch (cw_sink w))"
    by (auto simp: ingest_deliver_def Let_def split: prod.splits sum.splits)
  moreover define v where "v = w\<lparr>cw_runtime := rt, cw_sink := k\<rparr>"
  ultimately show ?thesis
    using WroteItem assms(1,2) sb d relayed_wire(3) [OF src]
    by (intro that [of "if isl res then v\<lparr>cw_failed_batches := cw_failed_batches v + 1\<rparr> else v"])
      (simp_all add: write_parts_def up_frame_of_def handle_frame_def handle_forwarded_def deliver_all_def
        items_of_def map_filter_def Let_def)
qed


lemma handle_writes:
  assumes "cw_welcomed w" and "cw_connection w = Some gateway_id"
    and "\<forall>item \<in> set (items_of ws). batch_ok (snd (origin item)) \<and> relayed (origin item) = Ok (fi_bytes item)"
  shows "\<exists>w'. handle_all sink write_fault (map (write_parts origin) ws) w = (w', Ok ())
    \<and> cw_welcomed w' \<and> cw_connection w' = Some gateway_id \<and> cw_output w' = cw_output w
    \<and> cw_sink w' = deliver_all sink gateway_id (map origin (items_of ws)) (cw_sink w)"
  using assms
proof (induction ws arbitrary: w)
  case (Cons wr ws)
  have items: "items_of (wr # ws) = items_of [wr] @ items_of ws"
    by (simp add: items_of_def map_filter_def)
  have "batch_ok (snd (origin item)) \<and> relayed (origin item) = Ok (fi_bytes item)" if "wr = WroteItem item" for item
    using Cons.prems(3) that by (simp add: items_of_def map_filter_def)
  from handle_write [where sink = sink and write_fault = write_fault, OF Cons.prems(1,2) this]
  obtain v where v: "handle_frame sink write_fault (up_frame_of (write_parts origin wr)) w = (v, Ok ())"
    "cw_welcomed v" "cw_connection v = Some gateway_id" "cw_output v = cw_output w"
    "cw_sink v = deliver_all sink gateway_id (map origin (items_of [wr])) (cw_sink w)" by blast
  with Cons.IH [OF v(2,3)] Cons.prems(3) show ?case by (auto simp: items deliver_all_def)
qed (simp add: items_of_def map_filter_def deliver_all_def)

text \<open>The bytes of a stream are the frames of its writes.\<close>

lemma write_bytes_wire:
  assumes "\<forall>item \<in> set (items_of ws). batch_ok (snd (origin item)) \<and> relayed (origin item) = Ok (fi_bytes item)"
  shows "map write_bytes ws = map (wire up_header) (map (write_parts origin) ws)"
    and "list_all (fits up_max_frame_bytes) (map (write_parts origin) ws)"
proof -
  have "write_bytes wr = wire up_header (write_parts origin wr) \<and> fits up_max_frame_bytes (write_parts origin wr)"
    if "wr \<in> set ws" for wr
  proof (cases wr)
    case WroteHeartbeat
    then show ?thesis by (simp add: write_bytes_def write_parts_def wire_def fits_def header_bytes_def up_max_frame_bytes_def)
  next
    case (WroteItem item)
    with that have "item \<in> set (items_of ws)" by (force simp: items_of_def map_filter_def)
    with assms have "batch_ok (snd (origin item))" "relayed (origin item) = Ok (fi_bytes item)" by simp_all
    from relayed_wire [OF this] WroteItem show ?thesis by (simp add: write_bytes_def write_parts_def)
  qed
  then show "map write_bytes ws = map (wire up_header) (map (write_parts origin) ws)"
    and "list_all (fits up_max_frame_bytes) (map (write_parts origin) ws)" by (simp_all add: list_all_iff)
qed

text \<open>The greeting: a hello of the gateway opens a connection if the runtime admits one.\<close>

definition hello_bytes :: "bool \<Rightarrow> bytes" where
  "hello_bytes workload = projr (up_frame_encode (gateway_hello workload))"

lemma handle_hello_frame:
  assumes "try_open rt = (rt', Inr gateway_id)" and "gateway_id \<noteq> 0"
  obtains w where "handle_frame sink None (gateway_hello workload) (worker_new n rt k) = (w, Ok ())"
    and "cw_welcomed w" "cw_connection w = Some gateway_id" "cw_runtime w = rt'" "cw_sink w = k"
    and "\<exists>reply. gateway_welcome gateway_id workload = Ok reply \<and> up_frame_encode reply = Ok (cw_output w)"
proof -
  have hello: "decode_gateway_hello (gateway_hello workload) = Ok workload"
    by (simp add: decode_gateway_hello_def gateway_hello_def up_decode_numeric_id_def workload_cgroup_capability_def)
  let ?payload = "be32 gateway_id @ (if workload then be32 workload_cgroup_capability else [])"
  have "fits up_max_frame_bytes (UpGatewayWelcome, ?payload)"
    by (simp add: fits_def header_bytes_def up_max_frame_bytes_def)
  then have reply: "gateway_welcome gateway_id workload = Ok \<lparr>uf_code = UpGatewayWelcome, uf_payload = ?payload\<rparr>"
    "up_frame_encode \<lparr>uf_code = UpGatewayWelcome, uf_payload = ?payload\<rparr>
      = Ok (wire up_header (UpGatewayWelcome, ?payload))"
    using assms(2) up_frame_new_fits up_frame_encode_wire by (simp_all add: gateway_welcome_def)
  have "uf_code (gateway_hello workload) = UpGatewayHello" by (simp add: gateway_hello_def)
  with assms hello reply show ?thesis
    by (intro that [of "(worker_new n rt k)\<lparr>cw_runtime := rt', cw_connection := Some gateway_id, cw_welcomed := True,
          cw_output := wire up_header (UpGatewayWelcome, ?payload)\<rparr>"])
      (simp_all add: handle_frame_def handle_hello_def worker_new_def write_frame_def)
qed


lemma try_open_id: "try_open rt = (rt', Inr gateway_id) \<Longrightarrow> gateway_id \<noteq> 0"
  by (auto simp: try_open_def split: if_splits option.splits prod.splits dest: usable_id_Some)

lemma hello_wire:
  obtains payload where "gateway_hello workload = up_frame_of (UpGatewayHello, payload)"
    and "hello_bytes workload = wire up_header (UpGatewayHello, payload)"
    and "fits up_max_frame_bytes (UpGatewayHello, payload)"
proof -
  let ?payload = "if workload then be32 workload_cgroup_capability else []"
  have "fits up_max_frame_bytes (UpGatewayHello, ?payload)"
    by (simp add: fits_def header_bytes_def up_max_frame_bytes_def)
  then show ?thesis
    by (intro that [of ?payload])
      (simp_all add: hello_bytes_def gateway_hello_def up_frame_of_def up_frame_encode_wire)
qed

lemma strip_fields: "strip u = strip v \<Longrightarrow> cw_connection v = cw_connection u \<and> cw_sink v = cw_sink u"
  by (cases u; cases v) (simp add: strip_def)

lemma stream_delivered:
  assumes admitted: "try_open rt = (rt', Inr gateway_id)"
    and items: "\<forall>item \<in> set (items_of ws). batch_ok (snd (origin item)) \<and> relayed (origin item) = Ok (fi_bytes item)"
    and chunks: "[] \<notin> set chunks" "concat chunks = hello_bytes workload @ concat (map write_bytes ws)"
  shows "\<exists>w. run_inner grow sink None (map data_round chunks) (worker_new n rt k) = (w, None)
    \<and> cw_connection w = Some gateway_id \<and> unread (cw_decoder w) = []
    \<and> cw_sink w = deliver_all sink gateway_id (map origin (items_of ws)) k"
proof -
  let ?w = "worker_new n rt k"
  obtain payload where hello: "gateway_hello workload = up_frame_of (UpGatewayHello, payload)"
    "hello_bytes workload = wire up_header (UpGatewayHello, payload)"
    "fits up_max_frame_bytes (UpGatewayHello, payload)" by (rule hello_wire)
  let ?fs = "(UpGatewayHello, payload) # map (write_parts origin) ws"
  have "concat chunks = concat (map (wire up_header) ?fs) @ []"
    using chunks(2) hello(2) write_bytes_wire(1) [OF items] by simp
  moreover have "list_all (fits up_max_frame_bytes) ?fs" using hello(3) write_bytes_wire(2) [OF items] by simp
  moreover have "split_frames up_header_fields [] = ([], Ok [])"
    by (simp add: split_frames.simps first_frame_def header_bytes_def)
  ultimately have frames: "split_frames up_header_fields (concat chunks) = (?fs, Ok [])"
    using up_link.split_frames_wire [of ?fs "[]"] by (simp only: split append_Nil2)
  obtain v where v: "handle_frame sink None (gateway_hello workload) ?w = (v, Ok ())"
    "cw_welcomed v" "cw_connection v = Some gateway_id" "cw_sink v = k"
    by (rule handle_hello_frame [OF admitted try_open_id [OF admitted], where sink = sink and n = n and k = k])
  from handle_writes [OF v(2,3) items, of sink None] v(1,4) hello(1)
  obtain u where u: "handle_all sink None ?fs ?w = (u, Ok ())" "cw_connection u = Some gateway_id"
    "cw_sink u = deliver_all sink gateway_id (map origin (items_of ws)) k" by auto
  then have "process_stream sink None (concat chunks) ?w = (strip u, None, [])"
    by (simp add: process_stream_def frames)
  moreover have "unread (cw_decoder ?w) = []" by (simp add: worker_new_def)
  ultimately show ?thesis
    using run_inner_refines [where w = ?w and grow = grow and sink = sink and write_fault = None, OF drained_new chunks(1)]
      u(2,3)
    by (fastforce dest: strip_fields split: prod.splits option.splits)
qed

end
