(* ===== verification/Gateway_System.thy ===== *)
theory Gateway_System
  imports Gateway_Flow
begin

text \<open>
  The gateway as a whole: the accept loop, the workers of the sandbox sessions and the writer of
  the upstream link, interleaved at every access to what they share. The registry of sessions, the quotas and the workers agree, and
  what the upstream link sees is a run of the link of \<open>Gateway_Queue\<close>.
\<close>

section \<open>The system\<close>

text \<open>\<open>gy_ids\<close> records the identifier under which each session was welcomed.\<close>

record GatewaySystem =
  gy_state :: GatewayState
  gy_workers :: "SbConnectionWorker list"
  gy_ids :: "u32 option list"

definition welcomed_id :: "SbConnectionWorker \<Rightarrow> u32 option" where
  "welcomed_id w = (case sw_phase w of Serving ses _ \<Rightarrow> Some (ss_sb_id ses) | _ \<Rightarrow> None)"

text \<open>A greeting adds a label.\<close>

definition labels_after :: "u32 option list \<Rightarrow> SbConnectionWorker \<Rightarrow> GatewayState \<Rightarrow> GatewayState \<Rightarrow> u32 option list" where
  "labels_after ids w gs gs' =
     ids @ replicate (length (uq_quotas (gs_upstream gs')) - length (uq_quotas (gs_upstream gs))) (welcomed_id w)"

definition gateway_start :: "GatewayConfig \<Rightarrow> GatewaySystem \<Rightarrow> bool" where
  "gateway_start limits s \<longleftrightarrow>
     (\<exists>reply. s = \<lparr>gy_state = \<lparr>gs_sessions = registry_new,
        gs_upstream = link_start (gl_outbound_queue_capacity limits) reply, gs_forwarded_frames = 0\<rparr>,
        gy_workers = [], gy_ids = []\<rparr>)"

inductive gateway_step :: "GatewayConfig \<Rightarrow> GatewaySystem \<Rightarrow> GatewaySystem \<Rightarrow> bool" for limits where
  accepts: "gateway_step limits s (s\<lparr>gy_workers := accept_round limits accepted (gy_workers s)\<rparr>)"
| serves: "i < length (gy_workers s) \<Longrightarrow> sb_worker_step limits grow r (sw_phase (gy_workers s ! i)) (gy_workers s ! i) (gy_state s) = (w, gs) \<Longrightarrow>
    gateway_step limits s
      (s\<lparr>gy_state := gs, gy_workers := (gy_workers s)[i := w],
         gy_ids := labels_after (gy_ids s) w (gy_state s) gs\<rparr>)"
| writes: "gateway_step limits s
    (s\<lparr>gy_state := (gy_state s)\<lparr>gs_upstream := worker_step inp (uq_pc (gs_upstream (gy_state s))) (gs_upstream (gy_state s))\<rparr>\<rparr>)"

abbreviation gateway_reachable :: "GatewayConfig \<Rightarrow> GatewaySystem \<Rightarrow> bool" where
  "gateway_reachable limits \<equiv> reachable (gateway_start limits) (gateway_step limits)"

section \<open>The tables agree\<close>

definition open_set :: "UpstreamState \<Rightarrow> nat set" where
  "open_set up = {i. i < length (uq_quotas up) \<and> fq_active (uq_quotas up ! i)}"

text \<open>
  What the workers hold: identifiers from the allocation to the release, quotas from the greeting to the
  closing, and items from the reservation of a permit to the offer to the channel.
\<close>

definition holds_id :: "SbConnectionWorker \<Rightarrow> u32 option" where
  "holds_id w =
     (case sw_phase w of
        Allocated registry_id \<Rightarrow> Some registry_id
      | Serving ses _ \<Rightarrow> Some (ss_registry_id ses)
      | Closing registry_id _ \<Rightarrow> Some registry_id
      | Releasing registry_id \<Rightarrow> Some registry_id
      | _ \<Rightarrow> None)"

definition holds_quota :: "SbConnectionWorker \<Rightarrow> nat option" where
  "holds_quota w =
     (case sw_phase w of Serving ses _ \<Rightarrow> Some (ss_quota ses) | Closing _ quota \<Rightarrow> Some quota | _ \<Rightarrow> None)"

definition holds_item :: "SbConnectionWorker \<Rightarrow> ForwardItem option" where
  "holds_item w = (case sw_phase w of Serving _ (Enqueueing item) \<Rightarrow> Some item | _ \<Rightarrow> None)"

lemmas holds_defs = holds_id_def holds_quota_def holds_item_def

text \<open>The tables hold exactly these identifiers, quotas and items.\<close>

definition tables_ok ::
    "GatewayConfig \<Rightarrow> u32 multiset \<Rightarrow> nat multiset \<Rightarrow> ForwardItem multiset \<Rightarrow> GatewayState \<Rightarrow> bool" where
  "tables_ok limits ids quotas items gs \<longleftrightarrow>
     ids = mset_set {x. bs_contains (sr_active (gs_sessions gs)) x}
     \<and> quotas = mset_set (open_set (gs_upstream gs))
     \<and> items = mset (uq_sending (gs_upstream gs))
     \<and> bs_len (sr_active (gs_sessions gs)) \<le> gl_max_sb_connections limits
     \<and> link_reachable (gl_outbound_queue_capacity limits) (gl_max_sb_connections limits) (gl_per_sb_forward_quota limits)
         (gs_upstream gs)"

definition opt_mset :: "'a option \<Rightarrow> 'a multiset" where
  "opt_mset x = (case x of None \<Rightarrow> {#} | Some y \<Rightarrow> {#y#})"

lemma opt_mset_simps [simp]: "opt_mset None = {#}" "opt_mset (Some x) = {#x#}"
  by (simp_all add: opt_mset_def)

lemma finite_open_set [simp]: "finite (open_set up)"
  by (simp add: open_set_def)

lemma open_sessions_card: "open_sessions up = card (open_set up)"
  by (simp add: open_sessions_def open_set_def length_filter_conv_card)

lemma open_set_actives: "actives (uq_quotas up') = actives (uq_quotas up) \<Longrightarrow> open_set up' = open_set up"
  using actives_length [of "uq_quotas up'" "uq_quotas up"] actives_nth [of "uq_quotas up'" "uq_quotas up"]
  by (auto simp: open_set_def)

lemma tables_sizes:
  assumes "tables_ok limits ids quotas items gs"
  shows "size ids = bs_len (sr_active (gs_sessions gs))" and "size quotas = open_sessions (gs_upstream gs)"
  using assms by (simp_all add: tables_ok_def bs_len_card open_sessions_card)

lemma tables_link:
  assumes "tables_ok limits ids quotas items gs"
    and "link_step (gl_max_sb_connections limits) (gl_per_sb_forward_quota limits) (gs_upstream gs) up"
    and "quotas' = mset_set (open_set up)" and "items' = mset (uq_sending up)"
  shows "tables_ok limits ids quotas' items' (gs\<lparr>gs_upstream := up\<rparr>)"
  using assms by (auto simp: tables_ok_def intro: reachable_step)

lemma tables_allocate:
  assumes ok: "tables_ok limits ids quotas items gs"
    and new: "registry_allocate (gl_max_sb_connections limits) (gs_sessions gs) = (reg, Inr registry_id)"
  shows "tables_ok limits (add_mset registry_id ids) quotas items (gs\<lparr>gs_sessions := reg\<rparr>)"
proof -
  let ?act = "sr_active (gs_sessions gs)"
  from new have room: "bs_len ?act < gl_max_sb_connections limits"
    and alloc: "allocate_from (gl_max_sb_connections limits + 1) (gs_sessions gs) = (reg, Inr registry_id)"
    by (auto simp: registry_allocate_def split: if_splits)
  note fresh = allocate_from_Ok [OF alloc]
  have "{x. bs_contains (sr_active reg) x} = insert registry_id {x. bs_contains ?act x}" using fresh by auto
  with fresh have "mset_set {x. bs_contains (sr_active reg) x} = add_mset registry_id (mset_set {x. bs_contains ?act x})"
    by (simp add: finite_bs)
  with ok room fresh show ?thesis by (auto simp: tables_ok_def bs_len_insert)
qed

lemma tables_refused:
  assumes "tables_ok limits ids quotas items gs" and "registry_allocate n (gs_sessions gs) = (reg, Inl e)"
  shows "tables_ok limits ids quotas items (gs\<lparr>gs_sessions := reg\<rparr>)"
proof -
  have "sr_active reg = sr_active (gs_sessions gs)"
    using assms(2) allocate_from_state [of "n + 1" "gs_sessions gs" reg e] unfolding registry_allocate_def
    by (simp only: split: if_splits) simp
  with assms(1) show ?thesis by (simp add: tables_ok_def)
qed

lemma tables_greet:
  assumes ok: "tables_ok limits ids quotas items gs" and room: "size quotas < size ids"
  shows "tables_ok limits ids (add_mset (length (uq_quotas (gs_upstream gs))) quotas) items
    (gs\<lparr>gs_upstream := session_open (gl_per_sb_forward_quota limits) (gs_upstream gs)\<rparr>)"
proof (rule tables_link [OF ok])
  let ?up = "gs_upstream gs"
  have "open_sessions ?up < gl_max_sb_connections limits"
    using room tables_sizes [OF ok] ok by (simp add: tables_ok_def)
  then show "link_step (gl_max_sb_connections limits) (gl_per_sb_forward_quota limits) ?up
      (session_open (gl_per_sb_forward_quota limits) ?up)" by (rule session_opens)
  have "open_set (session_open (gl_per_sb_forward_quota limits) ?up) = insert (length (uq_quotas ?up)) (open_set ?up)"
    by (auto simp: open_set_def session_open_def nth_append quota_new_def less_Suc_eq)
  then have "mset_set (open_set (session_open (gl_per_sb_forward_quota limits) ?up))
      = add_mset (length (uq_quotas ?up)) (mset_set (open_set ?up))"
    by (simp add: mset_set.insert) (simp add: open_set_def)
  with ok show "add_mset (length (uq_quotas ?up)) quotas
      = mset_set (open_set (session_open (gl_per_sb_forward_quota limits) ?up))" by (simp add: tables_ok_def)
  show "items = mset (uq_sending (session_open (gl_per_sb_forward_quota limits) ?up))"
    using ok by (simp add: tables_ok_def session_open_def)
qed

lemma tables_known:
  assumes "tables_ok limits ids quotas items gs" and "quota \<in># quotas"
  shows "quota \<in> open_set (gs_upstream gs)" and "quota < length (uq_quotas (gs_upstream gs))"
proof -
  show "quota \<in> open_set (gs_upstream gs)"
    using assms by (auto simp: tables_ok_def)
  then show "quota < length (uq_quotas (gs_upstream gs))" by (simp add: open_set_def)
qed

lemma tables_reserve:
  assumes ok: "tables_ok limits ids quotas items gs" and quota: "quota \<in># quotas"
    and res: "send_reserve quota bs (gs_upstream gs) = (up, r)"
  shows "tables_ok limits ids quotas (case r of Inl e \<Rightarrow> items | Inr item \<Rightarrow> add_mset item items) (gs\<lparr>gs_upstream := up\<rparr>)"
proof (rule tables_link [OF ok session_reserves [OF tables_known(2) [OF ok quota] res]])
  have "actives (uq_quotas up) = actives (uq_quotas (gs_upstream gs))"
    using res tables_known(2) [OF ok quota]
    by (auto simp: send_reserve_def Let_def actives_def map_update list_update_same_conv
        dest: try_reserve_active try_reserve_fails split: prod.splits sum.splits)
  from open_set_actives [OF this] ok show "quotas = mset_set (open_set up)" by (simp add: tables_ok_def)
  show "(case r of Inl e \<Rightarrow> items | Inr item \<Rightarrow> add_mset item items) = mset (uq_sending up)"
    using ok res by (auto simp: tables_ok_def send_reserve_def Let_def split: prod.splits sum.splits)
qed

lemma tables_enqueue:
  assumes ok: "tables_ok limits ids quotas (add_mset item items) gs"
    and res: "send_enqueue item (gs_upstream gs) = (up, r)"
  shows "tables_ok limits ids quotas items (gs\<lparr>gs_upstream := up\<rparr>)"
proof -
  have sending: "add_mset item items = mset (uq_sending (gs_upstream gs))" using ok by (simp add: tables_ok_def)
  then have "item \<in> set (uq_sending (gs_upstream gs))" by (metis set_mset_mset union_single_eq_member)
  note step = session_enqueues [OF this res]
  have up: "actives (uq_quotas up) = actives (uq_quotas (gs_upstream gs))"
    "uq_sending up = remove1 item (uq_sending (gs_upstream gs))"
    using res by (auto simp: send_enqueue_def Let_def drop_item_def split: if_splits)
  show ?thesis
  proof (rule tables_link [OF ok step])
    show "quotas = mset_set (open_set up)" using ok open_set_actives [OF up(1)] by (simp add: tables_ok_def)
    show "items = mset (uq_sending up)"
      unfolding up(2) mset_remove1 sending [symmetric] by simp
  qed
qed

lemma mset_set_remove: "finite A \<Longrightarrow> x \<in> A \<Longrightarrow> mset_set A = add_mset x (mset_set (A - {x}))"
  by (rule mset_set.remove)

lemma tables_close:
  assumes ok: "tables_ok limits ids (add_mset quota quotas) items gs"
  shows "tables_ok limits ids quotas items (gs\<lparr>gs_upstream := session_close quota (gs_upstream gs)\<rparr>)"
proof (rule tables_link [OF ok session_closes])
  let ?up = "gs_upstream gs"
  have "quota \<in># add_mset quota quotas" by simp
  note live = tables_known [OF ok this]
  show "quota < length (uq_quotas ?up)" by (rule live(2))
  have "open_set (session_close quota ?up) = open_set ?up - {quota}"
    using live(1) by (auto simp: open_set_def session_close_def quota_close_def nth_list_update split: if_splits)
  with ok mset_set_remove [OF finite_open_set live(1)] show "quotas = mset_set (open_set (session_close quota ?up))"
    by (simp add: tables_ok_def)
  show "items = mset (uq_sending (session_close quota ?up))"
    using ok by (simp add: tables_ok_def session_close_def)
qed

lemma tables_release:
  assumes ok: "tables_ok limits (add_mset registry_id ids) quotas items gs"
  shows "tables_ok limits ids quotas items (gs\<lparr>gs_sessions := registry_release registry_id (gs_sessions gs)\<rparr>)"
proof -
  let ?act = "sr_active (gs_sessions gs)"
  have ids: "add_mset registry_id ids = mset_set {x. bs_contains ?act x}" using ok by (simp add: tables_ok_def)
  then have "registry_id \<in> {x. bs_contains ?act x}" by (metis elem_mset_set finite_bs union_single_eq_member)
  from ids mset_set_remove [OF finite_bs this]
  have "ids = mset_set ({x. bs_contains ?act x} - {registry_id})" by simp
  moreover have "{x. bs_contains (bm_remove registry_id ?act) x} = {x. bs_contains ?act x} - {registry_id}"
    by (auto simp: bs_contains_def split: if_splits)
  ultimately show ?thesis
    using ok bs_len_remove [of registry_id ?act] by (auto simp: tables_ok_def registry_release_def)
qed

lemma settle_keeps:
  "actives (uq_quotas (settle item f up)) = actives (uq_quotas up)" by simp

lemma fold_settle_keeps:
  "actives (uq_quotas (fold (\<lambda>item. settle item f) items up)) = actives (uq_quotas up)
   \<and> uq_sending (fold (\<lambda>item. settle item f) items up) = uq_sending up"
  by (induction items arbitrary: up) simp_all

lemma worker_return_keeps:
  "actives (uq_quotas (worker_return up)) = actives (uq_quotas up) \<and> uq_sending (worker_return up) = uq_sending up"
  by (simp add: worker_return_def Let_def fold_settle_keeps)

lemma worker_step_keeps:
  "actives (uq_quotas (worker_step inp pc up)) = actives (uq_quotas up) \<and> uq_sending (worker_step inp pc up) = uq_sending up"
  by (cases "(inp, pc, up)" rule: worker_step.cases)
    (auto simp: worker_return_keeps Let_def split: option.splits list.splits)

lemma tables_write:
  assumes "tables_ok limits ids quotas items gs"
  shows "tables_ok limits ids quotas items (gs\<lparr>gs_upstream := worker_step inp (uq_pc (gs_upstream gs)) (gs_upstream gs)\<rparr>)"
  using worker_step_keeps [of inp "uq_pc (gs_upstream gs)" "gs_upstream gs"] assms
    open_set_actives [of "worker_step inp (uq_pc (gs_upstream gs)) (gs_upstream gs)" "gs_upstream gs"]
  by (intro tables_link [OF assms writer_runs]) (simp_all add: tables_ok_def)

text \<open>One step of a worker; the other workers hold no more quotas than identifiers.\<close>

lemma await_hello_tables:
  assumes "tables_ok limits ids quotas items gs" and "await_hello limits grow r w gs = (w', gs')"
    and "sw_phase w = AwaitHello"
  shows "tables_ok limits (ids + opt_mset (holds_id w')) (quotas + opt_mset (holds_quota w'))
    (items + opt_mset (holds_item w')) gs'"
proof -
  obtain d reads res where "read_frame_once grow (sw_decoder w) (sw_reads w) = (d, reads, res)" by (metis prod_cases3)
  moreover obtain reg out where "registry_allocate (gl_max_sb_connections limits) (gs_sessions gs) = (reg, out)" by fastforce
  ultimately show ?thesis
    using assms tables_refused [OF assms(1), of "gl_max_sb_connections limits" reg] tables_allocate [OF assms(1), of reg]
    by (auto simp: await_hello_def session_allocate_def holds_defs Let_def split: if_splits sum.splits option.splits)
qed

lemma session_greet_tables:
  assumes "tables_ok limits (add_mset registry_id ids) quotas items gs" and "size quotas \<le> size ids"
    and "session_greet limits registry_id w gs = (w', gs')"
  shows "tables_ok limits (ids + opt_mset (holds_id w')) (quotas + opt_mset (holds_quota w'))
    (items + opt_mset (holds_item w')) gs'"
  using tables_greet [OF assms(1)] assms(2,3)
  by (auto simp: session_greet_def holds_defs Let_def split: sum.splits)

lemma session_read_phase:
  "sw_phase w = Serving ses Reading \<Longrightarrow>
     sw_phase (session_read grow r ses w gs) \<in> {Serving ses Reading, Closing (ss_registry_id ses) (ss_quota ses)}
       \<union> {Serving ses (Reserving bs) | bs. \<exists>frame. sf_code frame = SbObservationBatch \<and> forward_bytes (ss_sb_id ses) frame = Ok bs}"
  by (auto simp: session_read_def Let_def split: sum.splits option.splits prod.splits)

lemma session_step_tables:
  assumes ok: "tables_ok limits (add_mset (ss_registry_id ses) ids) (add_mset (ss_quota ses) quotas)
      (items + opt_mset (holds_item w)) gs"
    and phase: "sw_phase w = Serving ses activity" and step: "session_step grow r ses activity w gs = (w', gs')"
  shows "tables_ok limits (ids + opt_mset (holds_id w')) (quotas + opt_mset (holds_quota w'))
    (items + opt_mset (holds_item w')) gs'"
proof (cases activity)
  case (Welcoming bs)
  with ok phase step show ?thesis by (auto simp: holds_defs split: if_splits)
next
  case Reading
  with session_read_phase [of w ses grow r gs] ok phase step show ?thesis by (auto simp: holds_defs)
next
  case (Reserving bs)
  obtain up out where res: "send_reserve (ss_quota ses) bs (gs_upstream gs) = (up, out)" by fastforce
  from ok phase Reserving have "tables_ok limits (add_mset (ss_registry_id ses) ids) (add_mset (ss_quota ses) quotas) items gs"
    by (simp add: holds_defs)
  from tables_reserve [OF this union_single_eq_member res] Reserving phase step res show ?thesis
    by (auto simp: holds_defs split: sum.splits)
next
  case (Enqueueing item)
  obtain up out where res: "send_enqueue item (gs_upstream gs) = (up, out)" by fastforce
  from ok phase Enqueueing have "tables_ok limits (add_mset (ss_registry_id ses) ids) (add_mset (ss_quota ses) quotas)
      (add_mset item items) gs" by (simp add: holds_defs)
  from tables_enqueue [OF this res] Enqueueing phase step res show ?thesis
    by (auto simp: holds_defs split: sum.splits)
next
  case Counting
  with ok phase step show ?thesis by (auto simp: holds_defs tables_ok_def)
qed

lemma sb_worker_step_tables:
  assumes ok: "tables_ok limits (ids + opt_mset (holds_id w)) (quotas + opt_mset (holds_quota w))
      (items + opt_mset (holds_item w)) gs"
    and others: "size quotas \<le> size ids"
    and step: "sb_worker_step limits grow r (sw_phase w) w gs = (w', gs')"
  shows "tables_ok limits (ids + opt_mset (holds_id w')) (quotas + opt_mset (holds_quota w'))
    (items + opt_mset (holds_item w')) gs'"
proof (cases "sw_phase w")
  case AwaitHello
  with ok step await_hello_tables show ?thesis by (simp add: holds_defs)
next
  case (Allocated registry_id)
  with ok step others session_greet_tables show ?thesis by (simp add: holds_defs)
next
  case (Serving ses activity)
  with ok have "tables_ok limits (add_mset (ss_registry_id ses) ids) (add_mset (ss_quota ses) quotas)
      (items + opt_mset (holds_item w)) gs" by (simp add: holds_defs)
  from session_step_tables [OF this Serving] step Serving show ?thesis by simp
next
  case (Closing registry_id quota)
  with ok step tables_close [of limits "add_mset registry_id ids" quota quotas items gs] show ?thesis
    by (auto simp: holds_defs)
next
  case (Releasing registry_id)
  with ok step tables_release [of limits registry_id ids quotas items gs] show ?thesis
    by (auto simp: holds_defs)
next
  case SessionOver
  with ok step show ?thesis by simp
qed

section \<open>Reaping\<close>

lemma mset_swap_remove: "i < length xs \<Longrightarrow> mset xs = add_mset (xs ! i) (mset (swap_remove xs i))"
proof -
  assume i: "i < length xs"
  let ?ys = "xs[i := last xs]"
  have ne: "xs \<noteq> []" "?ys \<noteq> []" using i by auto
  have "last ?ys = last xs" using i ne by (simp add: last_conv_nth nth_list_update)
  then have "mset ?ys = add_mset (last xs) (mset (butlast ?ys))"
    using arg_cong [OF append_butlast_last_id [OF ne(2)], of mset] by simp
  moreover have "mset ?ys = add_mset (last xs) (mset xs - {#xs ! i#})" using i by (rule mset_update)
  moreover have "xs ! i \<in># mset xs" using i by simp
  ultimately show ?thesis by (metis add_mset_add_single add_mset_remove_trivial insert_DiffM2 swap_remove_def)
qed

lemma mset_reap_finished:
  "filter_mset (\<lambda>w. \<not> finished w) (mset (reap_finished finished i ws)) = filter_mset (\<lambda>w. \<not> finished w) (mset ws)
   \<and> set (reap_finished finished i ws) \<subseteq> set ws"
proof (induction finished i ws rule: reap_finished.induct)
  case (1 finished i ws)
  show ?case
  proof (cases "i < length ws \<and> finished (ws ! i)")
    case True
    then have reap: "reap_finished finished i ws = reap_finished finished i (swap_remove ws i)"
      by (simp add: reap_finished.simps [of finished i ws])
    from mset_swap_remove [of i ws] True
    have m: "mset ws = add_mset (ws ! i) (mset (swap_remove ws i))" by simp
    then have "set (swap_remove ws i) \<subseteq> set ws" by (metis set_mset_mset set_mset_add_mset_insert subset_insertI)
    with True "1.IH"(1) m show ?thesis by (auto simp: reap)
  next
    case False
    with 1 show ?thesis by (auto simp: reap_finished.simps [of finished i ws])
  qed
qed

lemma reap_finished_all: "i \<le> length ws \<Longrightarrow> \<forall>w \<in> set (take i ws). \<not> finished w
    \<Longrightarrow> \<forall>w \<in> set (reap_finished finished i ws). \<not> finished w"
proof (induction finished i ws rule: reap_finished.induct)
  case (1 finished i ws)
  show ?case
  proof (cases "i < length ws")
    case False
    then have "reap_finished finished i ws = ws" by (simp add: reap_finished.simps [of finished i ws])
    with False "1.prems" show ?thesis by simp
  next
    case less: True
    show ?thesis
    proof (cases "finished (ws ! i)")
      case True
      have "take i (swap_remove ws i) = take i ws"
        using less by (simp add: swap_remove_def take_butlast)
      with less True "1.IH"(1) "1.prems" show ?thesis
        by (simp add: reap_finished.simps [of finished i ws] swap_remove_def)
    next
      case False
      with less "1.IH"(2) "1.prems" show ?thesis
        by (simp add: reap_finished.simps [of finished i ws] take_Suc_conv_app_nth)
    qed
  qed
qed

text \<open>What a list of workers holds together.\<close>

definition held_by :: "(SbConnectionWorker \<Rightarrow> 'a option) \<Rightarrow> SbConnectionWorker list \<Rightarrow> 'a multiset" where
  "held_by f ws = (\<Sum>w \<in># mset ws. opt_mset (f w))"

lemma held_by_simps [simp]:
  "held_by f [] = {#}" "held_by f (w # ws) = opt_mset (f w) + held_by f ws"
  "held_by f (us @ vs) = held_by f us + held_by f vs"
  by (simp_all add: held_by_def)

lemma held_by_filter:
  assumes "\<And>w. sw_phase w = SessionOver \<Longrightarrow> f w = None"
  shows "held_by f ws = (\<Sum>w \<in># filter_mset (\<lambda>w. sw_phase w \<noteq> SessionOver) (mset ws). opt_mset (f w))"
  by (induction ws) (auto simp: held_by_def assms)

lemma held_quotas_ids: "size (held_by holds_quota ws) \<le> size (held_by holds_id ws)"
  by (induction ws) (auto simp: holds_defs split: SbPhase.splits)

lemma accept_round_held:
  assumes "\<And>w. sw_phase w = SessionOver \<Longrightarrow> f w = None" and "\<And>w. sw_phase w = AwaitHello \<Longrightarrow> f w = None"
  shows "held_by f (accept_round limits accepted ws) = held_by f ws"
proof -
  let ?reaped = "reap_finished (\<lambda>w. sw_phase w = SessionOver) 0 ws"
  have "held_by f ?reaped = held_by f ws"
    using mset_reap_finished [of "\<lambda>w. sw_phase w = SessionOver" 0 ws]
    by (simp add: held_by_filter [of f, OF assms(1)])
  moreover have "held_by f [sb_worker_new reads] = {#}" for reads
    using assms(2) by (simp add: sb_worker_new_def)
  ultimately show ?thesis
    by (simp add: accept_round_def spawn_connection_def Let_def split: option.splits)
qed

lemma accept_round_new:
  "w \<in> set (accept_round limits accepted ws) \<Longrightarrow> w \<in> set ws \<or> sw_phase w = AwaitHello"
  using mset_reap_finished [of "\<lambda>w. sw_phase w = SessionOver" 0 ws]
  by (auto simp: accept_round_def spawn_connection_def Let_def sb_worker_new_def split: option.splits if_splits)

section \<open>Whose frames they are\<close>

definition item_label_ok :: "u32 option list \<Rightarrow> ForwardItem \<Rightarrow> bool" where
  "item_label_ok ids item \<longleftrightarrow>
     fi_session item < length ids
     \<and> (\<exists>sb_id frame. ids ! fi_session item = Some sb_id \<and> sf_code frame = SbObservationBatch
          \<and> forward_bytes sb_id frame = Ok (fi_bytes item))"

definition worker_label_ok :: "u32 option list \<Rightarrow> SbConnectionWorker \<Rightarrow> bool" where
  "worker_label_ok ids w =
     (case sw_phase w of
        Serving ses activity \<Rightarrow>
          ss_quota ses < length ids \<and> ids ! ss_quota ses = Some (ss_sb_id ses)
          \<and> ss_sb_id ses AND sb_welcome_id_mask = ss_registry_id ses
          \<and> (case activity of
               Reserving bs \<Rightarrow> \<exists>frame. sf_code frame = SbObservationBatch \<and> forward_bytes (ss_sb_id ses) frame = Ok bs
             | Enqueueing item \<Rightarrow> item_label_ok ids item
             | _ \<Rightarrow> True)
      | _ \<Rightarrow> True)"

lemma item_label_append: "item_label_ok ids item \<Longrightarrow> item_label_ok (ids @ later) item"
  by (auto simp: item_label_ok_def nth_append)

lemma label_append: "worker_label_ok ids w \<Longrightarrow> worker_label_ok (ids @ later) w"
  by (auto simp: worker_label_ok_def nth_append item_label_append split: SbPhase.splits SbActivity.splits)

lemma welcome_id:
  assumes "sb_welcome registry_id supported = Ok reply" and "sb_decode_numeric_id reply = Ok sb_id"
  shows "sb_id AND sb_welcome_id_mask = registry_id"
proof -
  from assms(1) have small: "registry_id AND NOT sb_welcome_id_mask = 0"
    and reply: "reply = sb_numeric_id SbWelcome (if supported then registry_id OR sb_welcome_workload_cgroup else registry_id)"
    by (auto simp: sb_welcome_def split: if_splits)
  from assms(2) have sb: "sb_id = (if supported then registry_id OR sb_welcome_workload_cgroup else registry_id)"
    by (simp add: sb_decode_numeric_id_def reply sb_numeric_id_def)
  have "\<not> (bit registry_id n \<and> bit (NOT sb_welcome_id_mask) n)" for n
    using small by (metis bit_and_iff bit_0_eq bot_apply bot_bool_def)
  then show ?thesis
    by (intro bit_word_eqI) (auto simp: sb bit_simps sb_welcome_id_mask_def)
qed

definition labels_ok :: "u32 option list \<Rightarrow> SbConnectionWorker list \<Rightarrow> UpstreamState \<Rightarrow> bool" where
  "labels_ok ids ws up \<longleftrightarrow>
     length ids = length (uq_quotas up) \<and> (\<forall>w \<in> set ws. worker_label_ok ids w)
     \<and> (\<forall>item \<in> set (uq_sent up). item_label_ok ids item)"


definition step_labels ::
    "u32 option list \<Rightarrow> GatewayState \<Rightarrow> SbConnectionWorker \<Rightarrow> GatewayState \<Rightarrow> bool" where
  "step_labels ids gs w' gs' \<longleftrightarrow>
     length (labels_after ids w' gs gs') = length (uq_quotas (gs_upstream gs'))
     \<and> worker_label_ok (labels_after ids w' gs gs') w'
     \<and> (\<forall>item \<in> set (uq_sent (gs_upstream gs')). item_label_ok (labels_after ids w' gs gs') item)"

lemma step_labels_same:
  assumes "length ids = length (uq_quotas (gs_upstream gs))" and "worker_label_ok ids w'"
    and "\<forall>item \<in> set (uq_sent (gs_upstream gs')). item_label_ok ids item"
    and "length (uq_quotas (gs_upstream gs')) = length (uq_quotas (gs_upstream gs))"
  shows "step_labels ids gs w' gs'"
  using assms by (simp add: step_labels_def labels_after_def)

lemma await_hello_labels:
  assumes "await_hello limits grow r w gs = (w', gs')" and "sw_phase w = AwaitHello"
    and "length ids = length (uq_quotas (gs_upstream gs))"
    and "\<forall>item \<in> set (uq_sent (gs_upstream gs)). item_label_ok ids item"
  shows "step_labels ids gs w' gs'"
proof -
  have "gs_upstream gs' = gs_upstream gs" "\<nexists>ses activity. sw_phase w' = Serving ses activity"
    using assms(1,2) by (auto simp: await_hello_def session_allocate_def Let_def
        split: if_splits sum.splits option.splits prod.splits)
  with assms(3,4) show ?thesis
    by (intro step_labels_same) (auto simp: worker_label_ok_def split: SbPhase.splits)
qed

lemma session_greet_labels:
  assumes "session_greet limits registry_id w gs = (w', gs')"
    and "length ids = length (uq_quotas (gs_upstream gs))"
    and "\<forall>item \<in> set (uq_sent (gs_upstream gs)). item_label_ok ids item"
  shows "step_labels ids gs w' gs'"
proof -
  have up: "gs_upstream gs' = session_open (gl_per_sb_forward_quota limits) (gs_upstream gs)"
    using assms(1) by (auto simp: session_greet_def Let_def split: sum.splits)
  then have ids: "labels_after ids w' gs gs' = ids @ [welcomed_id w']"
    by (simp add: labels_after_def session_open_def)
  have "worker_label_ok (ids @ [welcomed_id w']) w'"
    using assms(1,2)
    by (auto simp: session_greet_def Let_def worker_label_ok_def welcomed_id_def nth_append split: sum.splits intro: welcome_id)
  moreover have "\<forall>item \<in> set (uq_sent (gs_upstream gs')). item_label_ok (ids @ [welcomed_id w']) item"
    using assms(3) up by (simp add: session_open_def item_label_append)
  ultimately show ?thesis
    using assms(2) up by (simp add: step_labels_def ids session_open_def)
qed

lemma session_step_labels:
  assumes step: "session_step grow r ses activity w gs = (w', gs')" and phase: "sw_phase w = Serving ses activity"
    and ids: "length ids = length (uq_quotas (gs_upstream gs))" "worker_label_ok ids w"
      "\<forall>item \<in> set (uq_sent (gs_upstream gs)). item_label_ok ids item"
  shows "step_labels ids gs w' gs'"
proof (cases activity)
  case (Welcoming bs)
  with step phase ids show ?thesis
    by (intro step_labels_same) (auto simp: worker_label_ok_def split: if_splits)
next
  case Reading
  with step phase ids session_read_phase [of w ses grow r gs] show ?thesis
    by (intro step_labels_same) (auto simp: worker_label_ok_def)
next
  case (Reserving bs)
  have item: "item_label_ok ids \<lparr>fi_bytes = bs, fi_session = ss_quota ses\<rparr>"
    using ids(2) phase Reserving by (auto simp: worker_label_ok_def item_label_ok_def)
  from Reserving step phase ids show ?thesis
    by (intro step_labels_same)
      (auto simp: worker_label_ok_def send_reserve_def Let_def item split: prod.splits sum.splits)
next
  case (Enqueueing item)
  with step phase ids show ?thesis
    by (intro step_labels_same)
      (auto simp: worker_label_ok_def send_enqueue_def drop_item_def Let_def split: prod.splits sum.splits if_splits)
next
  case Counting
  with step phase ids show ?thesis
    by (intro step_labels_same) (auto simp: worker_label_ok_def)
qed

lemma sb_worker_step_labels:
  assumes step: "sb_worker_step limits grow r (sw_phase (ws ! i)) (ws ! i) gs = (w, gs')" and i: "i < length ws"
    and ok: "labels_ok ids ws (gs_upstream gs)"
  shows "labels_ok (labels_after ids w gs gs') (ws[i := w]) (gs_upstream gs')"
proof -
  let ?w = "ws ! i"
  have ids: "length ids = length (uq_quotas (gs_upstream gs))" "worker_label_ok ids ?w"
    "\<forall>item \<in> set (uq_sent (gs_upstream gs)). item_label_ok ids item"
    using ok i by (auto simp: labels_ok_def)
  have "step_labels ids gs w gs'"
  proof (cases "sw_phase ?w")
    case AwaitHello
    with step ids await_hello_labels show ?thesis by simp
  next
    case (Allocated registry_id)
    with step ids session_greet_labels show ?thesis by simp
  next
    case (Serving ses activity)
    with step session_step_labels [OF _ Serving ids] show ?thesis by simp
  next
    case (Closing registry_id quota)
    with step ids show ?thesis
      by (intro step_labels_same) (auto simp: worker_label_ok_def session_close_def)
  qed (use step ids in \<open>auto intro!: step_labels_same simp: worker_label_ok_def\<close>)
  moreover have "worker_label_ok (labels_after ids w gs gs') v" if "v \<in> set ws" for v
    using ok that by (auto simp: labels_ok_def labels_after_def intro: label_append)
  ultimately show ?thesis by (auto simp: step_labels_def labels_ok_def dest: set_update_subset_insert [THEN subsetD])
qed

lemma fold_settle_sent:
  "uq_sent (fold (\<lambda>item. settle item f) items up) = uq_sent up"
  by (induction items arbitrary: up) simp_all

lemma worker_step_labels:
  "uq_sent (worker_step inp pc up) = uq_sent up"
  by (cases "(inp, pc, up)" rule: worker_step.cases)
    (auto simp: worker_return_def fold_settle_sent Let_def split: option.splits list.splits)

definition gateway_inv :: "GatewayConfig \<Rightarrow> GatewaySystem \<Rightarrow> bool" where
  "gateway_inv limits s \<longleftrightarrow>
     tables_ok limits (held_by holds_id (gy_workers s)) (held_by holds_quota (gy_workers s))
       (held_by holds_item (gy_workers s)) (gy_state s)
     \<and> labels_ok (gy_ids s) (gy_workers s) (gs_upstream (gy_state s))"

lemma serves_inv:
  assumes inv: "gateway_inv limits s" and i: "i < length (gy_workers s)"
    and step: "sb_worker_step limits grow r (sw_phase (gy_workers s ! i)) (gy_workers s ! i) (gy_state s) = (w, gs)"
  shows "gateway_inv limits (s\<lparr>gy_state := gs, gy_workers := (gy_workers s)[i := w],
    gy_ids := labels_after (gy_ids s) w (gy_state s) gs\<rparr>)"
proof -
  obtain us vs where xs: "gy_workers s = us @ gy_workers s ! i # vs" and upd: "\<And>y. (gy_workers s)[i := y] = us @ y # vs"
    using list_update_split [OF i] by blast
  have split: "held_by f (gy_workers s) = held_by f (us @ vs) + opt_mset (f (gy_workers s ! i))" for f :: "_ \<Rightarrow> 'a option"
    by (subst xs) simp
  have "tables_ok limits (held_by holds_id (us @ vs) + opt_mset (holds_id (gy_workers s ! i)))
      (held_by holds_quota (us @ vs) + opt_mset (holds_quota (gy_workers s ! i)))
      (held_by holds_item (us @ vs) + opt_mset (holds_item (gy_workers s ! i))) (gy_state s)"
    using inv unfolding gateway_inv_def split by blast
  from sb_worker_step_tables [OF this held_quotas_ids step]
  have "tables_ok limits (held_by holds_id ((gy_workers s)[i := w])) (held_by holds_quota ((gy_workers s)[i := w]))
      (held_by holds_item ((gy_workers s)[i := w])) gs"
    by (simp add: upd add.commute add.left_commute)
  moreover have "labels_ok (gy_ids s) (gy_workers s) (gs_upstream (gy_state s))" using inv by (simp add: gateway_inv_def)
  note sb_worker_step_labels [OF step i this]
  ultimately show ?thesis by (simp add: gateway_inv_def)
qed

interpretation gateway: guarded_system "gateway_start limits" "gateway_step limits" "gateway_inv limits" for limits
proof
  show "gateway_inv limits s" if start: "gateway_start limits s" for s
  proof -
    from start obtain reply where s: "s = \<lparr>gy_state = \<lparr>gs_sessions = registry_new,
        gs_upstream = link_start (gl_outbound_queue_capacity limits) reply, gs_forwarded_frames = 0\<rparr>,
        gy_workers = [], gy_ids = []\<rparr>" by (auto simp: gateway_start_def)
    have "link_reachable (gl_outbound_queue_capacity limits) (gl_max_sb_connections limits)
        (gl_per_sb_forward_quota limits) (link_start (gl_outbound_queue_capacity limits) reply)"
      by (rule reachable_start) blast
    then show ?thesis
      by (simp add: s gateway_inv_def tables_ok_def labels_ok_def open_set_def registry_new_def)
        (simp add: link_start_def)
  qed
  show "gateway_inv limits t" if inv: "gateway_inv limits s" and step: "gateway_step limits s t" for s t
    using step
  proof cases
    case (accepts accepted)
    have "worker_label_ok (gy_ids s) w" if "w \<in> set (accept_round limits accepted (gy_workers s))" for w
      using accept_round_new [OF that] inv
      by (auto simp: gateway_inv_def labels_ok_def) (simp add: worker_label_ok_def)
    moreover have "held_by holds_id (accept_round limits accepted (gy_workers s)) = held_by holds_id (gy_workers s)"
      "held_by holds_quota (accept_round limits accepted (gy_workers s)) = held_by holds_quota (gy_workers s)"
      "held_by holds_item (accept_round limits accepted (gy_workers s)) = held_by holds_item (gy_workers s)"
      by (simp_all add: accept_round_held holds_defs)
    ultimately show ?thesis using inv by (simp add: accepts gateway_inv_def labels_ok_def)
  next
    case (serves i grow r w gs)
    show ?thesis unfolding serves(1) by (rule serves_inv [OF inv serves(2,3)])
  next
    case (writes inp)
    with inv show ?thesis
      using tables_write worker_step_labels [of inp "uq_pc (gs_upstream (gy_state s))" "gs_upstream (gy_state s)"]
        worker_step_keeps [of inp "uq_pc (gs_upstream (gy_state s))" "gs_upstream (gy_state s)", THEN conjunct1, THEN actives_length]
      by (simp add: gateway_inv_def labels_ok_def)
  qed
qed


lemma gateway_link:
  assumes "gateway_reachable limits s"
  shows "account_inv (gl_outbound_queue_capacity limits) (gl_max_sb_connections limits) (gl_per_sb_forward_quota limits)
      (gs_upstream (gy_state s)) \<and> log_inv (gs_upstream (gy_state s))"
proof -
  have "link_reachable (gl_outbound_queue_capacity limits) (gl_max_sb_connections limits) (gl_per_sb_forward_quota limits)
      (gs_upstream (gy_state s))"
    using gateway.reachable_inv [OF assms] by (simp add: gateway_inv_def tables_ok_def)
  then show ?thesis by (rule uplink.reachable_inv)
qed

section \<open>Runs\<close>

text \<open>Runs of the gateway as lists of actions.\<close>

datatype GatewayAction = Accept "SocketRead list option" | Serve nat SbRound | WriteUp WorkerInput

fun gateway_do :: "GatewayConfig \<Rightarrow> GatewayAction \<Rightarrow> GatewaySystem \<Rightarrow> GatewaySystem" where
  "gateway_do limits (Accept accepted) s = s\<lparr>gy_workers := accept_round limits accepted (gy_workers s)\<rparr>"
| "gateway_do limits (Serve i r) s =
     (if i < length (gy_workers s)
      then (case sb_worker_step limits (\<lambda>_ n. n) r (sw_phase (gy_workers s ! i)) (gy_workers s ! i) (gy_state s) of
              (w, gs) \<Rightarrow>
                s\<lparr>gy_state := gs, gy_workers := (gy_workers s)[i := w],
                  gy_ids := labels_after (gy_ids s) w (gy_state s) gs\<rparr>)
      else s)"
| "gateway_do limits (WriteUp inp) s =
     s\<lparr>gy_state := (gy_state s)\<lparr>gs_upstream := worker_step inp (uq_pc (gs_upstream (gy_state s))) (gs_upstream (gy_state s))\<rparr>\<rparr>"

definition gateway_initial :: "GatewayConfig \<Rightarrow> GatewayWelcome \<Rightarrow> GatewaySystem" where
  "gateway_initial limits reply =
     \<lparr>gy_state = \<lparr>gs_sessions = registry_new, gs_upstream = link_start (gl_outbound_queue_capacity limits) reply,
        gs_forwarded_frames = 0\<rparr>, gy_workers = [], gy_ids = []\<rparr>"

definition gateway_run :: "GatewayConfig \<Rightarrow> GatewayWelcome \<Rightarrow> GatewayAction list \<Rightarrow> GatewaySystem" where
  "gateway_run limits reply actions = fold (gateway_do limits) actions (gateway_initial limits reply)"

lemma gateway_do_reachable: "gateway_reachable limits s \<Longrightarrow> gateway_reachable limits (gateway_do limits a s)"
proof (cases a)
  case (Serve i r)
  assume s: "gateway_reachable limits s"
  show ?thesis
  proof (cases "i < length (gy_workers s)")
    case True
    obtain w gs where "sb_worker_step limits (\<lambda>_ n. n) r (sw_phase (gy_workers s ! i)) (gy_workers s ! i) (gy_state s) = (w, gs)"
      by fastforce
    with True Serve s show ?thesis by (auto intro!: reachable_step [OF s] gateway_step.serves)
  qed (use Serve s in simp)
qed (auto intro: reachable_step gateway_step.intros)

lemma gateway_run_reachable: "gateway_reachable limits (gateway_run limits reply actions)"
proof -
  have "gateway_reachable limits (fold (gateway_do limits) actions s)" if "gateway_reachable limits s" for s
    using that by (induction actions arbitrary: s) (auto intro: gateway_do_reachable)
  moreover have "gateway_reachable limits (gateway_initial limits reply)"
    by (rule reachable_start) (auto simp: gateway_start_def gateway_initial_def)
  ultimately show ?thesis by (simp add: gateway_run_def)
qed

end
