(* ===== verification/Gateway_Properties.thy ===== *)
theory Gateway_Properties
  imports Gateway_System "HOL-Library.Sublist"
begin

text \<open>
  The properties of the sandbox link: the codec, the streams, admission, the queue of the gateway
  and the way of a batch from the agent to the sink of the daemon.
\<close>

section \<open>Shared facts\<close>

lemma forward_bytes_id:
  assumes "forward_bytes sb_id frame = Ok bs"
  shows "from_be (take 4 (drop 8 bs)) = sb_id"
proof -
  from assms obtain inner f g where inner: "forwarded_new sb_id inner = Ok f"
    and g: "up_frame_new UpForwardedSbFrame (forwarded_encode f) = Ok g" and bs: "up_frame_encode g = Ok bs"
    by (auto simp: forward_bytes_def)
  have "f = \<lparr>fw_sb_id = sb_id, fw_frame_bytes = inner\<rparr>" using inner by (auto simp: forwarded_new_def split: if_splits)
  moreover have "g = \<lparr>uf_code = UpForwardedSbFrame, uf_payload = forwarded_encode f\<rparr>"
    using g by (auto simp: up_frame_new_def split: if_splits)
  ultimately have "drop 8 bs = be32 sb_id @ inner"
    using bs up_link.header_length [of UpForwardedSbFrame]
    by (auto simp: up_frame_encode_def forwarded_encode_def up_header_def header_bytes_def split: if_splits)
  then show ?thesis by simp
qed

lemma relayed_id: "relayed (sb_id, batch) = Ok bs \<Longrightarrow> from_be (take 4 (drop 8 bs)) = sb_id"
  by (auto simp: relayed_def dest: forward_bytes_id)

lemma item_label_id:
  assumes "item_label_ok ids item" and "relayed (sb_id, batch) = Ok (fi_bytes item)"
  shows "ids ! fi_session item = Some sb_id"
  using assms relayed_id [OF assms(2)] by (auto simp: item_label_ok_def dest: forward_bytes_id)

section \<open>From the agent to the sink\<close>

text \<open>An item carries a batch when its bytes are what the agent and the gateway make of it.\<close>

definition carries :: "ForwardItem \<Rightarrow> ObservationBatch \<Rightarrow> bool" where
  "carries item batch \<longleftrightarrow> batch_ok batch \<and> (\<exists>sb_id. relayed (sb_id, batch) = Ok (fi_bytes item))"

lemma written_subseq: "subseq (written_on n ds) (map fst ds)"
  unfolding written_on_def by (rule subseq_map) (rule subseq_filter_left)

text \<open>
  (C1) From the sandboxes to the sink. In every reachable state of the gateway, if the items on
  its present connection to the daemon carry batches, then the daemon, reading that stream in
  whatever pieces, admits the gateway and hands exactly these batches to its sink, in the order in
  which they were written, each under the identifier with which its session was welcomed. They are
  a part, in order, of what the sessions put into the queue.
\<close>

theorem delivered_end_to_end:
  assumes "gateway_reachable limits s"
    and "\<forall>item \<in> set (items_of (uq_stream (gs_upstream (gy_state s)))). carries item (batch_of item)"
    and "try_open rt = (rt', Inr gateway_id)"
    and "[] \<notin> set chunks"
    and "concat chunks = hello_bytes workload @ concat (map write_bytes (uq_stream (gs_upstream (gy_state s))))"
  shows "\<exists>w. run_inner grow sink None (map data_round chunks) (worker_new n rt k) = (w, None)
      \<and> cw_connection w = Some gateway_id \<and> unread (cw_decoder w) = []
      \<and> cw_sink w = deliver_all sink gateway_id
          (map (\<lambda>item. (the (gy_ids s ! fi_session item), batch_of item)) (items_of (uq_stream (gs_upstream (gy_state s))))) k
      \<and> subseq (items_of (uq_stream (gs_upstream (gy_state s)))) (uq_sent (gs_upstream (gy_state s)))"
proof -
  let ?up = "gs_upstream (gy_state s)"
  let ?origin = "\<lambda>item. (the (gy_ids s ! fi_session item), batch_of item)"
  have log: "uq_sent ?up = map fst (uq_done ?up) @ in_hand ?up @ uq_queue ?up"
    "items_of (uq_stream ?up) = written_on (uq_connection ?up) (uq_done ?up)"
    using gateway_link [OF assms(1)] by (auto simp: log_inv_def)
  have sub: "subseq (items_of (uq_stream ?up)) (uq_sent ?up)"
    unfolding log by (rule subseq_order.trans [OF written_subseq]) (rule subseq_rev_drop_many, simp)
  have "batch_ok (snd (?origin item)) \<and> relayed (?origin item) = Ok (fi_bytes item)"
    if "item \<in> set (items_of (uq_stream ?up))" for item
  proof -
    from assms(2) that obtain sb_id where ok: "batch_ok (batch_of item)" "relayed (sb_id, batch_of item) = Ok (fi_bytes item)"
      by (auto simp: carries_def)
    have "item \<in> set (uq_sent ?up)" using that log by (auto simp: written_on_def)
    then have "item_label_ok (gy_ids s) item"
      using gateway.reachable_inv [OF assms(1)] by (simp add: gateway_inv_def labels_ok_def)
    from item_label_id [OF this ok(2)] ok show ?thesis by simp
  qed
  then have "\<forall>item \<in> set (items_of (uq_stream ?up)). batch_ok (snd (?origin item)) \<and> relayed (?origin item) = Ok (fi_bytes item)"
    by blast
  from stream_delivered [OF assms(3) this assms(4,5), of grow sink n k] sub show ?thesis by blast
qed

definition witness_config :: GatewayConfig where
  "witness_config =
     \<lparr>gl_max_sb_connections = 1, gl_per_sb_forward_quota = 1, gl_outbound_queue_capacity = 1,
      gl_upstream_heartbeat_interval = 1, gl_sb_peer_idle_timeout = 1, gl_io_timeout = 1, gl_reconnect_interval = 1,
      gl_accept_poll_interval = 1, gl_connection_thread_stack_bytes = 1\<rparr>"

definition witness_batch :: ObservationBatch where
  "witness_batch =
     \<lparr>ob_sequence = 7, ob_observations =
        [GuestPressure \<lparr>gp_guest_boot_id = GuestBootId (replicate 16 9), gp_sampled_at_ms = 3,
           gp_memory_some = \<lparr>avg10_millipercent = 1, avg60_millipercent = 2, avg300_millipercent = 3\<rparr>,
           gp_memory_full = \<lparr>avg10_millipercent = 4, avg60_millipercent = 5, avg300_millipercent = 6\<rparr>\<rparr>]\<rparr>"

definition calm :: SbRound where
  "calm = \<lparr>br_stop = False, br_expired = False, br_write_ok = True\<rparr>"

definition writing :: WorkerInput where
  "writing = \<lparr>wi_stop = False, wi_heartbeat_due = False, wi_write_ok = True, wi_reconnected = None\<rparr>"

definition witness_reply :: GatewayWelcome where
  "witness_reply = \<lparr>gw_gateway_id = 5, gw_workload_cgroup_observations = True\<rparr>"

definition witness_run :: GatewaySystem where
  "witness_run = gateway_run witness_config witness_reply
     (Accept (Some [SocketData (wire sb_header (SbHello, [])), SocketData (projr (encode_batch_frame witness_batch))])
      # replicate 6 (Serve 0 calm) @ [WriteUp writing, Serve 0 calm, WriteUp writing])"

definition witness_item :: ForwardItem where
  "witness_item = \<lparr>fi_bytes = projr (relayed (0x80000001, witness_batch)), fi_session = 0\<rparr>"

definition run_summary :: "GatewaySystem \<Rightarrow> StreamWrite list \<times> u32 option list" where
  "run_summary s = (uq_stream (gs_upstream (gy_state s)), gy_ids s)"

lemma witness_run_summary: "run_summary witness_run = ([WroteItem witness_item], [Some 0x80000001])"
  by code_simp

lemma witness_run_result:
  "uq_stream (gs_upstream (gy_state witness_run)) = [WroteItem witness_item]" "gy_ids witness_run = [Some 0x80000001]"
  using witness_run_summary by (simp_all add: run_summary_def)

definition log_sink :: "(u32 \<times> u32 \<times> ObservationBatch) list Sink" where
  "log_sink gateway_id sb_id batch k = (k @ [(gateway_id, sb_id, batch)], Ok ())"

definition witness_runtime :: RuntimeState where
  "witness_runtime = projr (ingest_new 1)"

definition witness_bytes :: bytes where
  "witness_bytes = hello_bytes True @ fi_bytes witness_item"

lemma witness_carries: "carries witness_item witness_batch"
proof -
  have "\<not> isl (relayed (0x80000001, witness_batch))" "batch_ok witness_batch" by code_simp+
  then show ?thesis by (auto simp: carries_def witness_item_def intro!: exI [of _ "0x80000001"])
qed

lemma witness_facts:
  "try_open witness_runtime = (fst (try_open witness_runtime), Inr 1)"
  "[] \<notin> set [take 5 witness_bytes, drop 5 witness_bytes]"
proof -
  have "take 5 (hello_bytes True) \<noteq> []" "drop 5 (hello_bytes True) \<noteq> []" by code_simp+
  then show "[] \<notin> set [take 5 witness_bytes, drop 5 witness_bytes]" by (simp add: witness_bytes_def)
qed code_simp

theorem delivered_end_to_end_witness:
  "\<exists>w. run_inner (\<lambda>_ n. n) log_sink None (map data_round [take 5 witness_bytes, drop 5 witness_bytes])
        (worker_new 64 witness_runtime []) = (w, None)
      \<and> cw_sink w = [(1, 0x80000001, witness_batch)]"
proof -
  have items: "items_of (uq_stream (gs_upstream (gy_state witness_run)))
      = [witness_item]" using witness_run_result by (simp add: items_of_def map_filter_def)
  have reach: "gateway_reachable witness_config witness_run"
    unfolding witness_run_def by (rule gateway_run_reachable)
  have carried: "\<forall>item \<in> set (items_of (uq_stream (gs_upstream (gy_state witness_run)))). carries item witness_batch"
    unfolding items using witness_carries by simp
  have bytes: "concat [take 5 witness_bytes, drop 5 witness_bytes]
      = hello_bytes True @ concat (map write_bytes (uq_stream (gs_upstream (gy_state witness_run))))"
    using witness_run_result by (simp add: write_bytes_def flip: witness_bytes_def)
  obtain w where w: "run_inner (\<lambda>_ n. n) log_sink None (map data_round [take 5 witness_bytes, drop 5 witness_bytes])
        (worker_new 64 witness_runtime []) = (w, None)"
    and sink: "cw_sink w = deliver_all log_sink 1 (map (\<lambda>item. (the (gy_ids witness_run ! fi_session item), witness_batch))
        (items_of (uq_stream (gs_upstream (gy_state witness_run))))) []"
    using delivered_end_to_end [OF reach carried witness_facts(1,2) bytes, of "\<lambda>_ n. n" log_sink 64 "[]"] by blast
  have "cw_sink w = [(1, 0x80000001, witness_batch)]"
    unfolding sink items using witness_run_result by (simp add: deliver_all_def log_sink_def witness_item_def)
  with w show ?thesis by blast
qed

text \<open>
  (C2) However the stream is cut. What the daemon makes of a stream from a gateway, its answer,
  its sink, its counters and its end, does not depend on the pieces in which the stream arrives or on
  how the buffer grows.
\<close>

theorem cutting_is_irrelevant:
  assumes "[] \<notin> set chunks" and "[] \<notin> set pieces" and "concat chunks = concat pieces"
    and "run_inner grow sink write_fault (map data_round chunks) (worker_new n rt k) = (v, res)"
    and "run_inner regrow sink write_fault (map data_round pieces) (worker_new m rt k) = (w, out)"
  shows "res = out \<and> cw_output v = cw_output w \<and> cw_sink v = cw_sink w \<and> cw_runtime v = cw_runtime w
    \<and> cw_connection v = cw_connection w \<and> cw_failed_batches v = cw_failed_batches w
    \<and> (res = None \<longrightarrow> unread (cw_decoder v) = unread (cw_decoder w))"
proof -
  have new: "strip (worker_new n rt k) = strip (worker_new m rt k)"
    "unread (cw_decoder (worker_new n rt k)) = []" "unread (cw_decoder (worker_new m rt k)) = []"
    by (simp_all add: strip_def worker_new_def)
  have same: "process_stream sink write_fault t (worker_new n rt k) = process_stream sink write_fault t (worker_new m rt k)" for t
    using new(1) by (metis process_strip)
  have "strip v = strip w \<and> res = out \<and> (res = None \<longrightarrow> unread (cw_decoder v) = unread (cw_decoder w))"
    using run_inner_refines [where w = "worker_new n rt k" and grow = grow and sink = sink and write_fault = write_fault,
        OF drained_new assms(1)]
      run_inner_refines [where w = "worker_new m rt k" and grow = regrow and sink = sink and write_fault = write_fault,
        OF drained_new assms(2)]
    unfolding assms(4,5) new append_Nil assms(3) same by (auto split: option.splits)
  then show ?thesis by (cases v; cases w) (auto simp: strip_def)
qed

theorem cutting_is_irrelevant_witness:
  "cw_sink (fst (run_inner (\<lambda>_ n. n) log_sink None (map data_round [witness_bytes]) (worker_new 64 witness_runtime [])))
    = cw_sink (fst (run_inner (\<lambda>c n. 2 * n) log_sink None (map data_round [take 5 witness_bytes, drop 5 witness_bytes])
        (worker_new 8 witness_runtime [])))"
proof -
  have "[] \<notin> set [witness_bytes]" "[] \<notin> set [take 5 witness_bytes, drop 5 witness_bytes]"
    using witness_facts(2) by auto
  moreover have "concat [witness_bytes] = concat [take 5 witness_bytes, drop 5 witness_bytes]" by simp
  ultimately show ?thesis
    by (intro cutting_is_irrelevant [where k = "[]" and rt = witness_runtime and write_fault = None and sink = log_sink,
          OF _ _ _ prod.collapse [symmetric] prod.collapse [symmetric], THEN conjunct2, THEN conjunct2, THEN conjunct1])
qed

end
