(* ===== verification/Link_Properties.thy ===== *)
theory Link_Properties
  imports Gateway_System
begin

text \<open>
  Properties of the parts of the sandbox link: the batch codec, admission at the daemon and at the
  gateway, and the queue between them.
\<close>

section \<open>The codec\<close>

text \<open>
  (C35) Batches survive the wire. Every batch of at most 65535 well-formed observations of any of the five
  kinds (type codes 1 to 5) is encoded, in at most ten bytes and 323 bytes for each observation, and decoding the bytes
  gives the batch back.
\<close>

theorem batch_round_trip:
  assumes "list_all observation_ok (ob_observations batch)" and "length (ob_observations batch) < 2 ^ 16"
  shows "\<exists>payload. batch_encode batch = Ok payload \<and> batch_decode payload = Ok batch
    \<and> length payload \<le> observation_batch_fixed_bytes + length (ob_observations batch) * max_encoded_observation_bytes"
proof -
  let ?xs = "ob_observations batch"
  have "length ?xs * max_encoded_observation_bytes \<le> 2 ^ 16 * 323"
    using assms(2) by (intro mult_mono) (simp_all add: max_encoded_observation_bytes_def workload_cgroup_bytes_def)
  then obtain payload where enc: "batch_encode batch = Ok payload"
    and payload: "payload = be64 (ob_sequence batch) @ be16 (of_nat (length ?xs)) @ concat (map encode_observation ?xs)"
    using assms(2) by (simp add: batch_encode_def Let_def observation_batch_fixed_bytes_def)
  from payload encoded_length [OF assms(1)]
  have "length payload \<le> observation_batch_fixed_bytes + length ?xs * max_encoded_observation_bytes"
    by (simp add: observation_batch_fixed_bytes_def)
  with enc batch_text [OF assms(1) enc] show ?thesis by blast
qed

definition sample_pressure :: GuestPressureSnapshot where
  "sample_pressure =
     \<lparr>gp_guest_boot_id = GuestBootId (replicate 16 9), gp_sampled_at_ms = 3,
      gp_memory_some = \<lparr>avg10_millipercent = 1, avg60_millipercent = 2, avg300_millipercent = 3\<rparr>,
      gp_memory_full = \<lparr>avg10_millipercent = 4, avg60_millipercent = 5, avg300_millipercent = 6\<rparr>\<rparr>"

definition sample_batch :: ObservationBatch where
  "sample_batch = \<lparr>ob_sequence = 7, ob_observations = [GuestPressure sample_pressure]\<rparr>"

theorem batch_round_trip_witness:
  "\<exists>payload. batch_encode sample_batch = Ok payload \<and> batch_decode payload = Ok sample_batch"
  using batch_round_trip [of sample_batch] by (simp add: sample_batch_def sample_pressure_def boot_ok_def) blast

section \<open>Admission\<close>

lemma connection_ids_simps [simp]:
  "connection_ids [] = []"
  "connection_ids (pc # pcs) = (case pc of Connected i \<Rightarrow> i # connection_ids pcs | _ \<Rightarrow> connection_ids pcs)"
  by (simp_all add: connection_ids_def map_filter_def split: OpenPc.splits)

lemma connection_ids_used:
  "set (connection_ids pcs) \<subseteq> set (used_ids pcs) \<and> (distinct (used_ids pcs) \<longrightarrow> distinct (connection_ids pcs))
   \<and> length (connection_ids pcs) \<le> length (filter holds_slot pcs)"
proof (induction pcs)
  case (Cons pc pcs)
  then show ?case
    by (cases pc) auto
qed simp

text \<open>
  (C36) Admission at the daemon. Whatever the interleaving of the threads that open, hold and drop
  connections, the counter of connections is the number of reservations, never exceeds the limit
  and bounds the connections; as long as identifiers are drawn without wrap-around, the
  connections have different identifiers, none of them zero.
\<close>

theorem admission_bounded:
  assumes "admission_reachable s" and "as_drawn s < 2 ^ 64 - 1"
  shows "unat (gi_active_connections (as_state s)) = length (filter holds_slot (as_threads s))
    \<and> gi_active_connections (as_state s) \<le> gi_max_connections (as_state s)
    \<and> length (connection_ids (as_threads s)) \<le> unat (gi_max_connections (as_state s))
    \<and> distinct (connection_ids (as_threads s)) \<and> 0 \<notin> set (connection_ids (as_threads s))"
proof -
  have inv: "admission_inv s" using assms(1) by (rule admission.reachable_inv)
  then have "unat (gi_active_connections (as_state s)) \<le> unat (gi_max_connections (as_state s))"
    by (simp add: admission_inv_def word_le_nat_alt)
  with inv assms(2) connection_ids_used [of "as_threads s"] show ?thesis by (auto simp: admission_inv_def)
qed


text \<open>A run of the admission system: one thread connects, a second is refused.\<close>

definition admission_initial :: AdmissionSystem where
  "admission_initial = \<lparr>as_state = projr (ingest_new 1), as_threads = [], as_drawn = 0\<rparr>"

definition thread_arrives :: "AdmissionSystem \<Rightarrow> AdmissionSystem" where
  "thread_arrives s = s\<lparr>as_threads := as_threads s @ [OpenCheck]\<rparr>"

definition thread_steps :: "nat \<Rightarrow> AdmissionSystem \<Rightarrow> AdmissionSystem" where
  "thread_steps i s =
     (if i < length (as_threads s) then
        case open_step (as_state s) (as_threads s ! i) of
          (st, pc) \<Rightarrow> s\<lparr>as_state := st, as_threads := (as_threads s)[i := pc],
                        as_drawn := as_drawn s + (if as_threads s ! i = OpenTakeId then 1 else 0)\<rparr>
      else s)"

lemma thread_reachable:
  "admission_reachable s \<Longrightarrow> admission_reachable (thread_arrives s)"
  "admission_reachable s \<Longrightarrow> admission_reachable (thread_steps i s)"
  "admission_reachable admission_initial"
proof -
  show "admission_reachable (thread_arrives s)" if "admission_reachable s"
    unfolding thread_arrives_def by (rule reachable_step [OF that admission_step.arrive])
  show "admission_reachable (thread_steps i s)" if s: "admission_reachable s"
    using reachable_step [OF s admission_step.advance] s
    by (cases "open_step (as_state s) (as_threads s ! i)") (simp add: thread_steps_def)
  show "admission_reachable admission_initial"
    by (rule reachable_start) (auto simp: admission_start_def admission_initial_def ingest_new_def intro!: exI [of _ 1])
qed

definition admission_run :: AdmissionSystem where
  "admission_run = fold thread_steps [0, 1, 0, 1, 1, 0, 0, 0] (thread_arrives (thread_arrives admission_initial))"

theorem admission_bounded_witness:
  "connection_ids (as_threads admission_run) = [1] \<and> as_threads admission_run ! 1 = OpenFailed Capacity
    \<and> gi_active_connections (as_state admission_run) \<le> gi_max_connections (as_state admission_run)
    \<and> distinct (connection_ids (as_threads admission_run))"
proof -
  have run: "admission_reachable (fold thread_steps steps s)" if "admission_reachable s" for steps s
    using that by (induction steps arbitrary: s) (auto intro: thread_reachable)
  have "admission_reachable admission_run" unfolding admission_run_def by (intro run thread_reachable)
  moreover have "as_drawn admission_run < 2 ^ 64 - 1" by code_simp
  moreover have "connection_ids (as_threads admission_run) = [1] \<and> as_threads admission_run ! 1 = OpenFailed Capacity"
    by code_simp
  ultimately show ?thesis using admission_bounded [of admission_run] by blast
qed

text \<open>
  (C37) Identifiers of sandbox sessions. With fewer than $2^{32} - 1$ sessions configured, the
  registry refuses a session exactly when it is full, and otherwise returns an identifier that is
  not zero and not in use, and marks it as used.
\<close>

theorem session_allocation:
  assumes "registry_reachable capacity st" and "capacity < 2 ^ 32 - 1"
  shows "if bs_len (sr_active st) = capacity
    then registry_allocate capacity st = (st, Err ''SB connection capacity reached'')
    else \<exists>st' c. registry_allocate capacity st = (st', Ok c) \<and> c \<noteq> 0 \<and> \<not> bs_contains (sr_active st) c
      \<and> sr_active st' = bs_insert c (sr_active st)"
proof (cases "bs_len (sr_active st) = capacity")
  case True
  then show ?thesis by (simp add: registry_allocate_def)
next
  case False
  with sessions.reachable_inv [OF assms(1)] have room: "bs_len (sr_active st) < capacity" by (simp add: registry_inv_def)
  then obtain st' c where alloc: "registry_allocate capacity st = (st', Inr c)" using assms(2) by (rule allocate_succeeds)
  with room have "allocate_from (capacity + 1) st = (st', Inr c)" by (simp add: registry_allocate_def split: if_splits)
  from allocate_from_Ok [OF this] alloc False show ?thesis by simp
qed

theorem session_allocation_witness:
  "\<exists>st' c. registry_allocate 2 registry_new = (st', Ok c) \<and> c \<noteq> 0 \<and> sr_active st' = bs_insert c bm_empty"
proof -
  have "registry_reachable 2 registry_new" by (rule reachable_start) simp
  from session_allocation [OF this] show ?thesis by (auto simp: registry_new_def)
qed

text \<open>
  (C39) The registry outruns the welcome. Every number from $2^{31}$ on is handed out as the
  identifier of some session in a reachable state of the registry, although the welcome of the
  link cannot carry it: the worker then drops the sandbox without an answer.
\<close>

theorem welcome_ids_run_out:
  assumes "2 ^ 31 \<le> n" and "n < 2 ^ 32"
  shows "\<exists>st st'. registry_reachable 1 st \<and> registry_allocate 1 st = (st', Ok (of_nat n))
    \<and> sb_welcome (of_nat n) supported = Err (WireError ''SB ID must fit the capability-aware welcome payload'')"
proof -
  let ?st = "\<lparr>sr_next_id = of_nat n, sr_active = bm_empty\<rparr> :: RegistryState"
  have w: "unat (of_nat n :: u32) = n" using assms by (intro unat_of_nat_u32) simp
  have "registry_reachable 1 ?st"
    using next_id_reachable [of "n - 1"] assms by simp
  moreover have "max (of_nat n :: u32) 1 = of_nat n"
    using assms(1) w by (simp add: max_def word_le_nat_alt)
  then have "registry_allocate 1 ?st = (?st\<lparr>sr_next_id := max (of_nat n + 1) 1, sr_active := bs_insert (of_nat n) bm_empty\<rparr>, Ok (of_nat n))"
    by (simp add: registry_allocate_def Let_def)
  moreover have "bit (of_nat n :: u32) 31"
  proof -
    have "n div 2 ^ 31 = 1" using assms by (intro div_nat_eqI) simp_all
    then have "bit n 31" by (simp add: bit_iff_odd)
    then show ?thesis by (simp add: bit_of_nat_iff)
  qed
  then have "bit (of_nat n AND sb_welcome_workload_cgroup) 31"
    by (simp add: sb_welcome_workload_cgroup_def bit_and_iff bit_push_bit_iff del: push_bit_numeral push_bit_of_1)
  then have "of_nat n AND sb_welcome_workload_cgroup \<noteq> 0" by (metis bit_0_eq bot_apply bot_bool_def)
  then have "sb_welcome (of_nat n) supported = Err (WireError ''SB ID must fit the capability-aware welcome payload'')"
    by (simp add: sb_welcome_def sb_welcome_id_mask_def)
  ultimately show ?thesis by blast
qed

theorem welcome_ids_run_out_witness:
  "\<exists>st st'. registry_reachable 1 st \<and> registry_allocate 1 st = (st', Ok (2 ^ 31))
    \<and> sb_welcome (2 ^ 31) True = Err (WireError ''SB ID must fit the capability-aware welcome payload'')"
  using welcome_ids_run_out [of "2 ^ 31" True] by simp


section \<open>The queue of the gateway\<close>

definition held_list :: "(SbConnectionWorker \<Rightarrow> 'a option) \<Rightarrow> SbConnectionWorker list \<Rightarrow> 'a list" where
  "held_list f ws = List.map_filter f ws"

lemma mset_held_list: "mset (held_list f ws) = held_by f ws"
proof (induction ws)
  case (Cons w ws)
  then show ?case by (cases "f w") (simp_all add: held_list_def map_filter_def)
qed (simp add: held_list_def map_filter_def)

text \<open>The workers that hold an identifier and no quota: before the greeting, and after the closing.\<close>

definition between_tables :: "SbConnectionWorker \<Rightarrow> bool" where
  "between_tables w = (case sw_phase w of Allocated _ \<Rightarrow> True | Releasing _ \<Rightarrow> True | _ \<Rightarrow> False)"

lemma held_ids_quotas:
  "size (held_by holds_id ws) = size (held_by holds_quota ws) + length (filter between_tables ws)"
  by (induction ws) (auto simp: holds_defs between_tables_def split: SbPhase.splits)

lemma distinct_mset_set: "mset xs = mset_set A \<Longrightarrow> distinct xs"
proof -
  assume eq: "mset xs = mset_set A"
  have "count (mset_set A) a \<le> 1" for a by (cases "finite A") (simp_all add: count_mset_set')
  then have "count (mset xs) a \<le> 1" for a by (simp add: eq)
  moreover have "0 < count (mset xs) a \<longleftrightarrow> a \<in> set xs" for a by simp
  ultimately have "count (mset xs) a = (if a \<in> set xs then 1 else 0)" for a
    by (metis One_nat_def Suc_leI le_antisym not_gr_zero)
  then show "distinct xs" by (simp add: distinct_count_atmost_1)
qed

text \<open>
  Two runs with one session at a time, a quota of two items and a queue of two: in the first the
  session has sent one batch, in the second it has sent two and closed, and a new one has begun.
\<close>

definition small_config :: GatewayConfig where
  "small_config =
     \<lparr>gl_max_sb_connections = 1, gl_per_sb_forward_quota = 2, gl_outbound_queue_capacity = 2,
      gl_upstream_heartbeat_interval = 1, gl_sb_peer_idle_timeout = 1, gl_io_timeout = 1, gl_reconnect_interval = 1,
      gl_accept_poll_interval = 1, gl_connection_thread_stack_bytes = 1\<rparr>"

definition quiet :: SbRound where
  "quiet = \<lparr>br_stop = False, br_expired = False, br_write_ok = True\<rparr>"

definition empty_batch_bytes :: bytes where
  "empty_batch_bytes = projr (encode_batch_frame \<lparr>ob_sequence = 0, ob_observations = []\<rparr>)"

definition busy_run :: GatewaySystem where
  "busy_run = gateway_run small_config \<lparr>gw_gateway_id = 5, gw_workload_cgroup_observations = False\<rparr>
     (Accept (Some [SocketData (wire sb_header (SbHello, [])), SocketData empty_batch_bytes]) # replicate 7 (Serve 0 quiet))"

definition crowded_run :: GatewaySystem where
  "crowded_run = gateway_run small_config \<lparr>gw_gateway_id = 5, gw_workload_cgroup_observations = False\<rparr>
     (Accept (Some [SocketData (wire sb_header (SbHello, [])), SocketData (empty_batch_bytes @ empty_batch_bytes), SocketData []])
      # replicate 14 (Serve 0 quiet)
      @ Accept (Some [SocketData (wire sb_header (SbHello, []))]) # replicate 2 (Serve 0 quiet))"

definition link_summary ::
    "GatewaySystem \<Rightarrow> SessionForwardState list \<times> nat list \<times> nat \<times> bool \<times> WorkerPc \<times> u32 list" where
  "link_summary s =
     (let up = gs_upstream (gy_state s)
      in (uq_quotas up, map fi_session (uq_queue up), uq_capacity up, uq_disconnected up, uq_pc up, held_list holds_id (gy_workers s)))"

lemma busy_summary:
  "link_summary busy_run = ([\<lparr>fq_active = True, fq_pending = 1, fq_limit = 2\<rparr>], [0], 2, False, LoopTop, [1])"
  by code_simp

lemma crowded_summary:
  "link_summary crowded_run =
     ([\<lparr>fq_active = False, fq_pending = 2, fq_limit = 2\<rparr>, quota_new 2], [0, 0], 2, False, LoopTop, [2])"
  by code_simp

lemma busy_facts:
  "uq_quotas (gs_upstream (gy_state busy_run)) = [\<lparr>fq_active = True, fq_pending = 1, fq_limit = 2\<rparr>]"
  "map fi_session (uq_queue (gs_upstream (gy_state busy_run))) = [0]"
  "uq_pc (gs_upstream (gy_state busy_run)) = LoopTop" "held_list holds_id (gy_workers busy_run) = [1]"
  using busy_summary by (simp_all add: link_summary_def Let_def)

lemma busy_reachable: "gateway_reachable small_config busy_run"
  unfolding busy_run_def by (rule gateway_run_reachable)

lemma busy_queue: "item \<in> set (uq_queue (gs_upstream (gy_state busy_run))) \<Longrightarrow> fi_session item = 0"
proof -
  assume item: "item \<in> set (uq_queue (gs_upstream (gy_state busy_run)))"
  from busy_facts(2) item show ?thesis by auto
qed

text \<open>
  (C33) The tables of the gateway agree at every moment, between any two accesses of its threads. The
  registry holds exactly the identifiers of the workers that have allocated one and not yet released it,
  each for one worker, and not more than configured. The open quotas are exactly those of the workers
  that have greeted and not yet closed, each for one worker; the identifiers exceed them by the workers that
  stand between allocation and greeting or between closing and release. The identifier in the welcome
  of a session is that of the registry, up to the capability bit. The permits a session has out
  are its items under way, not more than its quota, and the queue keeps to its capacity.
\<close>

theorem gateway_tables_agree:
  assumes "gateway_reachable limits s"
  shows "distinct (held_list holds_id (gy_workers s))
    \<and> set (held_list holds_id (gy_workers s)) = set (bs_to_list (sr_active (gs_sessions (gy_state s))))
    \<and> registry_active_count (gs_sessions (gy_state s)) \<le> gl_max_sb_connections limits
    \<and> distinct (held_list holds_quota (gy_workers s))
    \<and> set (held_list holds_quota (gy_workers s)) = open_set (gs_upstream (gy_state s))
    \<and> registry_active_count (gs_sessions (gy_state s))
      = open_sessions (gs_upstream (gy_state s)) + length (filter between_tables (gy_workers s))
    \<and> (\<forall>w \<in> set (gy_workers s). \<forall>ses activity. sw_phase w = Serving ses activity
         \<longrightarrow> ss_sb_id ses AND sb_welcome_id_mask = ss_registry_id ses)
    \<and> length (uq_queue (gs_upstream (gy_state s))) \<le> gl_outbound_queue_capacity limits
    \<and> (\<forall>i < length (uq_quotas (gs_upstream (gy_state s))).
         fq_pending (uq_quotas (gs_upstream (gy_state s)) ! i) = permits (gs_upstream (gy_state s)) i
         \<and> permits (gs_upstream (gy_state s)) i \<le> gl_per_sb_forward_quota limits)"
proof -
  let ?ws = "gy_workers s" and ?up = "gs_upstream (gy_state s)" and ?reg = "gs_sessions (gy_state s)"
  have ok: "tables_ok limits (held_by holds_id ?ws) (held_by holds_quota ?ws) (held_by holds_item ?ws) (gy_state s)"
    and labels: "labels_ok (gy_ids s) ?ws ?up"
    using gateway.reachable_inv [OF assms] by (simp_all add: gateway_inv_def)
  then have ids: "mset (held_list holds_id ?ws) = mset_set {x. bs_contains (sr_active ?reg) x}"
    and quotas: "mset (held_list holds_quota ?ws) = mset_set (open_set ?up)"
    by (simp_all add: tables_ok_def mset_held_list)
  from arg_cong [OF ids, of set_mset] arg_cong [OF quotas, of set_mset]
  have "set (held_list holds_id ?ws) = {x. bs_contains (sr_active ?reg) x}"
    and "set (held_list holds_quota ?ws) = open_set ?up"
    by (simp_all add: finite_bs)
  moreover have "\<forall>w \<in> set ?ws. \<forall>ses activity. sw_phase w = Serving ses activity
      \<longrightarrow> ss_sb_id ses AND sb_welcome_id_mask = ss_registry_id ses"
    using labels by (auto simp: labels_ok_def worker_label_ok_def)
  ultimately show ?thesis
    using ok distinct_mset_set [OF ids] distinct_mset_set [OF quotas] tables_sizes [OF ok] held_ids_quotas [of ?ws]
      gateway_link [OF assms]
    by (simp add: tables_ok_def registry_active_count_def account_inv_def accounted_def)
qed

theorem gateway_tables_agree_witness:
  "held_list holds_id (gy_workers busy_run) = [1]
    \<and> set (bs_to_list (sr_active (gs_sessions (gy_state busy_run)))) = {1}
    \<and> open_set (gs_upstream (gy_state busy_run)) = {0}
    \<and> registry_active_count (gs_sessions (gy_state busy_run)) \<le> 1
    \<and> length (uq_queue (gs_upstream (gy_state busy_run))) \<le> 2"
proof -
  have "open_set (gs_upstream (gy_state busy_run)) = {0}" using busy_facts(1) by (auto simp: open_set_def)
  with gateway_tables_agree [OF busy_reachable] busy_facts(4) show ?thesis by (simp add: small_config_def)
qed

text \<open>
  (C34) Nothing is lost without a cause. In every reachable state of the gateway what the sessions
  put into the queue is, in order, what was settled, then what the writer holds, then the queue.
  What was settled was written to a connection, or its session had closed, or it was discarded
  because a new connection lacked a capability of the last one or because the writer has ended.
  What was written to the present connection is exactly what its stream holds.
\<close>

theorem nothing_lost_without_cause:
  assumes "gateway_reachable limits s"
  shows "uq_sent (gs_upstream (gy_state s))
      = map fst (uq_done (gs_upstream (gy_state s))) @ in_hand (gs_upstream (gy_state s)) @ uq_queue (gs_upstream (gy_state s))
    \<and> items_of (uq_stream (gs_upstream (gy_state s)))
      = written_on (uq_connection (gs_upstream (gy_state s))) (uq_done (gs_upstream (gy_state s)))
    \<and> (\<forall>(item, fate) \<in> set (uq_done (gs_upstream (gy_state s))).
         case fate of
           Written c \<Rightarrow> c \<le> uq_connection (gs_upstream (gy_state s))
         | SessionClosed \<Rightarrow> \<not> fq_active (uq_quotas (gs_upstream (gy_state s)) ! fi_session item)
         | Discarded \<Rightarrow> 0 < uq_downgrades (gs_upstream (gy_state s)) \<or> uq_pc (gs_upstream (gy_state s)) = Returned)"
proof -
  let ?up = "gs_upstream (gy_state s)"
  have log: "log_inv ?up" using gateway_link [OF assms] by simp
  then have ended: "uq_pc ?up = Returned" if "uq_disconnected ?up"
    using that by (cases "uq_pc ?up") (auto simp: log_inv_def)
  have "case fate of Written c \<Rightarrow> c \<le> uq_connection ?up
      | SessionClosed \<Rightarrow> \<not> fq_active (uq_quotas ?up ! fi_session item)
      | Discarded \<Rightarrow> 0 < uq_downgrades ?up \<or> uq_pc ?up = Returned" if "(item, fate) \<in> set (uq_done ?up)" for item fate
  proof -
    have "fate_ok ?up (item, fate)" using log that by (auto simp: log_inv_def list_all_iff)
    then show ?thesis using ended by (cases fate) auto
  qed
  with log show ?thesis by (auto simp: log_inv_def)
qed

theorem nothing_lost_without_cause_witness:
  "uq_sent (gs_upstream (gy_state busy_run))
      = map fst (uq_done (gs_upstream (gy_state busy_run))) @ in_hand (gs_upstream (gy_state busy_run))
        @ uq_queue (gs_upstream (gy_state busy_run))
    \<and> length (uq_queue (gs_upstream (gy_state busy_run))) = 1"
proof -
  from busy_facts(2) have "length (uq_queue (gs_upstream (gy_state busy_run))) = 1" by (metis length_map list.size(3,4) One_nat_def add_0)
  with nothing_lost_without_cause [OF busy_reachable] show ?thesis by blast
qed

section \<open>Does the queue cover the quotas?\<close>

text \<open>
  (C38) The queue covers the quotas of the open sessions. With a configuration that was validated,
  as long as the queue holds no items of sessions that have closed, a session within its quota can
  always send while the writer runs: its item is appended to the queue.
\<close>

theorem queue_covers_open_sessions:
  assumes "gateway_reachable limits s" and "config_validate listener limits = Ok ()"
    and "i < length (uq_quotas (gs_upstream (gy_state s)))" and "fq_active (uq_quotas (gs_upstream (gy_state s)) ! i)"
    and "fq_pending (uq_quotas (gs_upstream (gy_state s)) ! i) < gl_per_sb_forward_quota limits"
    and "\<forall>item \<in> set (uq_queue (gs_upstream (gy_state s))). fq_active (uq_quotas (gs_upstream (gy_state s)) ! fi_session item)"
    and "uq_pc (gs_upstream (gy_state s)) \<noteq> Returned"
  shows "\<exists>up. try_send i bs (gs_upstream (gy_state s)) = (up, Ok ())
    \<and> uq_queue up = uq_queue (gs_upstream (gy_state s)) @ [\<lparr>fi_bytes = bs, fi_session = i\<rparr>]"
proof -
  let ?up = "gs_upstream (gy_state s)" and ?quota = "gl_per_sb_forward_quota limits"
  let ?n = "count_list (map fi_session (uq_queue ?up))"
  have acc: "account_inv (gl_outbound_queue_capacity limits) (gl_max_sb_connections limits) ?quota ?up"
    and log: "log_inv ?up" using gateway_link [OF assms(1)] by simp_all
  have le: "?n j \<le> permits ?up j" for j by (simp add: permits_def)
  have i: "i \<in> open_set ?up" using assms(3,4) by (simp add: open_set_def)
  have "fi_session ` set (uq_queue ?up) \<subseteq> open_set ?up"
    using acc assms(6) by (auto simp: open_set_def account_inv_def live_items_def)
  then have "length (uq_queue ?up) = sum ?n (open_set ?up)"
    using sum_count_set [of "map fi_session (uq_queue ?up)" "open_set ?up"] by simp
  also have "\<dots> < (\<Sum>j\<in>open_set ?up. ?quota)"
  proof (rule sum_strict_mono_ex1 [OF finite_open_set])
    show "\<forall>j\<in>open_set ?up. ?n j \<le> ?quota"
      using acc le by (auto simp: open_set_def account_inv_def accounted_def intro: order_trans)
    have "?n i < ?quota" using acc assms(3,5) le [of i] by (auto simp: account_inv_def accounted_def)
    with i show "\<exists>j\<in>open_set ?up. ?n j < ?quota" by blast
  qed
  also have "\<dots> \<le> gl_max_sb_connections limits * ?quota"
    using acc by (simp add: account_inv_def actives_def filter_map comp_def flip: open_sessions_card)
      (simp add: open_sessions_def)
  also have "\<dots> \<le> uq_capacity ?up" using config_validate_Ok [OF assms(2)] acc by (simp add: account_inv_def)
  finally have room: "length (uq_queue ?up) < uq_capacity ?up" .
  have "\<not> uq_disconnected ?up" using log assms(7) by (cases "uq_pc ?up") (auto simp: log_inv_def)
  moreover have "fq_limit (uq_quotas ?up ! i) = ?quota" using acc assms(3) by (simp add: account_inv_def accounted_def)
  ultimately show ?thesis
    using room assms(4,5) by (simp add: try_send_def send_reserve_def send_enqueue_def try_reserve_def Let_def)
qed


theorem queue_covers_open_sessions_witness:
  "\<exists>up. try_send 0 [1, 2] (gs_upstream (gy_state busy_run)) = (up, Ok ())
    \<and> uq_queue up = uq_queue (gs_upstream (gy_state busy_run)) @ [\<lparr>fi_bytes = [1, 2], fi_session = 0\<rparr>]"
proof -
  have "config_validate (Ok ()) small_config = Ok ()" by code_simp
  moreover have "\<forall>item \<in> set (uq_queue (gs_upstream (gy_state busy_run))).
      fq_active (uq_quotas (gs_upstream (gy_state busy_run)) ! fi_session item)"
    using busy_facts by (auto dest: busy_queue)
  ultimately show ?thesis
    using busy_facts by (intro queue_covers_open_sessions [OF busy_reachable]) (simp_all add: small_config_def)
qed

text \<open>
  (C40) Items of closed sessions take room. The configuration is validated so that the queue covers
  the quota of every session, but items of a session that has closed stay in the queue until the
  writer meets them. So a reachable state exists in which a new session with nothing under way
  cannot send anything: the queue is full. The worker then ends the session.
\<close>

theorem closed_sessions_fill_queue:
  "\<exists>limits s i. config_validate (Ok ()) limits = Ok () \<and> gateway_reachable limits s
    \<and> i < length (uq_quotas (gs_upstream (gy_state s)))
    \<and> uq_quotas (gs_upstream (gy_state s)) ! i = quota_new (gl_per_sb_forward_quota limits)
    \<and> (\<forall>bs. snd (try_send i bs (gs_upstream (gy_state s))) = Err (IoError WouldBlock ''gateway upstream queue is full''))"
proof -
  let ?up = "gs_upstream (gy_state crowded_run)"
  have facts: "uq_quotas ?up = [\<lparr>fq_active = False, fq_pending = 2, fq_limit = 2\<rparr>, quota_new 2]"
    "map fi_session (uq_queue ?up) = [0, 0]" "uq_capacity ?up = 2" "\<not> uq_disconnected ?up"
    using crowded_summary by (simp_all add: link_summary_def Let_def)
  from arg_cong [OF facts(2), of length] have "length (uq_queue ?up) = 2" by simp
  with facts have "snd (try_send 1 bs ?up) = Err (IoError WouldBlock ''gateway upstream queue is full'')" for bs
    by (simp add: try_send_def send_reserve_def send_enqueue_def try_reserve_def quota_new_def Let_def)
  moreover have "gateway_reachable small_config crowded_run" unfolding crowded_run_def by (rule gateway_run_reachable)
  moreover have "config_validate (Ok ()) small_config = Ok ()" by code_simp
  ultimately show ?thesis
    using facts by (intro exI [of _ small_config] exI [of _ crowded_run] exI [of _ 1]) (simp add: small_config_def)
qed

end
