(* ===== verification/Spec2Isabelle.thy ===== *)
theory Spec2Isabelle
  imports Identity_System Trace_Properties File_Policy_Properties Command_Properties Network_Properties
    Gateway_Properties Link_Properties
begin

text \<open>
  \<^bold>\<open>AcTrail\<close> observes the processes of an agent on Linux, records what they do as
  traces, and enforces policies on the files, commands and remote endpoints they use. Agents
  in virtual machines report over a gateway. This development models the parts of the program that
  decide and keep state, and proves them correct. Paths below are relative to \<open>src/crates\<close>.

  \<^bold>\<open>The parts and how they interact.\<close> Collectors observe processes by coordinates of the operating
  system; the \<^emph>\<open>identity manager\<close> (\<open>core/process_identity\<close>) resolves an observation to a
  logical identity. The \<^emph>\<open>trace runtime\<close> (\<open>core/trace_runtime\<close>, \<open>core/model\<close>) keeps the
  traces, the identities that are their members, and the lifecycle of each trace. The access policies
  (\<open>access_control/src/policy\<close>) answer which rule decides on a file, a command or an endpoint; plugins
  change them by patches within their grants. In a sandbox the \<^emph>\<open>agent\<close>
  (\<open>core/sandbox_agent_runtime\<close>) sends batches of observations in frames over a socket to the
  \<^emph>\<open>gateway\<close> (\<open>core/vsock_gateway_runtime\<close>), which numbers its sessions, queues the frames under
  quotas and writes them to the daemon, where a \<^emph>\<open>connection worker\<close>
  (\<open>adapters/sandbox_link/upstream\<close>) takes them apart and the \<^emph>\<open>ingest runtime\<close>
  (\<open>core/gateway_ingest_runtime\<close>) admits connections and delivers to the sink.

  \<^bold>\<open>Conventions.\<close> Machine integers are words of their width, so that overflow is visible; a
  \<open>Result\<close> is a sum with \<open>Inl\<close> the error; an operation on \<open>&mut self\<close> returns the new state, beside
  the result where it can change the state and still fail. A \<open>BTreeMap\<close> is a type of strictly
  ascending association lists (\<open>Prelude\<close>), in which iteration order is the order of keys. A system
  is an inductive \<open>reachable\<close> over start states and steps; the locales \<open>guarded_system\<close> and
  \<open>forward_system\<close> give induction for invariants and for relations that only move forward. What is
  outside the repository is an argument: the file system and environment (record \<open>Host\<close>), the JSON
  codec, the hash of a workload, random bytes, the clock, the growth of a vector, what reads and writes
  of a socket return, and the sink.

  \<^bold>\<open>Theories.\<close>
    \<^item> \<open>Prelude\<close>, \<open>Rust_Text\<close>, \<open>Wire_Bytes\<close>, \<open>Net_Addr\<close>, \<open>Net_Addr_Text\<close>: the standard library as far as the
      program uses it: integers, results, ordered maps (locale \<open>keyed_store\<close>), text, big-endian bytes
      and UTF-8, internet addresses with their text, which reads back.
    \<^item> \<open>Identity\<close> (\<open>contract.rs\<close>, \<open>manager.rs\<close>), \<open>Identity_System\<close>: five indexes from coordinates to
      identities. No two identities share a coordinate, also after restarts from the records of the manager
      before; resolving is idempotent and never panics, a reused pid displaces the old identity.
    \<^item> \<open>Trace_Model\<close> (\<open>core/model/src\<close>), \<open>Trace_Runtime\<close> (\<open>state_machine.rs\<close>, \<open>membership.rs\<close>,
      \<open>sensor_plan.rs\<close>, \<open>registry.rs\<close>), \<open>Trace_System\<close>, \<open>Trace_Properties\<close>: the invariant of the registry over
      all operations, lifecycles that only follow allowed transitions until the trace is removed or
      replaced by a new one under its identifier, isolation of traces, that a trace
      ends when its members have exited, and the negotiation of collectors.
    \<^item> \<open>Policy_Path\<close> (\<open>policy/path.rs\<close>), \<open>Path_Properties\<close>: binding of a path through symbolic links. A bound
      path has no link at any prefix and is a fixed point.
    \<^item> \<open>Policy_Lookup\<close>: the locales \<open>decision_table\<close> (a lookup answers with the matching rule that beats
      all others) and \<open>revisioned_store\<close> (revisions identify states), which the three stores interpret.
    \<^item> \<open>File_Scope\<close>, \<open>File_Policy\<close>, \<open>File_Store\<close>, \<open>File_Policy_System\<close>, \<open>File_Policy_Properties\<close>
      (\<open>policy/file\<close>); \<open>Command_Policy\<close>, \<open>Command_System\<close>, \<open>Command_Properties\<close> (\<open>policy/command\<close>);
      \<open>Network_Policy\<close>, \<open>Network_System\<close>, \<open>Network_Properties\<close> (\<open>policy/network\<close>): the three stores with
      their static rules, grants, patches and queries. A lookup refines the declarative choice,
      a patch stays within the grants of its owner, leaves other owners alone and changes nothing
      when it is rejected.
    \<^item> \<open>Sandbox_Observation\<close> (\<open>contracts/sandbox_observation\<close>), \<open>Observation_Codec\<close>, \<open>Codec_Round_Trip\<close>
      (\<open>batch_codec.rs\<close>), \<open>Frame_Stream\<close>, \<open>Sandbox_Frame\<close> (\<open>contracts/sandbox_link\<close>): observations, their binary
      form, and frames in a byte stream. The locale \<open>framing\<close> shows that the decoder returns the frames
      that were sent, however the stream is cut; both links interpret it.
    \<^item> \<open>Gateway_Admission\<close> (\<open>runtime.rs\<close> of the ingest runtime, \<open>session.rs\<close> of the gateway),
      \<open>Gateway_Queue\<close> (\<open>upstream.rs\<close>), \<open>Ingest_Connection\<close> (\<open>connection.rs\<close>), \<open>Gateway_Session\<close>
      (\<open>protocol.rs\<close> of the agent, \<open>runtime.rs\<close> and \<open>config.rs\<close> of the gateway), \<open>Gateway_Flow\<close>,
      \<open>Gateway_System\<close>, \<open>Gateway_Properties\<close>, \<open>Link_Properties\<close>: the threads of the gateway and of the daemon
      interleaved. Each step of a thread makes at most one access to shared state that other threads
      change (the registry of sessions, a quota, the channel, a counter), so the tables are compared also
      between the two halves of opening and of closing a session. Batches arrive as they were sent, in order and under the identifier of
      their session; counters, tables and limits agree in every reachable state; nothing is lost
      without a cause.

  \<^bold>\<open>Bounds and fuel.\<close> Recursion is structural or has a measure, with two exceptions. The binding
  of a path has the step budget that the source has (\<open>path_max_steps\<close>); a bound path is shown to
  bind again within the same budget. The search for an unused rule number (\<open>available_number\<close>) is a
  partial function, because the source does not end when the largest number is taken; it is shown to
  return while numbers are left. The decoders need no fuel: a frame consumes
  at least its header. The run of a connection is bounded by the reads that are given to it.

  \<^bold>\<open>Not modelled.\<close> The eBPF programs and their loaders, the TLS probes and the
  sampling of procfs and cgroups, because their behaviour is that of the kernel and of inspected
  binaries; storage, export, web, control socket and configuration files, which are SQL, HTTP and
  serialisation by third-party libraries; the WebAssembly host; the readers of model
  provider protocols in \<open>core/semantic_action_runtime\<close>; and the wiring of threads in
  \<open>apps/daemon\<close> beyond what is named above. Log lines, \<open>Debug\<close> and \<open>Display\<close> of errors, and socket options are left out
  everywhere. White space of text is that of ASCII.

  \<^bold>\<open>Simplifications.\<close> Reserving a place in a quota (\<open>try_reserve\<close>) is one step, although the source reads
  the flag of the session before and after it counts: the flag is cleared by the same thread only, so no
  other step can come between that matters. Additions that the source leaves unchecked
  (\<open>reserve_trace_id\<close>) wrap, as in a build with optimisation. The capacity of a new buffer is the one
  asked for. The parent of a path is that of an absolute path. The systems of the command and network
  stores have no step for the removal of an owner that fails at the largest revision, where the source
  leaves the effective rules behind; \<open>command_remove_owner\<close> and \<open>network_remove_owner\<close> themselves have that branch.
\<close>

end
